theory Spec2Isabelle
  imports Main "HOL-Library.Word"
begin

unbundle bit_operations_syntax

section \<open>Errors\<close>

text \<open>
  Both assembler sources signal every failure by throwing. All explicit throws are
  \<^verbatim>\<open>std::runtime_error(msg)\<close>; the message is kept. \<^verbatim>\<open>std::stoi\<close> throws
  \<^verbatim>\<open>std::invalid_argument\<close> or \<^verbatim>\<open>std::out_of_range\<close>, and
  \<^verbatim>\<open>unordered_map::at\<close> throws \<^verbatim>\<open>std::out_of_range\<close>.
\<close>

datatype error =
    runtime_error string
  | stoi_invalid_argument
  | stoi_out_of_range
  | at_out_of_range

type_synonym u8 = "8 word"
type_synonym u16 = "16 word"

text \<open>Sequencing of a throwing computation: the first error aborts.\<close>

definition bind :: "error + 'a \<Rightarrow> ('a \<Rightarrow> error + 'b) \<Rightarrow> error + 'b" where
  "bind r f = (case r of Inl e \<Rightarrow> Inl e | Inr x \<Rightarrow> f x)"

definition push_front :: "'a \<Rightarrow> error + 'a list \<Rightarrow> error + 'a list" where
  "push_front x r = (case r of Inl e \<Rightarrow> Inl e | Inr xs \<Rightarrow> Inr (x # xs))"

section \<open>Character classes of the C locale\<close>

definition isdigit :: "char \<Rightarrow> bool" where
  "isdigit c = (48 \<le> (of_char c :: nat) \<and> (of_char c :: nat) \<le> 57)"

definition isupper :: "char \<Rightarrow> bool" where
  "isupper c = (65 \<le> (of_char c :: nat) \<and> (of_char c :: nat) \<le> 90)"

definition islower :: "char \<Rightarrow> bool" where
  "islower c = (97 \<le> (of_char c :: nat) \<and> (of_char c :: nat) \<le> 122)"

definition isalpha :: "char \<Rightarrow> bool" where
  "isalpha c = (isupper c \<or> islower c)"

definition isalnum :: "char \<Rightarrow> bool" where
  "isalnum c = (isalpha c \<or> isdigit c)"

definition toupper :: "char \<Rightarrow> char" where
  "toupper c = (if islower c then char_of ((of_char c :: nat) - 32) else c)"

text \<open>The set \<^verbatim>\<open>" \t\r\n"\<close> used by \<^verbatim>\<open>trim\<close> and by both tokenizers.\<close>

definition is_blank :: "char \<Rightarrow> bool" where
  "is_blank c = (c = CHR '' '' \<or> c = CHR 0x09 \<or> c = CHR 0x0D \<or> c = CHR 0x0A)"

section \<open>Helpers shared verbatim by both sources\<close>

text \<open>\<^verbatim>\<open>trim\<close>: the substring from the first to the last non-blank character.\<close>

definition trim :: "string \<Rightarrow> string" where
  "trim s = rev (dropWhile is_blank (rev (dropWhile is_blank s)))"

text \<open>\<^verbatim>\<open>iequals\<close>: equal length and position-wise equal after \<^verbatim>\<open>toupper\<close>.\<close>

fun iequals :: "string \<Rightarrow> string \<Rightarrow> bool" where
  "iequals [] [] = True"
| "iequals (a # as) (b # bs) = (toupper a = toupper b \<and> iequals as bs)"
| "iequals _ _ = False"

text \<open>The loop \<^verbatim>\<open>for (char ch : s) upper.push_back(toupper(ch))\<close>.\<close>

definition upper_str :: "string \<Rightarrow> string" where
  "upper_str s = map toupper s"

subsection \<open>\<^verbatim>\<open>std::stoi\<close> and \<^verbatim>\<open>parse_number16\<close>\<close>

text \<open>
  \<^verbatim>\<open>std::stoi(text, &idx, base)\<close> calls \<^verbatim>\<open>strtol\<close>: skip leading white space, read an
  optional sign, for base 16 skip a \<^verbatim>\<open>0x\<close>/\<^verbatim>\<open>0X\<close> prefix that is followed by a hex digit,
  then convert the longest run of digits valid in the base. No digit at all is
  \<^verbatim>\<open>invalid_argument\<close>; a value outside \<^verbatim>\<open>int\<close> (32 bits) is \<^verbatim>\<open>out_of_range\<close>.
\<close>

definition isspace :: "char \<Rightarrow> bool" where
  "isspace c = (c = CHR '' '' \<or> (9 \<le> (of_char c :: nat) \<and> (of_char c :: nat) \<le> 13))"

definition digit_value :: "char \<Rightarrow> nat" where
  "digit_value c =
     (if isdigit c then of_char c - 48
      else if isupper c then of_char c - 55
      else if islower c then of_char c - 87
      else 99)"

definition is_base_digit :: "nat \<Rightarrow> char \<Rightarrow> bool" where
  "is_base_digit base c = (digit_value c < base)"

definition digits_value :: "nat \<Rightarrow> string \<Rightarrow> nat" where
  "digits_value base ds = foldl (\<lambda>a c. a * base + digit_value c) 0 ds"

definition strip_hex_prefix :: "nat \<Rightarrow> string \<Rightarrow> string" where
  "strip_hex_prefix base s =
     (case s of
        z # x # h # rest \<Rightarrow>
          (if base = 16 \<and> z = CHR ''0'' \<and> (x = CHR ''x'' \<or> x = CHR ''X'') \<and> is_base_digit 16 h
           then h # rest else s)
      | _ \<Rightarrow> s)"

definition stoi :: "string \<Rightarrow> nat \<Rightarrow> error + int" where
  "stoi text base =
     (let s0 = dropWhile isspace text;
          neg = (s0 \<noteq> [] \<and> hd s0 = CHR ''-'');
          s1 = (if s0 \<noteq> [] \<and> (hd s0 = CHR ''-'' \<or> hd s0 = CHR ''+'') then tl s0 else s0);
          ds = takeWhile (is_base_digit base) (strip_hex_prefix base s1);
          v = int (digits_value base ds)
      in if ds = [] then Inl stoi_invalid_argument
         else if neg then (if v > 2147483648 then Inl stoi_out_of_range else Inr (- v))
         else (if v > 2147483647 then Inl stoi_out_of_range else Inr v))"

definition parse_number16 :: "string \<Rightarrow> error + u16" where
  "parse_number16 text =
     (let base = (if length text > 2 \<and> text ! 0 = CHR ''0'' \<and>
                     (text ! 1 = CHR ''x'' \<or> text ! 1 = CHR ''X'') then 16 else 10)
      in case stoi text base of
           Inl e \<Rightarrow> Inl e
         | Inr val \<Rightarrow>
             if val < 0 \<or> val > 0xFFFF
             then Inl (runtime_error ''Immediate/address out of range for 16-bit value'')
             else Inr (word_of_int val))"

text \<open>
  The copy in the second source differs only in the message of the range error.
\<close>

definition parse_number16_p2 :: "string \<Rightarrow> error + u16" where
  "parse_number16_p2 text =
     (let base = (if length text > 2 \<and> text ! 0 = CHR ''0'' \<and>
                     (text ! 1 = CHR ''x'' \<or> text ! 1 = CHR ''X'') then 16 else 10)
      in case stoi text base of
           Inl e \<Rightarrow> Inl e
         | Inr val \<Rightarrow>
             if val < 0 \<or> val > 0xFFFF
             then Inl (runtime_error ''number out of range'')
             else Inr (word_of_int val))"

definition reg_id_from_name :: "string \<Rightarrow> error + u8" where
  "reg_id_from_name name =
     (if iequals name ''R0'' then Inr 0
      else if iequals name ''R1'' then Inr 1
      else if iequals name ''R2'' then Inr 2
      else if iequals name ''R3'' then Inr 3
      else Inl (runtime_error ''Unknown register''))"

definition reg_id_from_name_p2 :: "string \<Rightarrow> error + u8" where
  "reg_id_from_name_p2 name =
     (if iequals name ''R0'' then Inr 0
      else if iequals name ''R1'' then Inr 1
      else if iequals name ''R2'' then Inr 2
      else if iequals name ''R3'' then Inr 3
      else Inl (runtime_error (''Unknown register: '' @ name)))"

text \<open>
  \<^verbatim>\<open>make_instr_word\<close>: each field is masked in its 8-bit argument, widened to 16 bits,
  shifted, and or-ed into \<^verbatim>\<open>w\<close>, which starts at 0.
\<close>

definition make_instr_word :: "u8 \<Rightarrow> u8 \<Rightarrow> u8 \<Rightarrow> u8 \<Rightarrow> u16" where
  "make_instr_word opcode mode rd rs =
     (let w0 = (0 :: u16);
          w1 = w0 OR push_bit 11 (ucast (opcode AND 0x1F));
          w2 = w1 OR push_bit 8 (ucast (mode AND 0x07));
          w3 = w2 OR push_bit 5 (ucast (rd AND 0x07));
          w4 = w3 OR push_bit 2 (ucast (rs AND 0x07))
      in w4)"

text \<open>
  \<^verbatim>\<open>std::getline\<close> in a loop: lines end at a newline; a final piece without newline is
  a line only when it is not empty.
\<close>

fun getlines_from :: "string \<Rightarrow> string \<Rightarrow> string list" where
  "getlines_from cur [] = (if cur = [] then [] else [cur])"
| "getlines_from cur (c # cs) =
     (if c = CHR 0x0A then cur # getlines_from [] cs else getlines_from (cur @ [c]) cs)"

definition getlines :: "string \<Rightarrow> string list" where
  "getlines source = getlines_from [] source"

text \<open>Comment stripping: everything from the first \<^verbatim>\<open>;\<close> on is dropped.\<close>

definition strip_comment :: "string \<Rightarrow> string" where
  "strip_comment line = takeWhile (\<lambda>c. c \<noteq> CHR '';'') line"

text \<open>The byte packer at the end of both \<^verbatim>\<open>assemble\<close> functions: low byte first.\<close>

fun pack_bytes :: "u16 list \<Rightarrow> u8 list" where
  "pack_bytes [] = []"
| "pack_bytes (w # ws) =
     ucast (w AND 0xFF) # ucast (drop_bit 8 w AND 0xFF) # pack_bytes ws"

section \<open>The assembler of \<^verbatim>\<open>src/assembler/assembler.cpp\<close>\<close>

subsection \<open>Tokenization\<close>

datatype TokenType = Identifier | Number | Register | Comma | Colon | Hash
  | LBracket | RBracket | Plus

record Token =
  ttype :: TokenType
  ttext :: string
  tline :: int
  tcolumn :: int

text \<open>
  \<^verbatim>\<open>tokenize_line\<close>: the \<^verbatim>\<open>while (i < n)\<close> loop, with the rest of \<^verbatim>\<open>work\<close> from index
  \<^verbatim>\<open>i\<close> as the list argument. A token pushed before a later throw is lost with the
  throw, so the tokens are consed onto the result of the rest of the loop.
\<close>

definition is_register_name :: "string \<Rightarrow> bool" where
  "is_register_name upper =
     (upper = ''R0'' \<or> upper = ''R1'' \<or> upper = ''R2'' \<or> upper = ''R3'')"

function tokenize_from :: "int \<Rightarrow> int \<Rightarrow> string \<Rightarrow> error + Token list" where
  "tokenize_from line_no i [] = Inr []"
| "tokenize_from line_no i (c # cs) =
     (if is_blank c then tokenize_from line_no (i + 1) cs
      else if c = CHR '','' then
        push_front \<lparr>ttype = Comma, ttext = [c], tline = line_no, tcolumn = i\<rparr>
          (tokenize_from line_no (i + 1) cs)
      else if c = CHR '':'' then
        push_front \<lparr>ttype = Colon, ttext = [c], tline = line_no, tcolumn = i\<rparr>
          (tokenize_from line_no (i + 1) cs)
      else if c = CHR ''#'' then
        push_front \<lparr>ttype = Hash, ttext = [c], tline = line_no, tcolumn = i\<rparr>
          (tokenize_from line_no (i + 1) cs)
      else if c = CHR ''['' then
        push_front \<lparr>ttype = LBracket, ttext = [c], tline = line_no, tcolumn = i\<rparr>
          (tokenize_from line_no (i + 1) cs)
      else if c = CHR '']'' then
        push_front \<lparr>ttype = RBracket, ttext = [c], tline = line_no, tcolumn = i\<rparr>
          (tokenize_from line_no (i + 1) cs)
      else if c = CHR ''+'' then
        push_front \<lparr>ttype = Plus, ttext = [c], tline = line_no, tcolumn = i\<rparr>
          (tokenize_from line_no (i + 1) cs)
      else if isdigit c then
        (let more = takeWhile (\<lambda>d. isalnum d \<or> d = CHR ''x'' \<or> d = CHR ''X'') cs;
             rest = dropWhile (\<lambda>d. isalnum d \<or> d = CHR ''x'' \<or> d = CHR ''X'') cs
         in push_front \<lparr>ttype = Number, ttext = c # more, tline = line_no, tcolumn = i\<rparr>
              (tokenize_from line_no (i + 1 + int (length more)) rest))
      else if isalpha c \<or> c = CHR ''_'' then
        (let more = takeWhile (\<lambda>d. isalnum d \<or> d = CHR ''_'') cs;
             rest = dropWhile (\<lambda>d. isalnum d \<or> d = CHR ''_'') cs;
             ident = c # more;
             upper = upper_str ident
         in push_front
              (if is_register_name upper
               then \<lparr>ttype = Register, ttext = upper, tline = line_no, tcolumn = i\<rparr>
               else \<lparr>ttype = Identifier, ttext = ident, tline = line_no, tcolumn = i\<rparr>)
              (tokenize_from line_no (i + 1 + int (length more)) rest))
      else Inl (runtime_error ''Unexpected character in source''))"
  by pat_completeness auto
termination
  by (relation "measure (\<lambda>(l, i, cs). length cs)")
     (auto simp: length_dropWhile_le less_Suc_eq_le)

definition tokenize_line :: "string \<Rightarrow> int \<Rightarrow> error + Token list" where
  "tokenize_line ln line_no = tokenize_from line_no 0 (strip_comment ln)"

subsection \<open>Parsing\<close>

datatype LineKind = Empty | Instruction | Directive

datatype OperandKind = Reg | Imm | LabelRef | RawNumber

record Operand =
  kind :: OperandKind
  otext :: string

record ParsedLine =
  line_no :: int
  label :: string
  lkind :: LineKind
  op :: string
  operands :: "Operand list"

definition msg_number_after_hash :: string where
  "msg_number_after_hash = ''Expected number after '' @ [CHR 0x27, CHR ''#'', CHR 0x27]"

text \<open>The operand loop \<^verbatim>\<open>while (idx < tokens.size())\<close> of \<^verbatim>\<open>parse_tokens\<close>.\<close>

fun parse_operands :: "Token list \<Rightarrow> error + Operand list" where
  "parse_operands [] = Inr []"
| "parse_operands (t # ts) =
     (if ttype t = Comma then parse_operands ts
      else if ttype t = Register then
        push_front \<lparr>kind = Reg, otext = ttext t\<rparr> (parse_operands ts)
      else if ttype t = Hash then
        (case ts of
           [] \<Rightarrow> Inl (runtime_error msg_number_after_hash)
         | n # ts' \<Rightarrow>
             if ttype n \<noteq> Number then Inl (runtime_error msg_number_after_hash)
             else push_front \<lparr>kind = Imm, otext = ttext n\<rparr> (parse_operands ts'))
      else if ttype t = Number then
        push_front \<lparr>kind = RawNumber, otext = ttext t\<rparr> (parse_operands ts)
      else if ttype t = Identifier then
        push_front \<lparr>kind = LabelRef, otext = ttext t\<rparr> (parse_operands ts)
      else Inl (runtime_error ''Unsupported operand syntax''))"


text \<open>
  \<^verbatim>\<open>parse_tokens\<close>: an optional leading \<^verbatim>\<open>Identifier Colon\<close> is the label; the next
  token must be an Identifier (the mnemonic or directive); the rest are operands.
\<close>

definition parse_tokens :: "Token list \<Rightarrow> error + ParsedLine" where
  "parse_tokens tokens =
     (if tokens = [] then
        Inr \<lparr>line_no = 0, label = [], lkind = Empty, op = [], operands = []\<rparr>
      else
        (let ln = tline (hd tokens);
             has_label = (1 < length tokens \<and> ttype (tokens ! 0) = Identifier
                            \<and> ttype (tokens ! 1) = Colon);
             lbl = (if has_label then ttext (tokens ! 0) else []);
             rest = (if has_label then drop 2 tokens else tokens)
         in case rest of
              [] \<Rightarrow> Inr \<lparr>line_no = ln, label = lbl, lkind = Empty, op = [], operands = []\<rparr>
            | t # ts \<Rightarrow>
                if ttype t \<noteq> Identifier
                then Inl (runtime_error ''Expected instruction or directive'')
                else
                  (let is_directive = (ttext t \<noteq> [] \<and> hd (ttext t) = CHR ''.'')
                   in bind (parse_operands ts) (\<lambda>ops.
                        Inr \<lparr>line_no = ln, label = lbl,
                             lkind = (if is_directive then Directive else Instruction),
                             op = ttext t, operands = ops\<rparr>))))"

subsection \<open>Pass 1\<close>

record AsmContext =
  current_addr_words :: u16
  symbols :: "(string \<times> u16) list"
  line_addr :: "u16 list"

definition init_ctx :: AsmContext where
  "init_ctx = \<lparr>current_addr_words = 0x8000, symbols = [], line_addr = []\<rparr>"

definition INSTR_TABLE :: "(string \<times> u8) list" where
  "INSTR_TABLE = [(''NOP'', 0), (''HALT'', 1), (''ADD'', 5), (''JMP'', 13), (''JZ'', 14)]"

definition find_instr :: "string \<Rightarrow> (string \<times> u8) option" where
  "find_instr op_upper = find (\<lambda>info. iequals op_upper (fst info)) INSTR_TABLE"

definition has_instr :: "string \<Rightarrow> bool" where
  "has_instr op_upper = (find_instr op_upper \<noteq> None)"

definition symbol_exists :: "AsmContext \<Rightarrow> string \<Rightarrow> bool" where
  "symbol_exists ctx name = (find (\<lambda>p. fst p = name) (symbols ctx) \<noteq> None)"

definition lookup_symbol :: "AsmContext \<Rightarrow> string \<Rightarrow> error + u16" where
  "lookup_symbol ctx name =
     (case find (\<lambda>p. fst p = name) (symbols ctx) of
        Some p \<Rightarrow> Inr (snd p)
      | None \<Rightarrow> Inl (runtime_error (''Unknown label: '' @ name)))"

text \<open>
  The body of the loop of \<^verbatim>\<open>pass1\<close> for one line. \<^verbatim>\<open>line_addr\<close> is written at the
  indices \<^verbatim>\<open>0, 1, 2, ...\<close> in this order, so the model appends to it.
\<close>

definition pass1_line :: "ParsedLine \<Rightarrow> AsmContext \<Rightarrow> error + AsmContext" where
  "pass1_line pl ctx =
     (let ctx1 = ctx\<lparr>line_addr := line_addr ctx @ [current_addr_words ctx]\<rparr>
      in bind
           (if label pl \<noteq> [] then
              (if symbol_exists ctx1 (label pl) then Inl (runtime_error ''Duplicate label'')
               else Inr (ctx1\<lparr>symbols := symbols ctx1 @ [(label pl, current_addr_words ctx1)]\<rparr>))
            else Inr ctx1)
           (\<lambda>ctx2.
              if lkind pl = Directive then
                (if iequals (op pl) ''.org'' then
                   (if length (operands pl) \<noteq> 1 \<or> kind (operands pl ! 0) \<noteq> RawNumber
                    then Inl (runtime_error ''.org expects one numeric operand'')
                    else bind (parse_number16 (otext (operands pl ! 0))) (\<lambda>v.
                           Inr (ctx2\<lparr>current_addr_words := v\<rparr>)))
                 else if iequals (op pl) ''.word'' then
                   Inr (ctx2\<lparr>current_addr_words := current_addr_words ctx2 + 1\<rparr>)
                 else Inr ctx2)
              else if lkind pl = Instruction then
                (let upper = upper_str (op pl)
                 in if \<not> has_instr upper then Inr ctx2
                    else
                      (let ctx3 = ctx2\<lparr>current_addr_words := current_addr_words ctx2 + 1\<rparr>
                       in if iequals upper ''ADD'' then
                            (if length (operands pl) = 2 \<and> kind (operands pl ! 1) = Imm
                             then Inr (ctx3\<lparr>current_addr_words := current_addr_words ctx3 + 1\<rparr>)
                             else Inr ctx3)
                          else if iequals upper ''JMP'' \<or> iequals upper ''JZ'' then
                            Inr (ctx3\<lparr>current_addr_words := current_addr_words ctx3 + 1\<rparr>)
                          else Inr ctx3))
              else Inr ctx2))"

fun pass1 :: "ParsedLine list \<Rightarrow> AsmContext \<Rightarrow> error + AsmContext" where
  "pass1 [] ctx = Inr ctx"
| "pass1 (pl # pls) ctx = bind (pass1_line pl ctx) (pass1 pls)"

subsection \<open>Pass 2\<close>

text \<open>
  The words one iteration of the loop of \<^verbatim>\<open>pass2\<close> pushes, for the line \<^verbatim>\<open>pl\<close> whose
  entry of \<^verbatim>\<open>line_addr\<close> is \<open>cur_addr_words\<close>. The 32-bit signed offset arithmetic
  cannot overflow (both operands lie in 0..65537), so it is done in \<^typ>\<open>int\<close>;
  \<^verbatim>\<open>offset & 0xFFFF\<close> is the two's complement \<open>AND\<close>.
\<close>

definition encode_line :: "AsmContext \<Rightarrow> u16 \<Rightarrow> ParsedLine \<Rightarrow> error + u16 list" where
  "encode_line ctx cur_addr_words pl =
     (if lkind pl = Directive then
        (if iequals (op pl) ''.org'' then Inr []
         else if iequals (op pl) ''.word'' then
           (if length (operands pl) \<noteq> 1 then Inl (runtime_error ''.word expects one operand'')
            else if kind (operands pl ! 0) = RawNumber then
              bind (parse_number16 (otext (operands pl ! 0))) (\<lambda>value. Inr [value])
            else if kind (operands pl ! 0) = LabelRef then
              bind (lookup_symbol ctx (otext (operands pl ! 0))) (\<lambda>value. Inr [value])
            else Inl (runtime_error ''Unsupported operand for .word''))
         else Inr [])
      else if lkind pl \<noteq> Instruction then Inr []
      else
        (let upper = upper_str (op pl)
         in case find_instr upper of
              None \<Rightarrow> Inl (runtime_error ''Unknown instruction'')
            | Some info \<Rightarrow>
                (let opcode = snd info
                 in if iequals upper ''NOP'' \<or> iequals upper ''HALT'' then
                      Inr [make_instr_word opcode 0 0 0]
                    else if iequals upper ''ADD'' then
                      (if length (operands pl) \<noteq> 2
                       then Inl (runtime_error ''ADD expects two operands'')
                       else if kind (operands pl ! 0) \<noteq> Reg
                       then Inl (runtime_error ''ADD first operand must be register'')
                       else bind (reg_id_from_name (otext (operands pl ! 0))) (\<lambda>rd.
                         if kind (operands pl ! 1) = Reg then
                           bind (reg_id_from_name (otext (operands pl ! 1))) (\<lambda>rs.
                             Inr [make_instr_word opcode 0 rd rs])
                         else if kind (operands pl ! 1) = Imm then
                           bind (parse_number16 (otext (operands pl ! 1))) (\<lambda>imm.
                             Inr [make_instr_word opcode 1 rd 0, imm])
                         else Inl (runtime_error ''Unsupported ADD operand'')))
                    else if iequals upper ''JMP'' \<or> iequals upper ''JZ'' then
                      (if length (operands pl) \<noteq> 1
                       then Inl (runtime_error ''Jump expects one operand'')
                       else bind
                         (if kind (operands pl ! 0) = LabelRef then
                            lookup_symbol ctx (otext (operands pl ! 0))
                          else if kind (operands pl ! 0) = RawNumber then
                            parse_number16 (otext (operands pl ! 0))
                          else Inl (runtime_error ''Unsupported jump operand''))
                         (\<lambda>target.
                            let target_words = uint target;
                                next_pc_words = uint cur_addr_words + 2;
                                offset = target_words - next_pc_words;
                                offset16 = (word_of_int (offset AND 0xFFFF) :: u16)
                            in Inr [make_instr_word opcode 5 0 0, offset16]))
                    else Inl (runtime_error ''Instruction not yet supported in assembler''))))"

text \<open>
  The loop of \<^verbatim>\<open>pass2\<close> over the lines paired with their \<^verbatim>\<open>line_addr\<close> entries
  (\<^verbatim>\<open>pass1\<close> has sized \<^verbatim>\<open>line_addr\<close> to the number of lines).
\<close>

fun pass2_loop :: "AsmContext \<Rightarrow> (ParsedLine \<times> u16) list \<Rightarrow> error + u16 list" where
  "pass2_loop ctx [] = Inr []"
| "pass2_loop ctx ((pl, a) # rest) =
     bind (encode_line ctx a pl) (\<lambda>ws.
       bind (pass2_loop ctx rest) (\<lambda>more. Inr (ws @ more)))"

definition pass2 :: "ParsedLine list \<Rightarrow> AsmContext \<Rightarrow> error + u16 list" where
  "pass2 lines ctx = pass2_loop ctx (zip lines (line_addr ctx))"

subsection \<open>\<^verbatim>\<open>assemble\<close>\<close>

text \<open>The \<^verbatim>\<open>getline\<close> loop: blank lines are skipped but counted.\<close>

fun parse_lines :: "int \<Rightarrow> string list \<Rightarrow> error + ParsedLine list" where
  "parse_lines n [] = Inr []"
| "parse_lines n (ln # lns) =
     (if trim ln = [] then parse_lines (n + 1) lns
      else bind (tokenize_line ln n) (\<lambda>tokens.
             bind (parse_tokens tokens) (\<lambda>pl.
               push_front pl (parse_lines (n + 1) lns))))"

definition assemble_words :: "string \<Rightarrow> error + u16 list" where
  "assemble_words source =
     bind (parse_lines 1 (getlines source)) (\<lambda>lines.
       bind (pass1 lines init_ctx) (\<lambda>ctx. pass2 lines ctx))"

definition assemble :: "string \<Rightarrow> error + u8 list" where
  "assemble source = bind (assemble_words source) (\<lambda>words. Inr (pack_bytes words))"


section \<open>The assembler of the second source file\<close>

text \<open>
  The second source file holds another complete assembler with the same interface.
  Its names carry the suffix \<open>_p2\<close> here. Its token type has neither position nor the
  bracket and plus kinds; identifiers may contain dots and are stored upper-cased; the
  symbol table is an \<^verbatim>\<open>unordered_map\<close>; the two passes are inlined in \<^verbatim>\<open>assemble\<close>.
\<close>

subsection \<open>Tokenization\<close>

datatype TokenType_p2 = TIdentifier | TNumber | TRegister | TComma | TColon | THash

record Token_p2 =
  ttype_p2 :: TokenType_p2
  ttext_p2 :: string

function tokenize_from_p2 :: "string \<Rightarrow> error + Token_p2 list" where
  "tokenize_from_p2 [] = Inr []"
| "tokenize_from_p2 (c # cs) =
     (if is_blank c then tokenize_from_p2 cs
      else if c = CHR '','' then
        push_front \<lparr>ttype_p2 = TComma, ttext_p2 = '',''\<rparr> (tokenize_from_p2 cs)
      else if c = CHR '':'' then
        push_front \<lparr>ttype_p2 = TColon, ttext_p2 = '':''\<rparr> (tokenize_from_p2 cs)
      else if c = CHR ''#'' then
        push_front \<lparr>ttype_p2 = THash, ttext_p2 = ''#''\<rparr> (tokenize_from_p2 cs)
      else if isdigit c then
        (let more = takeWhile (\<lambda>d. isalnum d \<or> d = CHR ''x'' \<or> d = CHR ''X'') cs;
             rest = dropWhile (\<lambda>d. isalnum d \<or> d = CHR ''x'' \<or> d = CHR ''X'') cs
         in push_front \<lparr>ttype_p2 = TNumber, ttext_p2 = c # more\<rparr> (tokenize_from_p2 rest))
      else if isalpha c \<or> c = CHR ''_'' \<or> c = CHR ''.'' then
        (let more = takeWhile (\<lambda>d. isalnum d \<or> d = CHR ''_'' \<or> d = CHR ''.'') cs;
             rest = dropWhile (\<lambda>d. isalnum d \<or> d = CHR ''_'' \<or> d = CHR ''.'') cs;
             ident = c # more;
             upper = upper_str ident
         in push_front
              (if is_register_name upper
               then \<lparr>ttype_p2 = TRegister, ttext_p2 = upper\<rparr>
               else \<lparr>ttype_p2 = TIdentifier, ttext_p2 = upper\<rparr>)
              (tokenize_from_p2 rest))
      else Inl (runtime_error ''Unexpected character in source line''))"
  by pat_completeness auto
termination
  by (relation "measure length") (auto simp: length_dropWhile_le less_Suc_eq_le)

definition tokenize_line_p2 :: "string \<Rightarrow> error + Token_p2 list" where
  "tokenize_line_p2 ln = tokenize_from_p2 (strip_comment ln)"

subsection \<open>Parsing\<close>

datatype OperandKind_p2 = KReg | KImm | KLabel | KNumber

record Operand_p2 =
  kind_p2 :: OperandKind_p2
  otext_p2 :: string

record Line_p2 =
  label_p2 :: string
  op_p2 :: string
  is_directive :: bool
  operands_p2 :: "Operand_p2 list"

fun parse_operands_p2 :: "Token_p2 list \<Rightarrow> error + Operand_p2 list" where
  "parse_operands_p2 [] = Inr []"
| "parse_operands_p2 (t # ts) =
     (if ttype_p2 t = TComma then parse_operands_p2 ts
      else if ttype_p2 t = TRegister then
        push_front \<lparr>kind_p2 = KReg, otext_p2 = ttext_p2 t\<rparr> (parse_operands_p2 ts)
      else if ttype_p2 t = THash then
        (case ts of
           [] \<Rightarrow> Inl (runtime_error msg_number_after_hash)
         | n # ts' \<Rightarrow>
             if ttype_p2 n \<noteq> TNumber then Inl (runtime_error msg_number_after_hash)
             else push_front \<lparr>kind_p2 = KImm, otext_p2 = ttext_p2 n\<rparr> (parse_operands_p2 ts'))
      else if ttype_p2 t = TNumber then
        push_front \<lparr>kind_p2 = KNumber, otext_p2 = ttext_p2 t\<rparr> (parse_operands_p2 ts)
      else if ttype_p2 t = TIdentifier then
        push_front \<lparr>kind_p2 = KLabel, otext_p2 = ttext_p2 t\<rparr> (parse_operands_p2 ts)
      else Inl (runtime_error ''Unsupported operand token''))"

definition empty_line_p2 :: Line_p2 where
  "empty_line_p2 = \<lparr>label_p2 = [], op_p2 = [], is_directive = False, operands_p2 = []\<rparr>"

definition parse_line_tokens :: "Token_p2 list \<Rightarrow> error + Line_p2" where
  "parse_line_tokens tokens =
     (if tokens = [] then Inr empty_line_p2
      else
        (let has_label = (1 < length tokens \<and> ttype_p2 (tokens ! 0) = TIdentifier
                            \<and> ttype_p2 (tokens ! 1) = TColon);
             lbl = (if has_label then ttext_p2 (tokens ! 0) else []);
             rest = (if has_label then drop 2 tokens else tokens)
         in case rest of
              [] \<Rightarrow> Inr (empty_line_p2\<lparr>label_p2 := lbl\<rparr>)
            | t # ts \<Rightarrow>
                if ttype_p2 t \<noteq> TIdentifier
                then Inl (runtime_error ''Expected mnemonic or directive'')
                else
                  bind (parse_operands_p2 ts) (\<lambda>ops.
                    Inr \<lparr>label_p2 = lbl, op_p2 = ttext_p2 t,
                         is_directive = (ttext_p2 t \<noteq> [] \<and> hd (ttext_p2 t) = CHR ''.''),
                         operands_p2 = ops\<rparr>)))"

subsection \<open>Pass 1\<close>

text \<open>The local variables of \<^verbatim>\<open>assemble\<close> that Pass 1 writes.\<close>

record Pass1_p2 =
  symbols_p2 :: "string \<rightharpoonup> u16"
  line_addr_p2 :: "u16 list"
  addr :: u16

definition init_p2 :: Pass1_p2 where
  "init_p2 = \<lparr>symbols_p2 = Map.empty, line_addr_p2 = [], addr = 0x8000\<rparr>"

text \<open>\<^verbatim>\<open>symbols.at(name)\<close> throws \<^verbatim>\<open>std::out_of_range\<close> for a missing key.\<close>

definition symbols_at :: "(string \<rightharpoonup> u16) \<Rightarrow> string \<Rightarrow> error + u16" where
  "symbols_at syms name = (case syms name of None \<Rightarrow> Inl at_out_of_range | Some v \<Rightarrow> Inr v)"

definition pass1_line_p2 :: "Line_p2 \<Rightarrow> Pass1_p2 \<Rightarrow> error + Pass1_p2" where
  "pass1_line_p2 l st =
     (let st1 = st\<lparr>line_addr_p2 := line_addr_p2 st @ [addr st]\<rparr>
      in bind
           (if label_p2 l \<noteq> [] then
              (if symbols_p2 st1 (label_p2 l) \<noteq> None
               then Inl (runtime_error (''Duplicate label: '' @ label_p2 l))
               else Inr (st1\<lparr>symbols_p2 := (symbols_p2 st1)(label_p2 l \<mapsto> addr st1)\<rparr>))
            else Inr st1)
           (\<lambda>st2.
              if op_p2 l = [] then Inr st2
              else if is_directive l then
                (if iequals (op_p2 l) ''.ORG'' then
                   (if length (operands_p2 l) \<noteq> 1 \<or>
                       (kind_p2 (operands_p2 l ! 0) \<noteq> KNumber \<and>
                        kind_p2 (operands_p2 l ! 0) \<noteq> KLabel)
                    then Inl (runtime_error ''.org expects one numeric or label operand'')
                    else bind
                      (if kind_p2 (operands_p2 l ! 0) = KNumber
                       then parse_number16_p2 (otext_p2 (operands_p2 l ! 0))
                       else symbols_at (symbols_p2 st2) (otext_p2 (operands_p2 l ! 0)))
                      (\<lambda>v. Inr (st2\<lparr>addr := v\<rparr>)))
                 else if iequals (op_p2 l) ''.WORD'' then Inr (st2\<lparr>addr := addr st2 + 1\<rparr>)
                 else Inr st2)
              else
                (if iequals (op_p2 l) ''NOP'' \<or> iequals (op_p2 l) ''HALT'' then
                   Inr (st2\<lparr>addr := addr st2 + 1\<rparr>)
                 else if iequals (op_p2 l) ''ADD'' then
                   (let st3 = st2\<lparr>addr := addr st2 + 1\<rparr>
                    in if length (operands_p2 l) = 2 \<and> kind_p2 (operands_p2 l ! 1) = KImm
                       then Inr (st3\<lparr>addr := addr st3 + 1\<rparr>)
                       else Inr st3)
                 else if iequals (op_p2 l) ''JMP'' \<or> iequals (op_p2 l) ''JZ'' then
                   Inr (st2\<lparr>addr := addr st2 + 2\<rparr>)
                 else Inr st2)))"

fun pass1_p2 :: "Line_p2 list \<Rightarrow> Pass1_p2 \<Rightarrow> error + Pass1_p2" where
  "pass1_p2 [] st = Inr st"
| "pass1_p2 (l # ls) st = bind (pass1_line_p2 l st) (pass1_p2 ls)"

subsection \<open>Pass 2\<close>

definition opcode_of_p2 :: "string \<Rightarrow> error + u8" where
  "opcode_of_p2 name =
     (if iequals name ''NOP'' then Inr 0
      else if iequals name ''HALT'' then Inr 1
      else if iequals name ''ADD'' then Inr 5
      else if iequals name ''JMP'' then Inr 13
      else if iequals name ''JZ'' then Inr 14
      else Inl (runtime_error (''Unsupported instruction: '' @ name)))"

definition encode_line_p2 :: "(string \<rightharpoonup> u16) \<Rightarrow> u16 \<Rightarrow> Line_p2 \<Rightarrow> error + u16 list" where
  "encode_line_p2 syms cur_addr l =
     (if op_p2 l = [] then Inr []
      else if is_directive l then
        (if iequals (op_p2 l) ''.ORG'' then Inr []
         else if iequals (op_p2 l) ''.WORD'' then
           (if length (operands_p2 l) \<noteq> 1 then Inl (runtime_error ''.word expects one operand'')
            else if kind_p2 (operands_p2 l ! 0) = KNumber then
              bind (parse_number16_p2 (otext_p2 (operands_p2 l ! 0))) (\<lambda>v. Inr [v])
            else if kind_p2 (operands_p2 l ! 0) = KLabel then
              bind (symbols_at syms (otext_p2 (operands_p2 l ! 0))) (\<lambda>v. Inr [v])
            else Inl (runtime_error ''Unsupported .word operand''))
         else Inr [])
      else
        bind (opcode_of_p2 (op_p2 l)) (\<lambda>opcode.
          if opcode = 0 \<or> opcode = 1 then Inr [make_instr_word opcode 0 0 0]
          else if opcode = 5 then
            (if length (operands_p2 l) \<noteq> 2
             then Inl (runtime_error ''ADD expects two operands'')
             else if kind_p2 (operands_p2 l ! 0) \<noteq> KReg
             then Inl (runtime_error ''ADD first operand must be reg'')
             else bind (reg_id_from_name_p2 (otext_p2 (operands_p2 l ! 0))) (\<lambda>rd.
               if kind_p2 (operands_p2 l ! 1) = KReg then
                 bind (reg_id_from_name_p2 (otext_p2 (operands_p2 l ! 1))) (\<lambda>rs.
                   Inr [make_instr_word opcode 0 rd rs])
               else if kind_p2 (operands_p2 l ! 1) = KImm then
                 bind (parse_number16_p2 (otext_p2 (operands_p2 l ! 1))) (\<lambda>imm.
                   Inr [make_instr_word opcode 1 rd 0, imm])
               else Inl (runtime_error ''Unsupported ADD second operand'')))
          else if opcode = 13 \<or> opcode = 14 then
            (if length (operands_p2 l) \<noteq> 1
             then Inl (runtime_error ''Jump expects one operand'')
             else bind
               (if kind_p2 (operands_p2 l ! 0) = KLabel then
                  (case syms (otext_p2 (operands_p2 l ! 0)) of
                     None \<Rightarrow> Inl (runtime_error
                               (''Unknown label in jump: '' @ otext_p2 (operands_p2 l ! 0)))
                   | Some v \<Rightarrow> Inr v)
                else if kind_p2 (operands_p2 l ! 0) = KNumber then
                  parse_number16_p2 (otext_p2 (operands_p2 l ! 0))
                else Inl (runtime_error ''Unsupported jump operand''))
               (\<lambda>target.
                  let next_pc = uint cur_addr + 2;
                      offset = uint target - next_pc;
                      off16 = (word_of_int (offset AND 0xFFFF) :: u16)
                  in Inr [make_instr_word opcode 5 0 0, off16]))
          else Inr []))"

fun pass2_loop_p2 :: "(string \<rightharpoonup> u16) \<Rightarrow> (Line_p2 \<times> u16) list \<Rightarrow> error + u16 list" where
  "pass2_loop_p2 syms [] = Inr []"
| "pass2_loop_p2 syms ((l, a) # rest) =
     bind (encode_line_p2 syms a l) (\<lambda>ws.
       bind (pass2_loop_p2 syms rest) (\<lambda>more. Inr (ws @ more)))"

definition pass2_p2 :: "Line_p2 list \<Rightarrow> Pass1_p2 \<Rightarrow> error + u16 list" where
  "pass2_p2 lines st = pass2_loop_p2 (symbols_p2 st) (zip lines (line_addr_p2 st))"

subsection \<open>\<^verbatim>\<open>assemble\<close>\<close>

fun parse_lines_p2 :: "string list \<Rightarrow> error + Line_p2 list" where
  "parse_lines_p2 [] = Inr []"
| "parse_lines_p2 (raw_line # lns) =
     (let t = trim raw_line
      in if t = [] then parse_lines_p2 lns
         else bind (tokenize_line_p2 t) (\<lambda>tokens.
                bind (parse_line_tokens tokens) (\<lambda>l.
                  push_front l (parse_lines_p2 lns))))"

definition assemble_words_p2 :: "string \<Rightarrow> error + u16 list" where
  "assemble_words_p2 source =
     bind (parse_lines_p2 (getlines source)) (\<lambda>lines.
       bind (pass1_p2 lines init_p2) (\<lambda>st. pass2_p2 lines st))"

definition assemble_p2 :: "string \<Rightarrow> error + u8 list" where
  "assemble_p2 source = bind (assemble_words_p2 source) (\<lambda>words. Inr (pack_bytes words))"


section \<open>Notions used to state the properties\<close>

text \<open>
  A line is an instruction line with mnemonic \<open>m\<close>: the test both passes apply. The first
  source upper-cases the mnemonic itself; the second stores it upper-cased.
\<close>

definition is_instr :: "ParsedLine \<Rightarrow> string \<Rightarrow> bool" where
  "is_instr pl m = (lkind pl = Instruction \<and> iequals (upper_str (op pl)) m)"

definition is_instr_p2 :: "Line_p2 \<Rightarrow> string \<Rightarrow> bool" where
  "is_instr_p2 l m = (op_p2 l \<noteq> [] \<and> \<not> is_directive l \<and> iequals (op_p2 l) m)"


text \<open>A line is the directive \<open>d\<close>, as both passes test it.\<close>

definition is_dir :: "ParsedLine \<Rightarrow> string \<Rightarrow> bool" where
  "is_dir pl d = (lkind pl = Directive \<and> iequals (op pl) d)"

definition is_dir_p2 :: "Line_p2 \<Rightarrow> string \<Rightarrow> bool" where
  "is_dir_p2 l d = (op_p2 l \<noteq> [] \<and> is_directive l \<and> iequals (op_p2 l) d)"

text \<open>
  The labels a list of parsed lines defines, in line order, and the symbol table of the
  first source read as a finite map (\<^verbatim>\<open>lookup_symbol\<close> returns the first match).
\<close>

definition labels_of :: "ParsedLine list \<Rightarrow> string list" where
  "labels_of lines = filter (\<lambda>n. n \<noteq> []) (map label lines)"

definition labels_of_p2 :: "Line_p2 list \<Rightarrow> string list" where
  "labels_of_p2 lines = filter (\<lambda>n. n \<noteq> []) (map label_p2 lines)"

definition syms_of :: "AsmContext \<Rightarrow> (string \<rightharpoonup> u16)" where
  "syms_of ctx = map_of (symbols ctx)"

text \<open>
  What the operand loops read of a token: its kind and its text. The token lists
  \<open>drop_commas\<close> keeps are those with the comma tokens deleted, and \<open>hash_comma_free\<close>
  says that no comma token stands directly behind a hash token.
\<close>

definition tok_shape :: "Token \<Rightarrow> TokenType \<times> string" where
  "tok_shape t = (ttype t, ttext t)"

definition drop_commas :: "Token list \<Rightarrow> Token list" where
  "drop_commas toks = filter (\<lambda>t. ttype t \<noteq> Comma) toks"

fun hash_comma_free :: "Token list \<Rightarrow> bool" where
  "hash_comma_free [] = True"
| "hash_comma_free [t] = True"
| "hash_comma_free (t # n # ts) =
     (\<not> (ttype t = Hash \<and> ttype n = Comma) \<and> hash_comma_free (n # ts))"

definition drop_commas_p2 :: "Token_p2 list \<Rightarrow> Token_p2 list" where
  "drop_commas_p2 toks = filter (\<lambda>t. ttype_p2 t \<noteq> TComma) toks"

fun hash_comma_free_p2 :: "Token_p2 list \<Rightarrow> bool" where
  "hash_comma_free_p2 [] = True"
| "hash_comma_free_p2 [t] = True"
| "hash_comma_free_p2 (t # n # ts) =
     (\<not> (ttype_p2 t = THash \<and> ttype_p2 n = TComma) \<and> hash_comma_free_p2 (n # ts))"

text \<open>The characters for which the tokenizer of each source has a rule.\<close>

definition lexable :: "char \<Rightarrow> bool" where
  "lexable c = (is_blank c \<or> c \<in> set '',:#[]+'' \<or> isdigit c \<or> isalpha c \<or> c = CHR ''_'')"

definition lexable_p2 :: "char \<Rightarrow> bool" where
  "lexable_p2 c =
     (is_blank c \<or> c \<in> set '',:#'' \<or> isdigit c \<or> isalpha c \<or> c = CHR ''_'' \<or> c = CHR ''.'')"

section \<open>Example inputs\<close>

definition nl :: string where
  "nl = [CHR 0x0A]"

definition ex_add_imm :: ParsedLine where
  "ex_add_imm = \<lparr>line_no = 1, label = [], lkind = Instruction, op = ''add'',
     operands = [\<lparr>kind = Reg, otext = ''R2''\<rparr>, \<lparr>kind = Imm, otext = ''7''\<rparr>]\<rparr>"

definition ex_add_reg_p2 :: Line_p2 where
  "ex_add_reg_p2 = \<lparr>label_p2 = [], op_p2 = ''ADD'', is_directive = False,
     operands_p2 = [\<lparr>kind_p2 = KReg, otext_p2 = ''R2''\<rparr>, \<lparr>kind_p2 = KReg, otext_p2 = ''R3''\<rparr>]\<rparr>"

definition ex_add_reg :: ParsedLine where
  "ex_add_reg = \<lparr>line_no = 1, label = [], lkind = Instruction, op = ''Add'',
     operands = [\<lparr>kind = Reg, otext = ''R0''\<rparr>, \<lparr>kind = Reg, otext = ''R1''\<rparr>]\<rparr>"

definition ex_nop :: ParsedLine where
  "ex_nop = \<lparr>line_no = 1, label = [], lkind = Instruction, op = ''nop'', operands = []\<rparr>"

definition ex_halt :: ParsedLine where
  "ex_halt = \<lparr>line_no = 1, label = [], lkind = Instruction, op = ''HALT'', operands = []\<rparr>"

definition ex_add_imm_p2 :: Line_p2 where
  "ex_add_imm_p2 = \<lparr>label_p2 = [], op_p2 = ''ADD'', is_directive = False,
     operands_p2 = [\<lparr>kind_p2 = KReg, otext_p2 = ''R1''\<rparr>, \<lparr>kind_p2 = KImm, otext_p2 = ''0x10''\<rparr>]\<rparr>"

definition ex_nop_p2 :: Line_p2 where
  "ex_nop_p2 = \<lparr>label_p2 = [], op_p2 = ''NOP'', is_directive = False, operands_p2 = []\<rparr>"

definition ex_halt_p2 :: Line_p2 where
  "ex_halt_p2 = \<lparr>label_p2 = [], op_p2 = ''HALT'', is_directive = False, operands_p2 = []\<rparr>"

definition ex_undef :: string where
  "ex_undef = ''FOO'' @ nl @ ''JMP nowhere''"

definition ex_undef_lines :: "ParsedLine list" where
  "ex_undef_lines =
     [\<lparr>line_no = 1, label = [], lkind = Instruction, op = ''FOO'', operands = []\<rparr>,
      \<lparr>line_no = 2, label = [], lkind = Instruction, op = ''JMP'',
        operands = [\<lparr>kind = LabelRef, otext = ''nowhere''\<rparr>]\<rparr>]"

definition ex_jz_undef :: string where
  "ex_jz_undef = ''jz nowhere''"

definition ex_jz_undef_lines :: "ParsedLine list" where
  "ex_jz_undef_lines =
     [\<lparr>line_no = 1, label = [], lkind = Instruction, op = ''jz'',
        operands = [\<lparr>kind = LabelRef, otext = ''nowhere''\<rparr>]\<rparr>]"

definition ex_word_lines :: "ParsedLine list" where
  "ex_word_lines =
     [\<lparr>line_no = 1, label = [], lkind = Directive, op = ''.word'',
        operands = [\<lparr>kind = LabelRef, otext = ''y''\<rparr>]\<rparr>,
      \<lparr>line_no = 2, label = ''y'', lkind = Instruction, op = ''NOP'', operands = []\<rparr>]"

definition ex_word_p2 :: string where
  "ex_word_p2 = ''.word y'' @ nl @ ''y: nop''"

definition ex_word_lines_p2 :: "Line_p2 list" where
  "ex_word_lines_p2 =
     [\<lparr>label_p2 = [], op_p2 = ''.WORD'', is_directive = True,
        operands_p2 = [\<lparr>kind_p2 = KLabel, otext_p2 = ''Y''\<rparr>]\<rparr>,
      \<lparr>label_p2 = ''Y'', op_p2 = ''NOP'', is_directive = False, operands_p2 = []\<rparr>]"

definition ex_word_undef_p2 :: string where
  "ex_word_undef_p2 = ''.word nowhere''"

definition ex_word_undef_lines_p2 :: "Line_p2 list" where
  "ex_word_undef_lines_p2 =
     [\<lparr>label_p2 = [], op_p2 = ''.WORD'', is_directive = True,
        operands_p2 = [\<lparr>kind_p2 = KLabel, otext_p2 = ''NOWHERE''\<rparr>]\<rparr>]"

definition ex_jump_undef_p2 :: string where
  "ex_jump_undef_p2 = ''nop'' @ nl @ ''jmp nowhere''"

definition ex_jump_undef_lines_p2 :: "Line_p2 list" where
  "ex_jump_undef_lines_p2 =
     [\<lparr>label_p2 = [], op_p2 = ''NOP'', is_directive = False, operands_p2 = []\<rparr>,
      \<lparr>label_p2 = [], op_p2 = ''JMP'', is_directive = False,
        operands_p2 = [\<lparr>kind_p2 = KLabel, otext_p2 = ''NOWHERE''\<rparr>]\<rparr>]"

definition ex_jumps_lines :: "ParsedLine list" where
  "ex_jumps_lines =
     [\<lparr>line_no = 1, label = ''a'', lkind = Instruction, op = ''JMP'',
        operands = [\<lparr>kind = LabelRef, otext = ''b''\<rparr>]\<rparr>,
      \<lparr>line_no = 2, label = ''b'', lkind = Instruction, op = ''jz'',
        operands = [\<lparr>kind = LabelRef, otext = ''a''\<rparr>]\<rparr>]"

definition ex_jumps_ctx :: AsmContext where
  "ex_jumps_ctx = \<lparr>current_addr_words = 0x8004,
     symbols = [(''a'', 0x8000), (''b'', 0x8002)], line_addr = [0x8000, 0x8002]\<rparr>"

definition ex_word_ctx :: AsmContext where
  "ex_word_ctx = \<lparr>current_addr_words = 0x8002,
     symbols = [(''y'', 0x8001)], line_addr = [0x8000, 0x8001]\<rparr>"

definition ex_jz_undef_ctx :: AsmContext where
  "ex_jz_undef_ctx = \<lparr>current_addr_words = 0x8002, symbols = [], line_addr = [0x8000]\<rparr>"

definition ex_unsup_late :: string where
  "ex_unsup_late = ''ADD R0'' @ nl @ ''FOO''"

definition ex_unsup_late_lines :: "ParsedLine list" where
  "ex_unsup_late_lines =
     [\<lparr>line_no = 1, label = [], lkind = Instruction, op = ''ADD'',
        operands = [\<lparr>kind = Reg, otext = ''R0''\<rparr>]\<rparr>,
      \<lparr>line_no = 2, label = [], lkind = Instruction, op = ''FOO'', operands = []\<rparr>]"

definition ex_unsup_late_lines_p2 :: "Line_p2 list" where
  "ex_unsup_late_lines_p2 =
     [\<lparr>label_p2 = [], op_p2 = ''ADD'', is_directive = False,
        operands_p2 = [\<lparr>kind_p2 = KReg, otext_p2 = ''R0''\<rparr>]\<rparr>,
      \<lparr>label_p2 = [], op_p2 = ''FOO'', is_directive = False, operands_p2 = []\<rparr>]"

definition ex_unsup_dup :: string where
  "ex_unsup_dup = ''a: NOP'' @ nl @ ''a: FOO''"

definition ex_unsup :: string where
  "ex_unsup = ''NOP'' @ nl @ ''x: foo R1''"

definition ex_unsup_lines :: "ParsedLine list" where
  "ex_unsup_lines =
     [\<lparr>line_no = 1, label = [], lkind = Instruction, op = ''NOP'', operands = []\<rparr>,
      \<lparr>line_no = 2, label = ''x'', lkind = Instruction, op = ''foo'',
        operands = [\<lparr>kind = Reg, otext = ''R1''\<rparr>]\<rparr>]"

definition ex_unsup_ctx :: AsmContext where
  "ex_unsup_ctx = \<lparr>current_addr_words = 0x8001,
     symbols = [(''x'', 0x8001)], line_addr = [0x8000, 0x8001]\<rparr>"

definition ex_unsup_lines_p2 :: "Line_p2 list" where
  "ex_unsup_lines_p2 =
     [\<lparr>label_p2 = [], op_p2 = ''NOP'', is_directive = False, operands_p2 = []\<rparr>,
      \<lparr>label_p2 = ''X'', op_p2 = ''FOO'', is_directive = False,
        operands_p2 = [\<lparr>kind_p2 = KReg, otext_p2 = ''R1''\<rparr>]\<rparr>]"

definition ex_dup_lex :: string where
  "ex_dup_lex = ''a: NOP'' @ nl @ ''a: NOP'' @ nl @ ''@''"

definition ex_dup_org :: string where
  "ex_dup_org = ''x: NOP'' @ nl @ ''.org R1'' @ nl @ ''x: NOP''"

definition ex_dup_org_lines_p2 :: "Line_p2 list" where
  "ex_dup_org_lines_p2 =
     [\<lparr>label_p2 = ''X'', op_p2 = ''NOP'', is_directive = False, operands_p2 = []\<rparr>,
      \<lparr>label_p2 = [], op_p2 = ''.ORG'', is_directive = True,
        operands_p2 = [\<lparr>kind_p2 = KReg, otext_p2 = ''R1''\<rparr>]\<rparr>,
      \<lparr>label_p2 = ''X'', op_p2 = ''NOP'', is_directive = False, operands_p2 = []\<rparr>]"

definition ex_dup :: string where
  "ex_dup = ''x: NOP'' @ nl @ ''HALT'' @ nl @ ''x: NOP''"

definition ex_dup_lines :: "ParsedLine list" where
  "ex_dup_lines =
     [\<lparr>line_no = 1, label = ''x'', lkind = Instruction, op = ''NOP'', operands = []\<rparr>,
      \<lparr>line_no = 2, label = [], lkind = Instruction, op = ''HALT'', operands = []\<rparr>,
      \<lparr>line_no = 3, label = ''x'', lkind = Instruction, op = ''NOP'', operands = []\<rparr>]"

definition ex_dup_lines_p2 :: "Line_p2 list" where
  "ex_dup_lines_p2 =
     [\<lparr>label_p2 = ''X'', op_p2 = ''NOP'', is_directive = False, operands_p2 = []\<rparr>,
      \<lparr>label_p2 = [], op_p2 = ''HALT'', is_directive = False, operands_p2 = []\<rparr>,
      \<lparr>label_p2 = ''X'', op_p2 = ''NOP'', is_directive = False, operands_p2 = []\<rparr>]"

definition ex_prog :: string where
  "ex_prog = ''start: ADD R0, #1'' @ nl @ '' JMP done ; forward'' @ nl @
             ''  jz start'' @ nl @ ''done: HALT'' @ nl"

definition ex_jumps :: string where
  "ex_jumps = ''a: JMP b'' @ nl @ ''b: jz a''"

definition ex_jumps_words :: "u16 list" where
  "ex_jumps_words = [27904, 0, 29952, 65532]"

definition ex_prog_bytes :: "u8 list" where
  "ex_prog_bytes = [0, 41, 1, 0, 0, 109, 2, 0, 0, 117, 250, 255, 0, 8]"

definition ex_mnemonic_tok :: Token where
  "ex_mnemonic_tok = \<lparr>ttype = Identifier, ttext = ''ADD'', tline = 1, tcolumn = 0\<rparr>"

definition ex_ops_commas :: "Token list" where
  "ex_ops_commas =
     [\<lparr>ttype = Comma, ttext = '','', tline = 1, tcolumn = 4\<rparr>,
      \<lparr>ttype = Register, ttext = ''R0'', tline = 1, tcolumn = 5\<rparr>,
      \<lparr>ttype = Comma, ttext = '','', tline = 1, tcolumn = 7\<rparr>,
      \<lparr>ttype = Comma, ttext = '','', tline = 1, tcolumn = 8\<rparr>,
      \<lparr>ttype = Hash, ttext = ''#'', tline = 1, tcolumn = 10\<rparr>,
      \<lparr>ttype = Number, ttext = ''5'', tline = 1, tcolumn = 11\<rparr>,
      \<lparr>ttype = Comma, ttext = '','', tline = 1, tcolumn = 12\<rparr>]"

definition ex_ops_plain :: "Token list" where
  "ex_ops_plain =
     [\<lparr>ttype = Register, ttext = ''R0'', tline = 1, tcolumn = 4\<rparr>,
      \<lparr>ttype = Hash, ttext = ''#'', tline = 1, tcolumn = 7\<rparr>,
      \<lparr>ttype = Number, ttext = ''5'', tline = 1, tcolumn = 8\<rparr>]"

definition ex_label_toks :: "Token list" where
  "ex_label_toks =
     [\<lparr>ttype = Identifier, ttext = ''L'', tline = 1, tcolumn = 0\<rparr>,
      \<lparr>ttype = Colon, ttext = '':'', tline = 1, tcolumn = 1\<rparr>]"

definition ex_add_r0_imm5 :: "Operand list" where
  "ex_add_r0_imm5 = [\<lparr>kind = Reg, otext = ''R0''\<rparr>, \<lparr>kind = Imm, otext = ''5''\<rparr>]"

definition ex_mnemonic_tok_p2 :: Token_p2 where
  "ex_mnemonic_tok_p2 = \<lparr>ttype_p2 = TIdentifier, ttext_p2 = ''ADD''\<rparr>"

definition ex_ops_commas_p2 :: "Token_p2 list" where
  "ex_ops_commas_p2 =
     [\<lparr>ttype_p2 = TComma, ttext_p2 = '',''\<rparr>,
      \<lparr>ttype_p2 = TRegister, ttext_p2 = ''R0''\<rparr>,
      \<lparr>ttype_p2 = TComma, ttext_p2 = '',''\<rparr>,
      \<lparr>ttype_p2 = TComma, ttext_p2 = '',''\<rparr>,
      \<lparr>ttype_p2 = THash, ttext_p2 = ''#''\<rparr>,
      \<lparr>ttype_p2 = TNumber, ttext_p2 = ''5''\<rparr>,
      \<lparr>ttype_p2 = TComma, ttext_p2 = '',''\<rparr>]"

definition ex_ops_plain_p2 :: "Token_p2 list" where
  "ex_ops_plain_p2 =
     [\<lparr>ttype_p2 = TRegister, ttext_p2 = ''R0''\<rparr>,
      \<lparr>ttype_p2 = THash, ttext_p2 = ''#''\<rparr>,
      \<lparr>ttype_p2 = TNumber, ttext_p2 = ''5''\<rparr>]"

definition ex_label_toks_p2 :: "Token_p2 list" where
  "ex_label_toks_p2 =
     [\<lparr>ttype_p2 = TIdentifier, ttext_p2 = ''L''\<rparr>, \<lparr>ttype_p2 = TColon, ttext_p2 = '':''\<rparr>]"

definition ex_add_r0_imm5_p2 :: "Operand_p2 list" where
  "ex_add_r0_imm5_p2 =
     [\<lparr>kind_p2 = KReg, otext_p2 = ''R0''\<rparr>, \<lparr>kind_p2 = KImm, otext_p2 = ''5''\<rparr>]"

definition ex_org_label :: string where
  "ex_org_label = ''x: NOP'' @ nl @ ''.org x''"









section \<open>Basic facts\<close>

lemma bind_simps [simp]: "bind (Inl e) f = Inl e" "bind (Inr x) f = f x"
  by (simp_all add: bind_def)

lemma bind_eq_Inr: "bind r f = Inr y \<longleftrightarrow> (\<exists>x. r = Inr x \<and> f x = Inr y)"
  by (cases r) simp_all

lemma bind_eq_Inl: "bind r f = Inl e \<longleftrightarrow> r = Inl e \<or> (\<exists>x. r = Inr x \<and> f x = Inl e)"
  by (cases r) simp_all

lemma push_front_simps [simp]:
  "push_front x (Inl e) = Inl e" "push_front x (Inr xs) = Inr (x # xs)"
  by (simp_all add: push_front_def)

lemma push_front_eq_Inr: "push_front x r = Inr ys \<longleftrightarrow> (\<exists>xs. r = Inr xs \<and> ys = x # xs)"
  by (cases r) auto

lemma push_front_eq_Inl: "push_front x r = Inl e \<longleftrightarrow> r = Inl e"
  by (cases r) auto

lemma of_char_toupper:
  "(of_char (toupper c) :: nat) = (if islower c then of_char c - 32 else of_char c)"
proof -
  have "(of_char c - 32 :: nat) mod 256 = of_char c - 32"
    using nat_of_char_less_256 [of c] by (intro mod_less) arith
  then show ?thesis by (simp add: toupper_def)
qed

lemma not_islower_toupper [simp]: "\<not> islower (toupper c)"
  by (auto simp add: islower_def of_char_toupper)

lemma toupper_idem [simp]: "toupper (toupper c) = toupper c"
  using not_islower_toupper [of c] by (simp add: toupper_def [of "toupper c"])

lemma toupper_not_lower: "\<not> islower c \<Longrightarrow> toupper c = c"
  by (simp add: toupper_def)

lemma toupper_code [code]:
  "toupper (Char b0 b1 b2 b3 b4 b5 b6 b7) =
     (if islower (Char b0 b1 b2 b3 b4 b5 b6 b7) then Char b0 b1 b2 b3 b4 False b6 b7
      else Char b0 b1 b2 b3 b4 b5 b6 b7)"
  by (cases b0; cases b1; cases b2; cases b3; cases b4; cases b5; cases b6; cases b7)
     (simp_all add: toupper_def islower_def char_of_def bit_Suc_0_iff)

lemma iequals_iff: "iequals a b \<longleftrightarrow> map toupper a = map toupper b"
  by (induction a b rule: iequals.induct) auto

lemma toupper_chars [simp]:
  "toupper CHR ''A'' = CHR ''A''"
  "toupper CHR ''B'' = CHR ''B''"
  "toupper CHR ''C'' = CHR ''C''"
  "toupper CHR ''D'' = CHR ''D''"
  "toupper CHR ''E'' = CHR ''E''"
  "toupper CHR ''F'' = CHR ''F''"
  "toupper CHR ''G'' = CHR ''G''"
  "toupper CHR ''H'' = CHR ''H''"
  "toupper CHR ''I'' = CHR ''I''"
  "toupper CHR ''J'' = CHR ''J''"
  "toupper CHR ''K'' = CHR ''K''"
  "toupper CHR ''L'' = CHR ''L''"
  "toupper CHR ''M'' = CHR ''M''"
  "toupper CHR ''N'' = CHR ''N''"
  "toupper CHR ''O'' = CHR ''O''"
  "toupper CHR ''P'' = CHR ''P''"
  "toupper CHR ''Q'' = CHR ''Q''"
  "toupper CHR ''R'' = CHR ''R''"
  "toupper CHR ''S'' = CHR ''S''"
  "toupper CHR ''T'' = CHR ''T''"
  "toupper CHR ''U'' = CHR ''U''"
  "toupper CHR ''V'' = CHR ''V''"
  "toupper CHR ''W'' = CHR ''W''"
  "toupper CHR ''X'' = CHR ''X''"
  "toupper CHR ''Y'' = CHR ''Y''"
  "toupper CHR ''Z'' = CHR ''Z''"
  "toupper CHR ''0'' = CHR ''0''"
  "toupper CHR ''1'' = CHR ''1''"
  "toupper CHR ''2'' = CHR ''2''"
  "toupper CHR ''3'' = CHR ''3''"
  "toupper CHR ''4'' = CHR ''4''"
  "toupper CHR ''5'' = CHR ''5''"
  "toupper CHR ''6'' = CHR ''6''"
  "toupper CHR ''7'' = CHR ''7''"
  "toupper CHR ''8'' = CHR ''8''"
  "toupper CHR ''9'' = CHR ''9''"
  "toupper CHR ''.'' = CHR ''.''"
  "toupper CHR ''_'' = CHR ''_''"
  "toupper CHR ''o'' = CHR ''O''"
  "toupper CHR ''r'' = CHR ''R''"
  "toupper CHR ''g'' = CHR ''G''"
  "toupper CHR ''w'' = CHR ''W''"
  "toupper CHR ''d'' = CHR ''D''"
  by code_simp+

lemma find_instr_eq:
  "find_instr u =
     (if map toupper u = ''NOP'' then Some (''NOP'', 0)
      else if map toupper u = ''HALT'' then Some (''HALT'', 1)
      else if map toupper u = ''ADD'' then Some (''ADD'', 5)
      else if map toupper u = ''JMP'' then Some (''JMP'', 13)
      else if map toupper u = ''JZ'' then Some (''JZ'', 14)
      else None)"
  by (simp add: find_instr_def INSTR_TABLE_def iequals_iff)

lemma pack_bytes_length: "length (pack_bytes ws) = 2 * length ws"
  by (induction ws) simp_all

lemma pack_bytes_nth:
  "k < length ws \<Longrightarrow>
     pack_bytes ws ! (2 * k) = ucast (ws ! k AND 0xFF) \<and>
     pack_bytes ws ! (2 * k + 1) = ucast (drop_bit 8 (ws ! k) AND 0xFF)"
proof (induction ws arbitrary: k)
  case Nil
  then show ?case by simp
next
  case (Cons w ws)
  show ?case
  proof (cases k)
    case 0
    then show ?thesis by simp
  next
    case (Suc j)
    with Cons.prems have "j < length ws" by simp
    from Cons.IH[OF this] Suc show ?thesis by simp
  qed
qed

lemma low_byte_unat: "unat (ucast (w AND 0xFF :: u16) :: u8) = unat w mod 256"
proof -
  have a: "w AND 0xFF = take_bit 8 w"
    using take_bit_eq_mask [of 8 w] by (simp add: mask_eq_exp_minus_1)
  have "unat (ucast (take_bit 8 w) :: u8) = take_bit 8 (unat w)"
    by (simp add: unsigned_ucast_eq unsigned_take_bit_eq)
  also have "\<dots> = unat w mod 256"
    by (simp add: take_bit_eq_mod)
  finally show ?thesis
    by (simp only: a)
qed

lemma high_byte_unat: "unat (ucast (drop_bit 8 w AND 0xFF :: u16) :: u8) = unat w div 256"
proof -
  have a: "drop_bit 8 w AND 0xFF = take_bit 8 (drop_bit 8 w)"
    using take_bit_eq_mask [of 8 "drop_bit 8 w"] by (simp add: mask_eq_exp_minus_1)
  have b: "unat w div 256 < 256"
    using unsigned_less [of w, where ?'a = nat] by simp
  have "unat (ucast (take_bit 8 (drop_bit 8 w)) :: u8) = take_bit 8 (drop_bit 8 (unat w))"
    by (simp add: unsigned_ucast_eq unsigned_take_bit_eq unat_drop_bit_eq)
  also have "\<dots> = unat w div 256"
    using b by (simp add: take_bit_eq_mod drop_bit_eq_div)
  finally show ?thesis
    by (simp only: a)
qed

lemma toupper_comp_idem [simp]: "toupper \<circ> toupper = toupper"
  by (rule ext) simp

lemma enc_NOP_HALT:
  assumes "lkind pl = Instruction"
    and "map toupper (op pl) = ''NOP'' \<or> map toupper (op pl) = ''HALT''"
  shows "encode_line ctx a pl =
           Inr [make_instr_word (if map toupper (op pl) = ''NOP'' then 0 else 1) 0 0 0]"
  using assms
  by (auto simp add: encode_line_def find_instr_eq iequals_iff upper_str_def)

lemma enc_ADD:
  assumes "lkind pl = Instruction" and "map toupper (op pl) = ''ADD''"
  shows "encode_line ctx a pl =
     (if length (operands pl) \<noteq> 2
      then Inl (runtime_error ''ADD expects two operands'')
      else if kind (operands pl ! 0) \<noteq> Reg
      then Inl (runtime_error ''ADD first operand must be register'')
      else bind (reg_id_from_name (otext (operands pl ! 0))) (\<lambda>rd.
        if kind (operands pl ! 1) = Reg then
          bind (reg_id_from_name (otext (operands pl ! 1))) (\<lambda>rs.
            Inr [make_instr_word 5 0 rd rs])
        else if kind (operands pl ! 1) = Imm then
          bind (parse_number16 (otext (operands pl ! 1))) (\<lambda>imm.
            Inr [make_instr_word 5 1 rd 0, imm])
        else Inl (runtime_error ''Unsupported ADD operand'')))"
  using assms
  by (simp add: encode_line_def find_instr_eq iequals_iff upper_str_def)

lemma enc_JUMP:
  assumes "lkind pl = Instruction"
    and "map toupper (op pl) = ''JMP'' \<or> map toupper (op pl) = ''JZ''"
  shows "encode_line ctx a pl =
     (if length (operands pl) \<noteq> 1
      then Inl (runtime_error ''Jump expects one operand'')
      else bind
        (if kind (operands pl ! 0) = LabelRef then
           lookup_symbol ctx (otext (operands pl ! 0))
         else if kind (operands pl ! 0) = RawNumber then
           parse_number16 (otext (operands pl ! 0))
         else Inl (runtime_error ''Unsupported jump operand''))
        (\<lambda>target.
           Inr [make_instr_word (if map toupper (op pl) = ''JMP'' then 13 else 14) 5 0 0,
                word_of_int ((uint target - (uint a + 2)) AND 0xFFFF)]))"
  using assms
  by (auto simp add: encode_line_def find_instr_eq iequals_iff upper_str_def Let_def)

lemma enc_unknown:
  assumes "lkind pl = Instruction" and "\<not> has_instr (upper_str (op pl))"
  shows "encode_line ctx a pl = Inl (runtime_error ''Unknown instruction'')"
proof -
  from assms(2) have "find_instr (upper_str (op pl)) = None"
    by (cases "find_instr (upper_str (op pl))") (auto simp: has_instr_def)
  with assms(1) show ?thesis
    by (simp add: encode_line_def Let_def)
qed

lemma has_instr_iff:
  "has_instr (upper_str s) \<longleftrightarrow> map toupper s \<in> {''NOP'', ''HALT'', ''ADD'', ''JMP'', ''JZ''}"
  by (simp add: has_instr_def find_instr_eq upper_str_def)

lemma enc_empty: "lkind pl = Empty \<Longrightarrow> encode_line ctx a pl = Inr []"
  by (simp add: encode_line_def)


lemma opcode_of_p2_eq:
  "opcode_of_p2 s =
     (if map toupper s = ''NOP'' then Inr 0
      else if map toupper s = ''HALT'' then Inr 1
      else if map toupper s = ''ADD'' then Inr 5
      else if map toupper s = ''JMP'' then Inr 13
      else if map toupper s = ''JZ'' then Inr 14
      else Inl (runtime_error (''Unsupported instruction: '' @ s)))"
  by (simp add: opcode_of_p2_def iequals_iff)

lemma enc_p2_NOP_HALT:
  assumes "op_p2 l \<noteq> []" and "\<not> is_directive l"
    and "map toupper (op_p2 l) = ''NOP'' \<or> map toupper (op_p2 l) = ''HALT''"
  shows "encode_line_p2 syms a l =
           Inr [make_instr_word (if map toupper (op_p2 l) = ''NOP'' then 0 else 1) 0 0 0]"
  using assms by (auto simp add: encode_line_p2_def opcode_of_p2_eq)

lemma enc_p2_ADD:
  assumes "op_p2 l \<noteq> []" and "\<not> is_directive l" and "map toupper (op_p2 l) = ''ADD''"
  shows "encode_line_p2 syms a l =
     (if length (operands_p2 l) \<noteq> 2
      then Inl (runtime_error ''ADD expects two operands'')
      else if kind_p2 (operands_p2 l ! 0) \<noteq> KReg
      then Inl (runtime_error ''ADD first operand must be reg'')
      else bind (reg_id_from_name_p2 (otext_p2 (operands_p2 l ! 0))) (\<lambda>rd.
        if kind_p2 (operands_p2 l ! 1) = KReg then
          bind (reg_id_from_name_p2 (otext_p2 (operands_p2 l ! 1))) (\<lambda>rs.
            Inr [make_instr_word 5 0 rd rs])
        else if kind_p2 (operands_p2 l ! 1) = KImm then
          bind (parse_number16_p2 (otext_p2 (operands_p2 l ! 1))) (\<lambda>imm.
            Inr [make_instr_word 5 1 rd 0, imm])
        else Inl (runtime_error ''Unsupported ADD second operand'')))"
  using assms by (simp add: encode_line_p2_def opcode_of_p2_eq)

lemma enc_p2_JUMP:
  assumes "op_p2 l \<noteq> []" and "\<not> is_directive l"
    and "map toupper (op_p2 l) = ''JMP'' \<or> map toupper (op_p2 l) = ''JZ''"
  shows "encode_line_p2 syms a l =
     (if length (operands_p2 l) \<noteq> 1
      then Inl (runtime_error ''Jump expects one operand'')
      else bind
        (if kind_p2 (operands_p2 l ! 0) = KLabel then
           (case syms (otext_p2 (operands_p2 l ! 0)) of
              None \<Rightarrow> Inl (runtime_error
                        (''Unknown label in jump: '' @ otext_p2 (operands_p2 l ! 0)))
            | Some v \<Rightarrow> Inr v)
         else if kind_p2 (operands_p2 l ! 0) = KNumber then
           parse_number16_p2 (otext_p2 (operands_p2 l ! 0))
         else Inl (runtime_error ''Unsupported jump operand''))
        (\<lambda>target.
           Inr [make_instr_word (if map toupper (op_p2 l) = ''JMP'' then 13 else 14) 5 0 0,
                word_of_int ((uint target - (uint a + 2)) AND 0xFFFF)]))"
  using assms by (auto simp add: encode_line_p2_def opcode_of_p2_eq Let_def)

lemma enc_p2_unknown:
  assumes "op_p2 l \<noteq> []" and "\<not> is_directive l" and "opcode_of_p2 (op_p2 l) = Inl e"
  shows "encode_line_p2 syms a l = Inl (runtime_error (''Unsupported instruction: '' @ op_p2 l))"
  using assms by (auto simp add: encode_line_p2_def opcode_of_p2_eq split: if_splits)

lemma opcode_of_p2_Inr_iff:
  "(\<exists>c. opcode_of_p2 s = Inr c) \<longleftrightarrow>
     map toupper s \<in> {''NOP'', ''HALT'', ''ADD'', ''JMP'', ''JZ''}"
  by (auto simp add: opcode_of_p2_eq)

lemma enc_p2_empty: "op_p2 l = [] \<Longrightarrow> encode_line_p2 syms a l = Inr []"
  by (simp add: encode_line_p2_def)

lemma and_mask_numerals:
  fixes x :: "'a::len word"
  shows "x AND 3 = take_bit 2 x" "x AND 7 = take_bit 3 x" "x AND 31 = take_bit 5 x"
  using take_bit_eq_mask[of 2 x] take_bit_eq_mask[of 3 x] take_bit_eq_mask[of 5 x]
  by (simp_all add: mask_eq_exp_minus_1)

lemma and_mask_numerals_int:
  fixes x :: int
  shows "x AND 7 = take_bit 3 x" "x AND 31 = take_bit 5 x"
  using take_bit_eq_mask[of 3 x] take_bit_eq_mask[of 5 x]
  by (simp_all add: mask_eq_exp_minus_1)

lemma miw_formula:
  "make_instr_word opcode mode rd rs =
     push_bit 11 (ucast (opcode AND 0x1F)) OR push_bit 8 (ucast (mode AND 0x07))
       OR push_bit 5 (ucast (rd AND 0x07)) OR push_bit 2 (ucast (rs AND 0x07))"
  by (simp add: make_instr_word_def Let_def ac_simps)

lemma field_bits:
  fixes x :: u8
  shows "k + m \<le> 16 \<Longrightarrow> m \<le> 8 \<Longrightarrow>
    bit (push_bit k (ucast (take_bit m x)) :: u16) n \<longleftrightarrow> k \<le> n \<and> n < k + m \<and> bit x (n - k)"
  by (auto simp add: bit_simps dest: bit_imp_le_length)

lemma field_bits_int:
  fixes x :: u8
  shows "bit (push_bit k (take_bit m (uint x))) n \<longleftrightarrow> k \<le> n \<and> n < k + m \<and> bit x (n - k)"
  by (auto simp add: bit_simps)

lemma miw_bits:
  "bit (make_instr_word opcode mode rd rs) n \<longleftrightarrow>
     (2 \<le> n \<and> n < 5 \<and> bit rs (n - 2)) \<or> (5 \<le> n \<and> n < 8 \<and> bit rd (n - 5)) \<or>
     (8 \<le> n \<and> n < 11 \<and> bit mode (n - 8)) \<or> (11 \<le> n \<and> n < 16 \<and> bit opcode (n - 11))"
  unfolding miw_formula and_mask_numerals bit_or_iff
  by (simp add: field_bits) blast

lemma miw_low: "make_instr_word opcode mode rd rs AND 3 = 0"
  unfolding and_mask_numerals
  by (rule bit_eqI) (simp add: bit_take_bit_iff miw_bits)

lemma miw_uint_or:
  "uint (make_instr_word opcode mode rd rs) =
     push_bit 11 (uint opcode AND 0x1F) OR push_bit 8 (uint mode AND 0x07)
       OR push_bit 5 (uint rd AND 0x07) OR push_bit 2 (uint rs AND 0x07)"
  unfolding and_mask_numerals_int
  by (rule bit_eqI) (auto simp add: bit_or_iff field_bits_int bit_uint_iff miw_bits)

lemma is_instr_iff: "is_instr pl m \<longleftrightarrow> lkind pl = Instruction \<and> map toupper (op pl) = map toupper m"
  by (simp add: is_instr_def iequals_iff upper_str_def)

lemma is_instr_p2_iff:
  "is_instr_p2 l m \<longleftrightarrow> op_p2 l \<noteq> [] \<and> \<not> is_directive l \<and> map toupper (op_p2 l) = map toupper m"
  by (simp add: is_instr_p2_def iequals_iff)

lemma enc_first_word:
  assumes "lkind pl = Instruction" and "encode_line ctx a pl = Inr ws"
  shows "\<exists>info m rd rs. find_instr (upper_str (op pl)) = Some info \<and> ws \<noteq> [] \<and>
           hd ws = make_instr_word (snd info) m rd rs"
proof (cases "has_instr (upper_str (op pl))")
  case False
  with assms show ?thesis by (simp add: enc_unknown)
next
  case True
  then consider "map toupper (op pl) = ''NOP'' \<or> map toupper (op pl) = ''HALT''"
    | "map toupper (op pl) = ''ADD''"
    | "map toupper (op pl) = ''JMP'' \<or> map toupper (op pl) = ''JZ''"
    by (auto simp add: has_instr_iff)
  then show ?thesis
  proof cases
    case 1
    with assms show ?thesis
      by (fastforce simp add: enc_NOP_HALT find_instr_eq upper_str_def)
  next
    case 2
    with assms show ?thesis
      by (fastforce simp add: enc_ADD find_instr_eq upper_str_def bind_eq_Inr split: if_splits)
  next
    case 3
    with assms show ?thesis
      by (fastforce simp add: enc_JUMP find_instr_eq upper_str_def bind_eq_Inr split: if_splits)
  qed
qed

lemma enc_p2_first_word:
  assumes "op_p2 l \<noteq> []" and "\<not> is_directive l" and "encode_line_p2 syms a l = Inr ws"
  shows "\<exists>opcode m rd rs. opcode_of_p2 (op_p2 l) = Inr opcode \<and> ws \<noteq> [] \<and>
           hd ws = make_instr_word opcode m rd rs"
proof (cases "\<exists>c. opcode_of_p2 (op_p2 l) = Inr c")
  case False
  then obtain e where "opcode_of_p2 (op_p2 l) = Inl e"
    by (cases "opcode_of_p2 (op_p2 l)") auto
  with assms show ?thesis by (simp add: enc_p2_unknown)
next
  case True
  then consider "map toupper (op_p2 l) = ''NOP'' \<or> map toupper (op_p2 l) = ''HALT''"
    | "map toupper (op_p2 l) = ''ADD''"
    | "map toupper (op_p2 l) = ''JMP'' \<or> map toupper (op_p2 l) = ''JZ''"
    unfolding opcode_of_p2_Inr_iff by auto
  then show ?thesis
  proof cases
    case 1
    with assms show ?thesis
      by (fastforce simp add: enc_p2_NOP_HALT opcode_of_p2_eq)
  next
    case 2
    with assms show ?thesis
      by (fastforce simp add: enc_p2_ADD opcode_of_p2_eq bind_eq_Inr split: if_splits)
  next
    case 3
    with assms show ?thesis
      by (fastforce simp add: enc_p2_JUMP opcode_of_p2_eq bind_eq_Inr split: if_splits)
  qed
qed

section \<open>Encoding of instruction words and bytes\<close>

lemma instr_word_cond:
  "uint (make_instr_word opcode mode rd rs) =
      push_bit 11 (uint opcode AND 0x1F) OR push_bit 8 (uint mode AND 0x07)
        OR push_bit 5 (uint rd AND 0x07) OR push_bit 2 (uint rs AND 0x07)
   \<and> make_instr_word opcode mode rd rs AND 3 = 0
   \<and> (lkind pl = Instruction \<and> encode_line ctx a pl = Inr ws \<longrightarrow>
        (\<exists>info m d s. find_instr (upper_str (op pl)) = Some info \<and> ws \<noteq> [] \<and>
           hd ws = make_instr_word (snd info) m d s) \<and>
        (is_instr pl ''ADD'' \<and> kind (operands pl ! 1) = Imm \<longrightarrow>
           (\<exists>d imm. reg_id_from_name (otext (operands pl ! 0)) = Inr d \<and>
              parse_number16 (otext (operands pl ! 1)) = Inr imm \<and>
              ws = [make_instr_word 5 1 d 0, imm])) \<and>
        (is_instr pl ''ADD'' \<and> kind (operands pl ! 1) = Reg \<longrightarrow>
           (\<exists>d s. reg_id_from_name (otext (operands pl ! 0)) = Inr d \<and>
              reg_id_from_name (otext (operands pl ! 1)) = Inr s \<and>
              ws = [make_instr_word 5 0 d s])) \<and>
        (is_instr pl ''NOP'' \<longrightarrow> ws = [make_instr_word 0 0 0 0]) \<and>
        (is_instr pl ''HALT'' \<longrightarrow> ws = [make_instr_word 1 0 0 0]))
   \<and> (op_p2 l \<noteq> [] \<and> \<not> is_directive l \<and> encode_line_p2 syms a' l = Inr ws' \<longrightarrow>
        (\<exists>c m d s. opcode_of_p2 (op_p2 l) = Inr c \<and> ws' \<noteq> [] \<and>
           hd ws' = make_instr_word c m d s) \<and>
        (is_instr_p2 l ''ADD'' \<and> kind_p2 (operands_p2 l ! 1) = KImm \<longrightarrow>
           (\<exists>d imm. reg_id_from_name_p2 (otext_p2 (operands_p2 l ! 0)) = Inr d \<and>
              parse_number16_p2 (otext_p2 (operands_p2 l ! 1)) = Inr imm \<and>
              ws' = [make_instr_word 5 1 d 0, imm])) \<and>
        (is_instr_p2 l ''ADD'' \<and> kind_p2 (operands_p2 l ! 1) = KReg \<longrightarrow>
           (\<exists>d s. reg_id_from_name_p2 (otext_p2 (operands_p2 l ! 0)) = Inr d \<and>
              reg_id_from_name_p2 (otext_p2 (operands_p2 l ! 1)) = Inr s \<and>
              ws' = [make_instr_word 5 0 d s])) \<and>
        (is_instr_p2 l ''NOP'' \<longrightarrow> ws' = [make_instr_word 0 0 0 0]) \<and>
        (is_instr_p2 l ''HALT'' \<longrightarrow> ws' = [make_instr_word 1 0 0 0]))"
proof (intro conjI impI)
  show "uint (make_instr_word opcode mode rd rs) =
      push_bit 11 (uint opcode AND 0x1F) OR push_bit 8 (uint mode AND 0x07)
        OR push_bit 5 (uint rd AND 0x07) OR push_bit 2 (uint rs AND 0x07)"
    by (rule miw_uint_or)
  show "make_instr_word opcode mode rd rs AND 3 = 0"
    by (rule miw_low)
next
  assume h: "lkind pl = Instruction \<and> encode_line ctx a pl = Inr ws"
  then show "\<exists>info m d s. find_instr (upper_str (op pl)) = Some info \<and> ws \<noteq> [] \<and>
           hd ws = make_instr_word (snd info) m d s"
    using enc_first_word by blast
  {
    assume "is_instr pl ''ADD'' \<and> kind (operands pl ! 1) = Imm"
    with h show "\<exists>d imm. reg_id_from_name (otext (operands pl ! 0)) = Inr d \<and>
              parse_number16 (otext (operands pl ! 1)) = Inr imm \<and>
              ws = [make_instr_word 5 1 d 0, imm]"
      by (auto simp add: is_instr_iff enc_ADD bind_eq_Inr split: if_splits)
  next
    assume "is_instr pl ''ADD'' \<and> kind (operands pl ! 1) = Reg"
    with h show "\<exists>d s. reg_id_from_name (otext (operands pl ! 0)) = Inr d \<and>
              reg_id_from_name (otext (operands pl ! 1)) = Inr s \<and>
              ws = [make_instr_word 5 0 d s]"
      by (auto simp add: is_instr_iff enc_ADD bind_eq_Inr split: if_splits)
  next
    assume "is_instr pl ''NOP''"
    with h show "ws = [make_instr_word 0 0 0 0]"
      by (auto simp add: is_instr_iff enc_NOP_HALT)
  next
    assume "is_instr pl ''HALT''"
    with h show "ws = [make_instr_word 1 0 0 0]"
      by (auto simp add: is_instr_iff enc_NOP_HALT)
  }
next
  assume h: "op_p2 l \<noteq> [] \<and> \<not> is_directive l \<and> encode_line_p2 syms a' l = Inr ws'"
  then show "\<exists>c m d s. opcode_of_p2 (op_p2 l) = Inr c \<and> ws' \<noteq> [] \<and>
           hd ws' = make_instr_word c m d s"
    using enc_p2_first_word by blast
  {
    assume "is_instr_p2 l ''ADD'' \<and> kind_p2 (operands_p2 l ! 1) = KImm"
    with h show "\<exists>d imm. reg_id_from_name_p2 (otext_p2 (operands_p2 l ! 0)) = Inr d \<and>
              parse_number16_p2 (otext_p2 (operands_p2 l ! 1)) = Inr imm \<and>
              ws' = [make_instr_word 5 1 d 0, imm]"
      by (auto simp add: is_instr_p2_iff enc_p2_ADD bind_eq_Inr split: if_splits)
  next
    assume "is_instr_p2 l ''ADD'' \<and> kind_p2 (operands_p2 l ! 1) = KReg"
    with h show "\<exists>d s. reg_id_from_name_p2 (otext_p2 (operands_p2 l ! 0)) = Inr d \<and>
              reg_id_from_name_p2 (otext_p2 (operands_p2 l ! 1)) = Inr s \<and>
              ws' = [make_instr_word 5 0 d s]"
      by (auto simp add: is_instr_p2_iff enc_p2_ADD bind_eq_Inr split: if_splits)
  next
    assume "is_instr_p2 l ''NOP''"
    with h show "ws' = [make_instr_word 0 0 0 0]"
      by (auto simp add: is_instr_p2_iff enc_p2_NOP_HALT)
  next
    assume "is_instr_p2 l ''HALT''"
    with h show "ws' = [make_instr_word 1 0 0 0]"
      by (auto simp add: is_instr_p2_iff enc_p2_NOP_HALT)
  }
qed

lemma pack_bytes_unat:
  "k < length ws \<Longrightarrow>
     unat (pack_bytes ws ! (2 * k)) = unat (ws ! k) mod 256 \<and>
     unat (pack_bytes ws ! Suc (2 * k)) = unat (ws ! k) div 256"
proof -
  assume "k < length ws"
  from pack_bytes_nth [OF this]
  have a: "pack_bytes ws ! (2 * k) = ucast (ws ! k AND 0xFF)"
    and b: "pack_bytes ws ! Suc (2 * k) = ucast (drop_bit 8 (ws ! k) AND 0xFF)"
    by simp_all
  show ?thesis
    unfolding a b by (intro conjI low_byte_unat high_byte_unat)
qed

text \<open>
  Claim C9. When \<^verbatim>\<open>assemble\<close> succeeds, the bytes are exactly the emitted words in order,
  two bytes per word: byte \<open>2k\<close> is the low byte of word \<open>k\<close> and byte \<open>2k+1\<close> its high
  byte. Nothing precedes or follows them.
\<close>

theorem byte_image:
  "(assemble source = Inr bytes \<longrightarrow>
      (\<exists>words. assemble_words source = Inr words \<and> length bytes = 2 * length words \<and>
         (\<forall>k < length words.
            unat (bytes ! (2 * k)) = unat (words ! k) mod 256 \<and>
            unat (bytes ! (2 * k + 1)) = unat (words ! k) div 256)))
   \<and> (assemble_p2 source = Inr bytes' \<longrightarrow>
      (\<exists>words. assemble_words_p2 source = Inr words \<and> length bytes' = 2 * length words \<and>
         (\<forall>k < length words.
            unat (bytes' ! (2 * k)) = unat (words ! k) mod 256 \<and>
            unat (bytes' ! (2 * k + 1)) = unat (words ! k) div 256)))"
  by (auto simp add: assemble_def assemble_p2_def bind_eq_Inr pack_bytes_length pack_bytes_unat)


theorem byte_image_witness:
  "assemble ex_prog = Inr ex_prog_bytes \<and> assemble_p2 ex_prog = Inr ex_prog_bytes
   \<and> (\<exists>words. assemble_words ex_prog = Inr words \<and>
         length ex_prog_bytes = 2 * length words \<and>
         (\<forall>k < length words.
            unat (ex_prog_bytes ! (2 * k)) = unat (words ! k) mod 256 \<and>
            unat (ex_prog_bytes ! (2 * k + 1)) = unat (words ! k) div 256))
   \<and> (\<exists>words. assemble_words_p2 ex_prog = Inr words \<and>
         length ex_prog_bytes = 2 * length words \<and>
         (\<forall>k < length words.
            unat (ex_prog_bytes ! (2 * k)) = unat (words ! k) mod 256 \<and>
            unat (ex_prog_bytes ! (2 * k + 1)) = unat (words ! k) div 256))"
proof -
  have a: "assemble ex_prog = Inr ex_prog_bytes"
    by code_simp
  have b: "assemble_p2 ex_prog = Inr ex_prog_bytes"
    by code_simp
  from a b byte_image [of ex_prog ex_prog_bytes ex_prog_bytes]
  show ?thesis by blast
qed

text \<open>
  Claim C2. The instruction word is \<open>(opcode & 0x1F) << 11 | (mode & 7) << 8 | (rd & 7) << 5 |
  (rs & 7) << 2\<close>, read as an unsigned number, and its two lowest bits are zero. Every
  instruction line that either assembler encodes starts with such a word for the opcode of
  its mnemonic. An \<^verbatim>\<open>ADD\<close> whose second operand is an immediate emits exactly that word
  followed by the 16-bit immediate; an \<^verbatim>\<open>ADD\<close> with a register second operand, a
  \<^verbatim>\<open>NOP\<close> and a \<^verbatim>\<open>HALT\<close> emit exactly one word. These emissions are also
  stated outright: a \<^verbatim>\<open>NOP\<close> or \<^verbatim>\<open>HALT\<close> line always encodes, to the single word of
  its opcode, whatever its operands; an \<^verbatim>\<open>ADD\<close> of two registers encodes to the one
  word with mode 0, and an \<^verbatim>\<open>ADD\<close> of a register and an immediate in range to the word
  with mode 1 followed by the immediate; the register names \<^verbatim>\<open>R0\<close> to \<^verbatim>\<open>R3\<close> that the
  tokenizers produce always resolve.
\<close>


theorem instr_word_layout:
  "uint (make_instr_word opcode mode rd rs) =
      push_bit 11 (uint opcode AND 0x1F) OR push_bit 8 (uint mode AND 0x07)
        OR push_bit 5 (uint rd AND 0x07) OR push_bit 2 (uint rs AND 0x07)
   \<and> make_instr_word opcode mode rd rs AND 3 = 0
   \<and> (lkind pl = Instruction \<and> encode_line ctx a pl = Inr ws \<longrightarrow>
        (\<exists>info m d s. find_instr (upper_str (op pl)) = Some info \<and> ws \<noteq> [] \<and>
           hd ws = make_instr_word (snd info) m d s) \<and>
        (is_instr pl ''ADD'' \<and> kind (operands pl ! 1) = Imm \<longrightarrow>
           (\<exists>d imm. reg_id_from_name (otext (operands pl ! 0)) = Inr d \<and>
              parse_number16 (otext (operands pl ! 1)) = Inr imm \<and>
              ws = [make_instr_word 5 1 d 0, imm])) \<and>
        (is_instr pl ''ADD'' \<and> kind (operands pl ! 1) = Reg \<longrightarrow>
           (\<exists>d s. reg_id_from_name (otext (operands pl ! 0)) = Inr d \<and>
              reg_id_from_name (otext (operands pl ! 1)) = Inr s \<and>
              ws = [make_instr_word 5 0 d s])) \<and>
        (is_instr pl ''NOP'' \<longrightarrow> ws = [make_instr_word 0 0 0 0]) \<and>
        (is_instr pl ''HALT'' \<longrightarrow> ws = [make_instr_word 1 0 0 0]))
   \<and> (op_p2 l \<noteq> [] \<and> \<not> is_directive l \<and> encode_line_p2 syms a' l = Inr ws' \<longrightarrow>
        (\<exists>c m d s. opcode_of_p2 (op_p2 l) = Inr c \<and> ws' \<noteq> [] \<and>
           hd ws' = make_instr_word c m d s) \<and>
        (is_instr_p2 l ''ADD'' \<and> kind_p2 (operands_p2 l ! 1) = KImm \<longrightarrow>
           (\<exists>d imm. reg_id_from_name_p2 (otext_p2 (operands_p2 l ! 0)) = Inr d \<and>
              parse_number16_p2 (otext_p2 (operands_p2 l ! 1)) = Inr imm \<and>
              ws' = [make_instr_word 5 1 d 0, imm])) \<and>
        (is_instr_p2 l ''ADD'' \<and> kind_p2 (operands_p2 l ! 1) = KReg \<longrightarrow>
           (\<exists>d s. reg_id_from_name_p2 (otext_p2 (operands_p2 l ! 0)) = Inr d \<and>
              reg_id_from_name_p2 (otext_p2 (operands_p2 l ! 1)) = Inr s \<and>
              ws' = [make_instr_word 5 0 d s])) \<and>
        (is_instr_p2 l ''NOP'' \<longrightarrow> ws' = [make_instr_word 0 0 0 0]) \<and>
        (is_instr_p2 l ''HALT'' \<longrightarrow> ws' = [make_instr_word 1 0 0 0]))
   \<and> (is_instr pl ''NOP'' \<longrightarrow> encode_line ctx a pl = Inr [make_instr_word 0 0 0 0])
   \<and> (is_instr pl ''HALT'' \<longrightarrow> encode_line ctx a pl = Inr [make_instr_word 1 0 0 0])
   \<and> (is_instr pl ''ADD'' \<and> operands pl = [o1, o2] \<and> kind o1 = Reg \<and>
        reg_id_from_name (otext o1) = Inr d1 \<longrightarrow>
          (kind o2 = Reg \<and> reg_id_from_name (otext o2) = Inr s1 \<longrightarrow>
             encode_line ctx a pl = Inr [make_instr_word 5 0 d1 s1]) \<and>
          (kind o2 = Imm \<and> parse_number16 (otext o2) = Inr imm \<longrightarrow>
             encode_line ctx a pl = Inr [make_instr_word 5 1 d1 0, imm]))
   \<and> (is_instr_p2 l ''NOP'' \<longrightarrow> encode_line_p2 syms a' l = Inr [make_instr_word 0 0 0 0])
   \<and> (is_instr_p2 l ''HALT'' \<longrightarrow> encode_line_p2 syms a' l = Inr [make_instr_word 1 0 0 0])
   \<and> (is_instr_p2 l ''ADD'' \<and> operands_p2 l = [p1, p2] \<and> kind_p2 p1 = KReg \<and>
        reg_id_from_name_p2 (otext_p2 p1) = Inr d2 \<longrightarrow>
          (kind_p2 p2 = KReg \<and> reg_id_from_name_p2 (otext_p2 p2) = Inr s2 \<longrightarrow>
             encode_line_p2 syms a' l = Inr [make_instr_word 5 0 d2 s2]) \<and>
          (kind_p2 p2 = KImm \<and> parse_number16_p2 (otext_p2 p2) = Inr imm2 \<longrightarrow>
             encode_line_p2 syms a' l = Inr [make_instr_word 5 1 d2 0, imm2]))
   \<and> reg_id_from_name ''R0'' = Inr 0 \<and> reg_id_from_name ''R1'' = Inr 1
   \<and> reg_id_from_name ''R2'' = Inr 2 \<and> reg_id_from_name ''R3'' = Inr 3
   \<and> reg_id_from_name_p2 ''R0'' = Inr 0 \<and> reg_id_from_name_p2 ''R1'' = Inr 1
   \<and> reg_id_from_name_p2 ''R2'' = Inr 2 \<and> reg_id_from_name_p2 ''R3'' = Inr 3"
proof -
  note c = instr_word_cond [of opcode mode rd rs pl ctx a ws l syms a' ws']
  have nop: "is_instr pl ''NOP'' \<longrightarrow> encode_line ctx a pl = Inr [make_instr_word 0 0 0 0]"
    by (simp add: is_instr_iff enc_NOP_HALT)
  have halt: "is_instr pl ''HALT'' \<longrightarrow> encode_line ctx a pl = Inr [make_instr_word 1 0 0 0]"
    by (simp add: is_instr_iff enc_NOP_HALT)
  have add: "is_instr pl ''ADD'' \<and> operands pl = [o1, o2] \<and> kind o1 = Reg \<and>
        reg_id_from_name (otext o1) = Inr d1 \<longrightarrow>
          (kind o2 = Reg \<and> reg_id_from_name (otext o2) = Inr s1 \<longrightarrow>
             encode_line ctx a pl = Inr [make_instr_word 5 0 d1 s1]) \<and>
          (kind o2 = Imm \<and> parse_number16 (otext o2) = Inr imm \<longrightarrow>
             encode_line ctx a pl = Inr [make_instr_word 5 1 d1 0, imm])"
    by (simp add: is_instr_iff enc_ADD)
  have nop2: "is_instr_p2 l ''NOP'' \<longrightarrow> encode_line_p2 syms a' l = Inr [make_instr_word 0 0 0 0]"
    by (simp add: is_instr_p2_iff enc_p2_NOP_HALT)
  have halt2: "is_instr_p2 l ''HALT'' \<longrightarrow> encode_line_p2 syms a' l = Inr [make_instr_word 1 0 0 0]"
    by (simp add: is_instr_p2_iff enc_p2_NOP_HALT)
  have add2: "is_instr_p2 l ''ADD'' \<and> operands_p2 l = [p1, p2] \<and> kind_p2 p1 = KReg \<and>
        reg_id_from_name_p2 (otext_p2 p1) = Inr d2 \<longrightarrow>
          (kind_p2 p2 = KReg \<and> reg_id_from_name_p2 (otext_p2 p2) = Inr s2 \<longrightarrow>
             encode_line_p2 syms a' l = Inr [make_instr_word 5 0 d2 s2]) \<and>
          (kind_p2 p2 = KImm \<and> parse_number16_p2 (otext_p2 p2) = Inr imm2 \<longrightarrow>
             encode_line_p2 syms a' l = Inr [make_instr_word 5 1 d2 0, imm2])"
    by (simp add: is_instr_p2_iff enc_p2_ADD)
  have regs: "reg_id_from_name ''R0'' = Inr 0 \<and> reg_id_from_name ''R1'' = Inr 1
      \<and> reg_id_from_name ''R2'' = Inr 2 \<and> reg_id_from_name ''R3'' = Inr 3
      \<and> reg_id_from_name_p2 ''R0'' = Inr 0 \<and> reg_id_from_name_p2 ''R1'' = Inr 1
      \<and> reg_id_from_name_p2 ''R2'' = Inr 2 \<and> reg_id_from_name_p2 ''R3'' = Inr 3"
    by (simp add: reg_id_from_name_def reg_id_from_name_p2_def iequals_iff)
  from c have c1: "uint (make_instr_word opcode mode rd rs) =
      push_bit 11 (uint opcode AND 0x1F) OR push_bit 8 (uint mode AND 0x07)
        OR push_bit 5 (uint rd AND 0x07) OR push_bit 2 (uint rs AND 0x07)"
    and c2: "make_instr_word opcode mode rd rs AND 3 = 0"
    by (rule conjunct1, rule conjunct2 [THEN conjunct1])
  note c3 = c [THEN conjunct2, THEN conjunct2, THEN conjunct1]
  note c4 = c [THEN conjunct2, THEN conjunct2, THEN conjunct2]
  show ?thesis
    by (intro conjI c1 c2 c3 c4 nop halt add nop2 halt2 add2
        regs [THEN conjunct1]
        regs [THEN conjunct2, THEN conjunct1]
        regs [THEN conjunct2, THEN conjunct2, THEN conjunct1]
        regs [THEN conjunct2, THEN conjunct2, THEN conjunct2, THEN conjunct1]
        regs [THEN conjunct2, THEN conjunct2, THEN conjunct2, THEN conjunct2, THEN conjunct1]
        regs [THEN conjunct2, THEN conjunct2, THEN conjunct2, THEN conjunct2, THEN conjunct2,
          THEN conjunct1]
        regs [THEN conjunct2, THEN conjunct2, THEN conjunct2, THEN conjunct2, THEN conjunct2,
          THEN conjunct2, THEN conjunct1]
        regs [THEN conjunct2, THEN conjunct2, THEN conjunct2, THEN conjunct2, THEN conjunct2,
          THEN conjunct2, THEN conjunct2])
qed

theorem instr_word_layout_witness:
  "is_instr ex_nop ''NOP'' \<and> encode_line init_ctx 0x8000 ex_nop = Inr [0]
   \<and> is_instr ex_halt ''HALT'' \<and> encode_line init_ctx 0x8000 ex_halt = Inr [0x0800]
   \<and> is_instr ex_add_reg ''ADD'' \<and> encode_line init_ctx 0x8000 ex_add_reg = Inr [0x2804]
   \<and> is_instr ex_add_imm ''ADD'' \<and> encode_line init_ctx 0x8000 ex_add_imm = Inr [0x2940, 7]
   \<and> is_instr_p2 ex_nop_p2 ''NOP'' \<and> encode_line_p2 Map.empty 0x8000 ex_nop_p2 = Inr [0]
   \<and> is_instr_p2 ex_halt_p2 ''HALT''
   \<and> encode_line_p2 Map.empty 0x8000 ex_halt_p2 = Inr [0x0800]
   \<and> is_instr_p2 ex_add_reg_p2 ''ADD''
   \<and> encode_line_p2 Map.empty 0x8000 ex_add_reg_p2 = Inr [0x284C]
   \<and> is_instr_p2 ex_add_imm_p2 ''ADD''
   \<and> encode_line_p2 Map.empty 0x8000 ex_add_imm_p2 = Inr [0x2920, 0x10]
   \<and> (\<exists>info m d s. find_instr (upper_str (op ex_add_imm)) = Some info \<and>
         hd [0x2940, 7 :: u16] = make_instr_word (snd info) m d s)
   \<and> uint (make_instr_word 5 1 2 0) = 0x2940 \<and> make_instr_word 5 1 2 0 AND 3 = 0"
proof -
  have i1: "is_instr ex_nop ''NOP''" by code_simp
  have i2: "is_instr ex_halt ''HALT''" by code_simp
  have i3: "is_instr ex_add_reg ''ADD'' \<and>
      operands ex_add_reg = [\<lparr>kind = Reg, otext = ''R0''\<rparr>, \<lparr>kind = Reg, otext = ''R1''\<rparr>]"
    by code_simp
  have i4: "is_instr ex_add_imm ''ADD'' \<and>
      operands ex_add_imm = [\<lparr>kind = Reg, otext = ''R2''\<rparr>, \<lparr>kind = Imm, otext = ''7''\<rparr>]"
    by code_simp
  have n7: "parse_number16 ''7'' = Inr 7" by code_simp
  have j1: "is_instr_p2 ex_nop_p2 ''NOP''" by code_simp
  have j2: "is_instr_p2 ex_halt_p2 ''HALT''" by code_simp
  have j3: "is_instr_p2 ex_add_reg_p2 ''ADD'' \<and>
      operands_p2 ex_add_reg_p2 =
        [\<lparr>kind_p2 = KReg, otext_p2 = ''R2''\<rparr>, \<lparr>kind_p2 = KReg, otext_p2 = ''R3''\<rparr>]"
    by code_simp
  have j4: "is_instr_p2 ex_add_imm_p2 ''ADD'' \<and>
      operands_p2 ex_add_imm_p2 =
        [\<lparr>kind_p2 = KReg, otext_p2 = ''R1''\<rparr>, \<lparr>kind_p2 = KImm, otext_p2 = ''0x10''\<rparr>]"
    by code_simp
  have n16: "parse_number16_p2 ''0x10'' = Inr 0x10" by code_simp
  have w: "make_instr_word 0 0 0 0 = 0" "make_instr_word 1 0 0 0 = 0x0800"
    "make_instr_word 5 0 0 1 = 0x2804" "make_instr_word 5 1 2 0 = 0x2940"
    "make_instr_word 5 0 2 3 = 0x284C" "make_instr_word 5 1 1 0 = 0x2920"
    by (simp_all add: make_instr_word_def)
  note t = instr_word_layout [where a = "0x8000" and a' = "0x8000" and ctx = init_ctx
      and syms = Map.empty and opcode = 5 and mode = 1 and rd = 2 and rs = 0]
  have nop: "encode_line init_ctx 0x8000 ex_nop = Inr [0]"
    using t [where pl = ex_nop] i1 w by simp
  have halt: "encode_line init_ctx 0x8000 ex_halt = Inr [0x0800]"
    using t [where pl = ex_halt] i2 w by simp
  have addr: "encode_line init_ctx 0x8000 ex_add_reg = Inr [0x2804]"
    using t [where pl = ex_add_reg and ?o1.0 = "\<lparr>kind = Reg, otext = ''R0''\<rparr>"
        and ?o2.0 = "\<lparr>kind = Reg, otext = ''R1''\<rparr>" and ?d1.0 = 0 and ?s1.0 = 1] i3 w
    by simp
  have addi: "encode_line init_ctx 0x8000 ex_add_imm = Inr [0x2940, 7]"
    using t [where pl = ex_add_imm and ?o1.0 = "\<lparr>kind = Reg, otext = ''R2''\<rparr>"
        and ?o2.0 = "\<lparr>kind = Imm, otext = ''7''\<rparr>" and ?d1.0 = 2 and imm = 7] i4 n7 w
    by simp
  have nop2: "encode_line_p2 Map.empty 0x8000 ex_nop_p2 = Inr [0]"
    using t [where l = ex_nop_p2] j1 w by simp
  have halt2: "encode_line_p2 Map.empty 0x8000 ex_halt_p2 = Inr [0x0800]"
    using t [where l = ex_halt_p2] j2 w by simp
  have addr2: "encode_line_p2 Map.empty 0x8000 ex_add_reg_p2 = Inr [0x284C]"
    using t [where l = ex_add_reg_p2 and ?p1.0 = "\<lparr>kind_p2 = KReg, otext_p2 = ''R2''\<rparr>"
        and ?p2.0 = "\<lparr>kind_p2 = KReg, otext_p2 = ''R3''\<rparr>" and ?d2.0 = 2 and ?s2.0 = 3] j3 w
    by simp
  have addi2: "encode_line_p2 Map.empty 0x8000 ex_add_imm_p2 = Inr [0x2920, 0x10]"
    using t [where l = ex_add_imm_p2 and ?p1.0 = "\<lparr>kind_p2 = KReg, otext_p2 = ''R1''\<rparr>"
        and ?p2.0 = "\<lparr>kind_p2 = KImm, otext_p2 = ''0x10''\<rparr>" and ?d2.0 = 1 and ?imm2.0 = 16]
      j4 n16 w
    by simp
  have k: "lkind ex_add_imm = Instruction" by code_simp
  note ta = t [where pl = ex_add_imm and ws = "[0x2940, 7]",
      THEN conjunct2, THEN conjunct2, THEN conjunct1]
  from ta [THEN mp, OF conjI [OF k addi], THEN conjunct1]
  have first: "\<exists>info m d s. find_instr (upper_str (op ex_add_imm)) = Some info \<and>
         hd [0x2940, 7 :: u16] = make_instr_word (snd info) m d s"
    by blast
  note low = t [THEN conjunct2, THEN conjunct1]
  have val: "uint (make_instr_word 5 1 2 0) = 0x2940"
    using w(4) by simp
  from i1 i2 i3 i4 j1 j2 j3 j4 nop halt addr addi nop2 halt2 addr2 addi2 first val low
  show ?thesis by simp
qed

section \<open>The two passes\<close>

lemma find_map_of:
  "find (\<lambda>p. fst p = k) xs = (case map_of xs k of None \<Rightarrow> None | Some v \<Rightarrow> Some (k, v))"
  by (induction xs) auto

lemma symbol_exists_iff: "symbol_exists ctx name \<longleftrightarrow> syms_of ctx name \<noteq> None"
  by (simp add: symbol_exists_def syms_of_def find_map_of split: option.splits)

lemma lookup_symbol_eq:
  "lookup_symbol ctx name =
     (case syms_of ctx name of
        Some v \<Rightarrow> Inr v
      | None \<Rightarrow> Inl (runtime_error (''Unknown label: '' @ name)))"
  by (simp add: lookup_symbol_def syms_of_def find_map_of split: option.splits)

lemma map_of_snoc_fresh:
  "map_of xs k = None \<Longrightarrow> map_of (xs @ [(k, v)]) = (map_of xs)(k \<mapsto> v)"
  by (rule ext) (auto simp add: map_add_def split: option.splits)

text \<open>What one iteration of Pass 1 does to the tables.\<close>

lemma pass1_line_tables_raw:
  assumes "pass1_line pl ctx = Inr ctx'"
  shows "line_addr ctx' = line_addr ctx @ [current_addr_words ctx]"
    and "label pl \<noteq> [] \<Longrightarrow> \<not> symbol_exists ctx (label pl)"
    and "symbols ctx' =
           (if label pl \<noteq> [] then symbols ctx @ [(label pl, current_addr_words ctx)]
            else symbols ctx)"
  using assms
  by (auto simp add: pass1_line_def Let_def bind_eq_Inr symbol_exists_def split: if_splits)

lemma pass1_line_tables:
  assumes "pass1_line pl ctx = Inr ctx'"
  shows "line_addr ctx' = line_addr ctx @ [current_addr_words ctx]"
    and "label pl \<noteq> [] \<Longrightarrow> syms_of ctx (label pl) = None"
    and "syms_of ctx' =
           (if label pl \<noteq> [] then (syms_of ctx)(label pl \<mapsto> current_addr_words ctx)
            else syms_of ctx)"
proof -
  note raw = pass1_line_tables_raw [OF assms]
  show "line_addr ctx' = line_addr ctx @ [current_addr_words ctx]"
    by (rule raw(1))
  show a: "syms_of ctx (label pl) = None" if "label pl \<noteq> []"
    using raw(2) [OF that] by (simp add: symbol_exists_iff)
  show "syms_of ctx' =
           (if label pl \<noteq> [] then (syms_of ctx)(label pl \<mapsto> current_addr_words ctx)
            else syms_of ctx)"
  proof (cases "label pl = []")
    case True
    with raw(3) show ?thesis by (simp add: syms_of_def)
  next
    case False
    with a have "map_of (symbols ctx) (label pl) = None"
      by (simp add: syms_of_def)
    from map_of_snoc_fresh [OF this] False raw(3) show ?thesis
      by (simp only: syms_of_def if_True simp_thms)
  qed
qed


lemma labels_of_Cons:
  "labels_of (pl # pls) = (if label pl \<noteq> [] then label pl # labels_of pls else labels_of pls)"
  by (simp add: labels_of_def)

lemma pass1_tables:
  assumes "pass1 lines ctx = Inr ctx'"
  shows "\<exists>las. line_addr ctx' = line_addr ctx @ las \<and> length las = length lines \<and>
           (\<forall>j<length lines. label (lines ! j) \<noteq> [] \<longrightarrow>
               syms_of ctx' (label (lines ! j)) = Some (las ! j)) \<and>
           (\<forall>n. n \<notin> set (labels_of lines) \<longrightarrow> syms_of ctx' n = syms_of ctx n) \<and>
           distinct (labels_of lines) \<and> set (labels_of lines) \<inter> dom (syms_of ctx) = {}"
  using assms
proof (induction lines arbitrary: ctx)
  case Nil
  then show ?case by (simp add: labels_of_def)
next
  case (Cons pl pls)
  from Cons.prems obtain ctx1 where
    step: "pass1_line pl ctx = Inr ctx1" and rest: "pass1 pls ctx1 = Inr ctx'"
    by (auto simp add: bind_eq_Inr)
  note t = pass1_line_tables [OF step]
  from Cons.IH [OF rest] obtain las where
    la: "line_addr ctx' = line_addr ctx1 @ las" and len: "length las = length pls"
    and def: "\<forall>j<length pls. label (pls ! j) \<noteq> [] \<longrightarrow>
               syms_of ctx' (label (pls ! j)) = Some (las ! j)"
    and other: "\<forall>n. n \<notin> set (labels_of pls) \<longrightarrow> syms_of ctx' n = syms_of ctx1 n"
    and dist: "distinct (labels_of pls)"
    and disj: "set (labels_of pls) \<inter> dom (syms_of ctx1) = {}"
    by blast
  let ?cur = "current_addr_words ctx"
  have fresh: "label pl \<notin> set (labels_of pls)" if "label pl \<noteq> []"
    using disj that t(3) by auto
  have "line_addr ctx' = line_addr ctx @ (?cur # las)"
    using la t(1) by simp
  moreover have "length (?cur # las) = length (pl # pls)"
    using len by simp
  moreover have "\<forall>j<length (pl # pls). label ((pl # pls) ! j) \<noteq> [] \<longrightarrow>
               syms_of ctx' (label ((pl # pls) ! j)) = Some ((?cur # las) ! j)"
  proof (intro allI impI)
    fix j assume j: "j < length (pl # pls)" and ne: "label ((pl # pls) ! j) \<noteq> []"
    show "syms_of ctx' (label ((pl # pls) ! j)) = Some ((?cur # las) ! j)"
    proof (cases j)
      case 0
      with ne have "label pl \<noteq> []" by simp
      with fresh other t(3) 0 show ?thesis by simp
    next
      case (Suc k)
      with j ne def show ?thesis by simp
    qed
  qed
  moreover have "\<forall>n. n \<notin> set (labels_of (pl # pls)) \<longrightarrow> syms_of ctx' n = syms_of ctx n"
    using other t(3) by (auto simp add: labels_of_Cons)
  moreover have "distinct (labels_of (pl # pls))"
    using dist fresh by (simp add: labels_of_Cons)
  moreover have "set (labels_of (pl # pls)) \<inter> dom (syms_of ctx) = {}"
    using disj t(2) t(3) by (auto simp add: labels_of_Cons split: if_splits)
  ultimately show ?case by blast
qed


lemma pass1_line_p2_tables:
  assumes "pass1_line_p2 l st = Inr st'"
  shows "line_addr_p2 st' = line_addr_p2 st @ [addr st]"
    and "label_p2 l \<noteq> [] \<Longrightarrow> symbols_p2 st (label_p2 l) = None"
    and "symbols_p2 st' =
           (if label_p2 l \<noteq> [] then (symbols_p2 st)(label_p2 l \<mapsto> addr st)
            else symbols_p2 st)"
  using assms
  by (auto simp add: pass1_line_p2_def Let_def bind_eq_Inr split: if_splits)

lemma labels_of_p2_Cons:
  "labels_of_p2 (l # ls) =
     (if label_p2 l \<noteq> [] then label_p2 l # labels_of_p2 ls else labels_of_p2 ls)"
  by (simp add: labels_of_p2_def)

lemma pass1_p2_tables:
  assumes "pass1_p2 lines st = Inr st'"
  shows "\<exists>las. line_addr_p2 st' = line_addr_p2 st @ las \<and> length las = length lines \<and>
           (\<forall>j<length lines. label_p2 (lines ! j) \<noteq> [] \<longrightarrow>
               symbols_p2 st' (label_p2 (lines ! j)) = Some (las ! j)) \<and>
           (\<forall>n. n \<notin> set (labels_of_p2 lines) \<longrightarrow> symbols_p2 st' n = symbols_p2 st n) \<and>
           distinct (labels_of_p2 lines) \<and> set (labels_of_p2 lines) \<inter> dom (symbols_p2 st) = {}"
  using assms
proof (induction lines arbitrary: st)
  case Nil
  then show ?case by (simp add: labels_of_p2_def)
next
  case (Cons l ls)
  from Cons.prems obtain st1 where
    step: "pass1_line_p2 l st = Inr st1" and rest: "pass1_p2 ls st1 = Inr st'"
    by (auto simp add: bind_eq_Inr)
  note t = pass1_line_p2_tables [OF step]
  from Cons.IH [OF rest] obtain las where
    la: "line_addr_p2 st' = line_addr_p2 st1 @ las" and len: "length las = length ls"
    and def: "\<forall>j<length ls. label_p2 (ls ! j) \<noteq> [] \<longrightarrow>
               symbols_p2 st' (label_p2 (ls ! j)) = Some (las ! j)"
    and other: "\<forall>n. n \<notin> set (labels_of_p2 ls) \<longrightarrow> symbols_p2 st' n = symbols_p2 st1 n"
    and dist: "distinct (labels_of_p2 ls)"
    and disj: "set (labels_of_p2 ls) \<inter> dom (symbols_p2 st1) = {}"
    by blast
  let ?cur = "addr st"
  have fresh: "label_p2 l \<notin> set (labels_of_p2 ls)" if "label_p2 l \<noteq> []"
    using disj that t(3) by auto
  have "line_addr_p2 st' = line_addr_p2 st @ (?cur # las)"
    using la t(1) by simp
  moreover have "length (?cur # las) = length (l # ls)"
    using len by simp
  moreover have "\<forall>j<length (l # ls). label_p2 ((l # ls) ! j) \<noteq> [] \<longrightarrow>
               symbols_p2 st' (label_p2 ((l # ls) ! j)) = Some ((?cur # las) ! j)"
  proof (intro allI impI)
    fix j assume j: "j < length (l # ls)" and ne: "label_p2 ((l # ls) ! j) \<noteq> []"
    show "symbols_p2 st' (label_p2 ((l # ls) ! j)) = Some ((?cur # las) ! j)"
    proof (cases j)
      case 0
      with ne have "label_p2 l \<noteq> []" by simp
      with fresh other t(3) 0 show ?thesis by simp
    next
      case (Suc k)
      with j ne def show ?thesis by simp
    qed
  qed
  moreover have "\<forall>n. n \<notin> set (labels_of_p2 (l # ls)) \<longrightarrow> symbols_p2 st' n = symbols_p2 st n"
    using other t(3) by (auto simp add: labels_of_p2_Cons)
  moreover have "distinct (labels_of_p2 (l # ls))"
    using dist fresh by (simp add: labels_of_p2_Cons)
  moreover have "set (labels_of_p2 (l # ls)) \<inter> dom (symbols_p2 st) = {}"
    using disj t(2) t(3) by (auto simp add: labels_of_p2_Cons split: if_splits)
  ultimately show ?case by blast
qed

text \<open>Pass 2 succeeds exactly when every line encodes; the output is the concatenation.\<close>

lemma pass2_loop_Inr:
  "pass2_loop ctx zs = Inr ws \<longleftrightarrow>
     (\<exists>wss. length wss = length zs \<and> ws = concat wss \<and>
        (\<forall>i<length zs. encode_line ctx (snd (zs ! i)) (fst (zs ! i)) = Inr (wss ! i)))"
proof (induction zs arbitrary: ws)
  case Nil
  then show ?case by auto
next
  case (Cons z zs)
  obtain pl a where z: "z = (pl, a)" by (cases z)
  show ?case
  proof
    assume "pass2_loop ctx (z # zs) = Inr ws"
    then obtain w more where w: "encode_line ctx a pl = Inr w"
      and m: "pass2_loop ctx zs = Inr more" and ws: "ws = w @ more"
      by (auto simp add: z bind_eq_Inr)
    from m Cons.IH obtain wss where wss: "length wss = length zs" "more = concat wss"
      "\<forall>i<length zs. encode_line ctx (snd (zs ! i)) (fst (zs ! i)) = Inr (wss ! i)"
      by blast
    have "\<forall>i<length (z # zs). encode_line ctx (snd ((z # zs) ! i)) (fst ((z # zs) ! i))
            = Inr ((w # wss) ! i)"
      using w wss(3) z by (auto simp add: nth_Cons split: nat.splits)
    with wss ws show "\<exists>wss. length wss = length (z # zs) \<and> ws = concat wss \<and>
        (\<forall>i<length (z # zs). encode_line ctx (snd ((z # zs) ! i)) (fst ((z # zs) ! i))
            = Inr (wss ! i))"
      by (intro exI [of _ "w # wss"]) simp
  next
    assume "\<exists>wss. length wss = length (z # zs) \<and> ws = concat wss \<and>
        (\<forall>i<length (z # zs). encode_line ctx (snd ((z # zs) ! i)) (fst ((z # zs) ! i))
            = Inr (wss ! i))"
    then obtain wss where wss: "length wss = length (z # zs)" "ws = concat wss"
      and all: "\<forall>i<length (z # zs).
         encode_line ctx (snd ((z # zs) ! i)) (fst ((z # zs) ! i)) = Inr (wss ! i)"
      by blast
    from wss(1) obtain w wss' where c: "wss = w # wss'" "length wss' = length zs"
      by (cases wss) auto
    from all c have w: "encode_line ctx a pl = Inr w"
      using z by force
    from all c have "\<forall>i<length zs. encode_line ctx (snd (zs ! i)) (fst (zs ! i)) = Inr (wss' ! i)"
      by force
    with c(2) Cons.IH have "pass2_loop ctx zs = Inr (concat wss')"
      by blast
    with w wss(2) c show "pass2_loop ctx (z # zs) = Inr ws"
      by (simp add: z)
  qed
qed


lemma pass2_loop_p2_Inr:
  "pass2_loop_p2 syms zs = Inr ws \<longleftrightarrow>
     (\<exists>wss. length wss = length zs \<and> ws = concat wss \<and>
        (\<forall>i<length zs. encode_line_p2 syms (snd (zs ! i)) (fst (zs ! i)) = Inr (wss ! i)))"
proof (induction zs arbitrary: ws)
  case Nil
  then show ?case by auto
next
  case (Cons z zs)
  obtain l a where z: "z = (l, a)" by (cases z)
  show ?case
  proof
    assume "pass2_loop_p2 syms (z # zs) = Inr ws"
    then obtain w more where w: "encode_line_p2 syms a l = Inr w"
      and m: "pass2_loop_p2 syms zs = Inr more" and ws: "ws = w @ more"
      by (auto simp add: z bind_eq_Inr)
    from m Cons.IH obtain wss where wss: "length wss = length zs" "more = concat wss"
      "\<forall>i<length zs. encode_line_p2 syms (snd (zs ! i)) (fst (zs ! i)) = Inr (wss ! i)"
      by blast
    have "\<forall>i<length (z # zs). encode_line_p2 syms (snd ((z # zs) ! i)) (fst ((z # zs) ! i))
            = Inr ((w # wss) ! i)"
      using w wss(3) z by (auto simp add: nth_Cons split: nat.splits)
    with wss ws show "\<exists>wss. length wss = length (z # zs) \<and> ws = concat wss \<and>
        (\<forall>i<length (z # zs). encode_line_p2 syms (snd ((z # zs) ! i)) (fst ((z # zs) ! i))
            = Inr (wss ! i))"
      by (intro exI [of _ "w # wss"]) simp
  next
    assume "\<exists>wss. length wss = length (z # zs) \<and> ws = concat wss \<and>
        (\<forall>i<length (z # zs). encode_line_p2 syms (snd ((z # zs) ! i)) (fst ((z # zs) ! i))
            = Inr (wss ! i))"
    then obtain wss where wss: "length wss = length (z # zs)" "ws = concat wss"
      and all: "\<forall>i<length (z # zs).
         encode_line_p2 syms (snd ((z # zs) ! i)) (fst ((z # zs) ! i)) = Inr (wss ! i)"
      by blast
    from wss(1) obtain w wss' where c: "wss = w # wss'" "length wss' = length zs"
      by (cases wss) auto
    from all c have w: "encode_line_p2 syms a l = Inr w"
      using z by force
    from all c have
      "\<forall>i<length zs. encode_line_p2 syms (snd (zs ! i)) (fst (zs ! i)) = Inr (wss' ! i)"
      by force
    with c(2) Cons.IH have "pass2_loop_p2 syms zs = Inr (concat wss')"
      by blast
    with w wss(2) c show "pass2_loop_p2 syms (z # zs) = Inr ws"
      by (simp add: z)
  qed
qed

text \<open>The first line that fails to encode decides the error of Pass 2.\<close>

lemma pass2_loop_first_error:
  assumes "i < length zs"
    and "\<forall>j<i. \<exists>w. encode_line ctx (snd (zs ! j)) (fst (zs ! j)) = Inr w"
    and "encode_line ctx (snd (zs ! i)) (fst (zs ! i)) = Inl e"
  shows "pass2_loop ctx zs = Inl e"
  using assms
proof (induction zs arbitrary: i)
  case Nil
  then show ?case by simp
next
  case (Cons z zs)
  obtain pl a where z: "z = (pl, a)" by (cases z)
  show ?case
  proof (cases i)
    case 0
    with Cons.prems z show ?thesis by simp
  next
    case (Suc k)
    from Cons.prems(2) Suc obtain w where w: "encode_line ctx a pl = Inr w"
      using z by force
    have "\<forall>j<k. \<exists>w. encode_line ctx (snd (zs ! j)) (fst (zs ! j)) = Inr w"
      using Cons.prems(2) Suc by force
    with Cons.IH [of k] Cons.prems Suc have "pass2_loop ctx zs = Inl e"
      by simp
    with w show ?thesis by (simp add: z)
  qed
qed

lemma pass2_loop_p2_first_error:
  assumes "i < length zs"
    and "\<forall>j<i. \<exists>w. encode_line_p2 syms (snd (zs ! j)) (fst (zs ! j)) = Inr w"
    and "encode_line_p2 syms (snd (zs ! i)) (fst (zs ! i)) = Inl e"
  shows "pass2_loop_p2 syms zs = Inl e"
  using assms
proof (induction zs arbitrary: i)
  case Nil
  then show ?case by simp
next
  case (Cons z zs)
  obtain l a where z: "z = (l, a)" by (cases z)
  show ?case
  proof (cases i)
    case 0
    with Cons.prems z show ?thesis by simp
  next
    case (Suc k)
    from Cons.prems(2) Suc obtain w where w: "encode_line_p2 syms a l = Inr w"
      using z by force
    have "\<forall>j<k. \<exists>w. encode_line_p2 syms (snd (zs ! j)) (fst (zs ! j)) = Inr w"
      using Cons.prems(2) Suc by force
    with Cons.IH [of k] Cons.prems Suc have "pass2_loop_p2 syms zs = Inl e"
      by simp
    with w show ?thesis by (simp add: z)
  qed
qed

lemma pass2_loop_fails:
  assumes "i < length zs" and "encode_line ctx (snd (zs ! i)) (fst (zs ! i)) = Inl e"
  shows "\<exists>e'. pass2_loop ctx zs = Inl e'"
proof (cases "pass2_loop ctx zs")
  case (Inl e')
  then show ?thesis by blast
next
  case (Inr ws)
  with assms show ?thesis
    unfolding pass2_loop_Inr by force
qed

lemma pass2_loop_p2_fails:
  assumes "i < length zs" and "encode_line_p2 syms (snd (zs ! i)) (fst (zs ! i)) = Inl e"
  shows "\<exists>e'. pass2_loop_p2 syms zs = Inl e'"
proof (cases "pass2_loop_p2 syms zs")
  case (Inl e')
  then show ?thesis by blast
next
  case (Inr ws)
  with assms show ?thesis
    unfolding pass2_loop_p2_Inr by force
qed

lemma pass1_append: "pass1 (xs @ ys) ctx = bind (pass1 xs ctx) (pass1 ys)"
  by (induction xs arbitrary: ctx) (simp_all add: bind_def split: sum.splits)

lemma pass1_p2_append: "pass1_p2 (xs @ ys) st = bind (pass1_p2 xs st) (pass1_p2 ys)"
  by (induction xs arbitrary: st) (simp_all add: bind_def split: sum.splits)

text \<open>The offset arithmetic of both encoders.\<close>

lemma offset16_eq:
  "(word_of_int ((uint target - (uint a + 2)) AND 0xFFFF) :: u16) = target - (a + 2)"
proof -
  have "(uint target - (uint a + 2)) AND 0xFFFF = take_bit 16 (uint target - (uint a + 2))"
    using take_bit_eq_mask [of 16 "uint target - (uint a + 2)"]
    by (simp add: mask_eq_exp_minus_1)
  moreover have "(word_of_int (take_bit 16 (uint target - (uint a + 2))) :: u16)
      = word_of_int (uint target - (uint a + 2))"
    by (rule wi_bintr) simp
  ultimately show ?thesis
    by simp
qed

lemma offset16_target:
  "(word_of_int ((uint target - (uint a + 2)) AND 0xFFFF) :: u16) + (a + 2) = target"
  by (simp add: offset16_eq)

lemma pass1_init_tables:
  assumes "pass1 lines init_ctx = Inr ctx"
  shows "length (line_addr ctx) = length lines"
    and "syms_of ctx name = Some v \<longleftrightarrow>
           name \<noteq> [] \<and> (\<exists>j<length lines. label (lines ! j) = name \<and> v = line_addr ctx ! j)"
    and "distinct (labels_of lines)"
proof -
  from pass1_tables [OF assms] obtain las where
    la: "line_addr ctx = line_addr init_ctx @ las" and len: "length las = length lines"
    and def: "\<forall>j<length lines. label (lines ! j) \<noteq> [] \<longrightarrow>
               syms_of ctx (label (lines ! j)) = Some (las ! j)"
    and other: "\<forall>n. n \<notin> set (labels_of lines) \<longrightarrow> syms_of ctx n = syms_of init_ctx n"
    and dist: "distinct (labels_of lines)"
    by blast
  from la have las: "las = line_addr ctx" by (simp add: init_ctx_def)
  show "length (line_addr ctx) = length lines" using len las by simp
  show "distinct (labels_of lines)" by (rule dist)
  show "syms_of ctx name = Some v \<longleftrightarrow>
           name \<noteq> [] \<and> (\<exists>j<length lines. label (lines ! j) = name \<and> v = line_addr ctx ! j)"
  proof
    assume s: "syms_of ctx name = Some v"
    have "name \<in> set (labels_of lines)"
    proof (rule ccontr)
      assume "name \<notin> set (labels_of lines)"
      with other have "syms_of ctx name = syms_of init_ctx name" by blast
      with s show False by (simp add: syms_of_def init_ctx_def)
    qed
    then have ne: "name \<noteq> []" and "name \<in> set (map label lines)"
      by (auto simp add: labels_of_def)
    then obtain j where j: "j < length lines" "label (lines ! j) = name"
      by (auto simp add: in_set_conv_nth)
    with def ne s las have "v = line_addr ctx ! j" by auto
    with ne j show "name \<noteq> [] \<and> (\<exists>j<length lines. label (lines ! j) = name \<and> v = line_addr ctx ! j)"
      by blast
  next
    assume "name \<noteq> [] \<and> (\<exists>j<length lines. label (lines ! j) = name \<and> v = line_addr ctx ! j)"
    with def las show "syms_of ctx name = Some v" by auto
  qed
qed

lemma pass1_p2_init_tables:
  assumes "pass1_p2 lines init_p2 = Inr st"
  shows "length (line_addr_p2 st) = length lines"
    and "symbols_p2 st name = Some v \<longleftrightarrow>
           name \<noteq> [] \<and> (\<exists>j<length lines. label_p2 (lines ! j) = name \<and> v = line_addr_p2 st ! j)"
    and "distinct (labels_of_p2 lines)"
proof -
  from pass1_p2_tables [OF assms] obtain las where
    la: "line_addr_p2 st = line_addr_p2 init_p2 @ las" and len: "length las = length lines"
    and def: "\<forall>j<length lines. label_p2 (lines ! j) \<noteq> [] \<longrightarrow>
               symbols_p2 st (label_p2 (lines ! j)) = Some (las ! j)"
    and other: "\<forall>n. n \<notin> set (labels_of_p2 lines) \<longrightarrow> symbols_p2 st n = symbols_p2 init_p2 n"
    and dist: "distinct (labels_of_p2 lines)"
    by blast
  from la have las: "las = line_addr_p2 st" by (simp add: init_p2_def)
  show "length (line_addr_p2 st) = length lines" using len las by simp
  show "distinct (labels_of_p2 lines)" by (rule dist)
  show "symbols_p2 st name = Some v \<longleftrightarrow>
           name \<noteq> [] \<and> (\<exists>j<length lines. label_p2 (lines ! j) = name \<and> v = line_addr_p2 st ! j)"
  proof
    assume s: "symbols_p2 st name = Some v"
    have "name \<in> set (labels_of_p2 lines)"
    proof (rule ccontr)
      assume "name \<notin> set (labels_of_p2 lines)"
      with other have "symbols_p2 st name = symbols_p2 init_p2 name" by blast
      with s show False by (simp add: init_p2_def)
    qed
    then have ne: "name \<noteq> []" and "name \<in> set (map label_p2 lines)"
      by (auto simp add: labels_of_p2_def)
    then obtain j where j: "j < length lines" "label_p2 (lines ! j) = name"
      by (auto simp add: in_set_conv_nth)
    with def ne s las have "v = line_addr_p2 st ! j" by auto
    with ne j show "name \<noteq> [] \<and>
        (\<exists>j<length lines. label_p2 (lines ! j) = name \<and> v = line_addr_p2 st ! j)"
      by blast
  next
    assume "name \<noteq> [] \<and>
        (\<exists>j<length lines. label_p2 (lines ! j) = name \<and> v = line_addr_p2 st ! j)"
    with def las show "symbols_p2 st name = Some v" by auto
  qed
qed

lemma jump_line_words:
  assumes "is_instr pl ''JMP'' \<or> is_instr pl ''JZ''" and "encode_line ctx a pl = Inr ws"
  shows "\<exists>opnd target off. operands pl = [opnd] \<and>
           (kind opnd = LabelRef \<and> syms_of ctx (otext opnd) = Some target \<or>
            kind opnd = RawNumber \<and> parse_number16 (otext opnd) = Inr target) \<and>
           ws = [make_instr_word (if is_instr pl ''JMP'' then 13 else 14) 5 0 0, off] \<and>
           off + (a + 2) = target"
proof -
  from assms(1) have k: "lkind pl = Instruction"
    and m: "map toupper (op pl) = ''JMP'' \<or> map toupper (op pl) = ''JZ''"
    by (auto simp add: is_instr_iff)
  from assms(2) have len: "length (operands pl) = 1"
    by (simp add: enc_JUMP [OF k m] split: if_splits)
  then obtain opnd where o: "operands pl = [opnd]"
    by (cases "operands pl") auto
  from assms(2) o obtain target where
    t: "kind opnd = LabelRef \<and> lookup_symbol ctx (otext opnd) = Inr target \<or>
        kind opnd = RawNumber \<and> parse_number16 (otext opnd) = Inr target"
    and ws: "ws = [make_instr_word (if map toupper (op pl) = ''JMP'' then 13 else 14) 5 0 0,
                   word_of_int ((uint target - (uint a + 2)) AND 0xFFFF)]"
    by (auto simp add: enc_JUMP [OF k m] bind_eq_Inr split: if_splits)
  from t have "kind opnd = LabelRef \<and> syms_of ctx (otext opnd) = Some target \<or>
        kind opnd = RawNumber \<and> parse_number16 (otext opnd) = Inr target"
    by (auto simp add: lookup_symbol_eq split: option.splits)
  moreover have "is_instr pl ''JMP'' \<longleftrightarrow> map toupper (op pl) = ''JMP''"
    using k by (simp add: is_instr_iff)
  ultimately show ?thesis
    using o ws offset16_target [of target a] by auto
qed

lemma jump_line_words_p2:
  assumes "is_instr_p2 l ''JMP'' \<or> is_instr_p2 l ''JZ''" and "encode_line_p2 syms a l = Inr ws"
  shows "\<exists>opnd target off. operands_p2 l = [opnd] \<and>
           (kind_p2 opnd = KLabel \<and> syms (otext_p2 opnd) = Some target \<or>
            kind_p2 opnd = KNumber \<and> parse_number16_p2 (otext_p2 opnd) = Inr target) \<and>
           ws = [make_instr_word (if is_instr_p2 l ''JMP'' then 13 else 14) 5 0 0, off] \<and>
           off + (a + 2) = target"
proof -
  from assms(1) have k: "op_p2 l \<noteq> []" "\<not> is_directive l"
    and m: "map toupper (op_p2 l) = ''JMP'' \<or> map toupper (op_p2 l) = ''JZ''"
    by (auto simp add: is_instr_p2_iff)
  note enc = enc_p2_JUMP [OF k m]
  from assms(2) have len: "length (operands_p2 l) = 1"
    by (simp add: enc split: if_splits)
  then obtain opnd where o: "operands_p2 l = [opnd]"
    by (cases "operands_p2 l") auto
  from assms(2) o obtain target where
    t: "kind_p2 opnd = KLabel \<and> syms (otext_p2 opnd) = Some target \<or>
        kind_p2 opnd = KNumber \<and> parse_number16_p2 (otext_p2 opnd) = Inr target"
    and ws: "ws = [make_instr_word (if map toupper (op_p2 l) = ''JMP'' then 13 else 14) 5 0 0,
                   word_of_int ((uint target - (uint a + 2)) AND 0xFFFF)]"
    by (auto simp add: enc bind_eq_Inr split: if_splits option.splits)
  moreover have "is_instr_p2 l ''JMP'' \<longleftrightarrow> map toupper (op_p2 l) = ''JMP''"
    using k by (simp add: is_instr_p2_iff)
  ultimately show ?thesis
    using o offset16_target [of target a] by auto
qed

lemma assemble_words_Inr:
  "assemble_words source = Inr words \<longleftrightarrow>
     (\<exists>lines ctx. parse_lines 1 (getlines source) = Inr lines \<and>
        pass1 lines init_ctx = Inr ctx \<and> pass2 lines ctx = Inr words)"
  by (auto simp add: assemble_words_def bind_eq_Inr)

lemma assemble_words_p2_Inr:
  "assemble_words_p2 source = Inr words \<longleftrightarrow>
     (\<exists>lines st. parse_lines_p2 (getlines source) = Inr lines \<and>
        pass1_p2 lines init_p2 = Inr st \<and> pass2_p2 lines st = Inr words)"
  by (auto simp add: assemble_words_p2_def bind_eq_Inr)

lemma pass2_Inr:
  assumes "length (line_addr ctx) = length lines"
  shows "pass2 lines ctx = Inr ws \<longleftrightarrow>
     (\<exists>wss. length wss = length lines \<and> ws = concat wss \<and>
        (\<forall>i<length lines. encode_line ctx (line_addr ctx ! i) (lines ! i) = Inr (wss ! i)))"
  using assms by (simp add: pass2_def pass2_loop_Inr)

lemma pass2_p2_Inr:
  assumes "length (line_addr_p2 st) = length lines"
  shows "pass2_p2 lines st = Inr ws \<longleftrightarrow>
     (\<exists>wss. length wss = length lines \<and> ws = concat wss \<and>
        (\<forall>i<length lines.
           encode_line_p2 (symbols_p2 st) (line_addr_p2 st ! i) (lines ! i) = Inr (wss ! i)))"
  using assms by (simp add: pass2_p2_def pass2_loop_p2_Inr)

text \<open>
  Claim C1. In every successful assembly, each \<^verbatim>\<open>JMP\<close> or \<^verbatim>\<open>JZ\<close> line has exactly one
  operand, a label defined on some line of the source (before or after the jump) or a
  number. The line emits the opcode word and an offset word, and offset plus the Pass-1
  address of the jump plus 2 equals the target address, as 16-bit words (that is, modulo
  \<open>2^16\<close>), where the target of a label is the Pass-1 address of its defining line.
\<close>

theorem pc_relative_offset:
  "(assemble_words source = Inr words \<longrightarrow>
      (\<exists>lines ctx wss.
         parse_lines 1 (getlines source) = Inr lines \<and> pass1 lines init_ctx = Inr ctx \<and>
         length (line_addr ctx) = length lines \<and>
         length wss = length lines \<and> words = concat wss \<and>
         (\<forall>i<length lines. is_instr (lines ! i) ''JMP'' \<or> is_instr (lines ! i) ''JZ'' \<longrightarrow>
            (\<exists>opnd target off.
               operands (lines ! i) = [opnd] \<and>
               (kind opnd = LabelRef \<and>
                  (\<exists>j<length lines. label (lines ! j) = otext opnd \<and> target = line_addr ctx ! j)
                \<or> kind opnd = RawNumber \<and> parse_number16 (otext opnd) = Inr target) \<and>
               wss ! i = [make_instr_word (if is_instr (lines ! i) ''JMP'' then 13 else 14) 5 0 0,
                          off] \<and>
               off + (line_addr ctx ! i + 2) = target))))
   \<and> (assemble_words_p2 source = Inr words' \<longrightarrow>
      (\<exists>lines st wss.
         parse_lines_p2 (getlines source) = Inr lines \<and> pass1_p2 lines init_p2 = Inr st \<and>
         length (line_addr_p2 st) = length lines \<and>
         length wss = length lines \<and> words' = concat wss \<and>
         (\<forall>i<length lines. is_instr_p2 (lines ! i) ''JMP'' \<or> is_instr_p2 (lines ! i) ''JZ'' \<longrightarrow>
            (\<exists>opnd target off.
               operands_p2 (lines ! i) = [opnd] \<and>
               (kind_p2 opnd = KLabel \<and>
                  (\<exists>j<length lines. label_p2 (lines ! j) = otext_p2 opnd \<and>
                      target = line_addr_p2 st ! j)
                \<or> kind_p2 opnd = KNumber \<and> parse_number16_p2 (otext_p2 opnd) = Inr target) \<and>
               wss ! i = [make_instr_word (if is_instr_p2 (lines ! i) ''JMP'' then 13 else 14)
                            5 0 0, off] \<and>
               off + (line_addr_p2 st ! i + 2) = target))))"
proof (intro conjI impI)
  assume "assemble_words source = Inr words"
  then obtain lines ctx where p: "parse_lines 1 (getlines source) = Inr lines"
    and p1: "pass1 lines init_ctx = Inr ctx" and p2: "pass2 lines ctx = Inr words"
    unfolding assemble_words_Inr by blast
  note tab = pass1_init_tables [OF p1]
  from p2 obtain wss where wss: "length wss = length lines" "words = concat wss"
    and enc: "\<forall>i<length lines. encode_line ctx (line_addr ctx ! i) (lines ! i) = Inr (wss ! i)"
    unfolding pass2_Inr [OF tab(1)] by blast
  have "\<exists>opnd target off.
               operands (lines ! i) = [opnd] \<and>
               (kind opnd = LabelRef \<and>
                  (\<exists>j<length lines. label (lines ! j) = otext opnd \<and> target = line_addr ctx ! j)
                \<or> kind opnd = RawNumber \<and> parse_number16 (otext opnd) = Inr target) \<and>
               wss ! i = [make_instr_word (if is_instr (lines ! i) ''JMP'' then 13 else 14) 5 0 0,
                          off] \<and>
               off + (line_addr ctx ! i + 2) = target"
    if i: "i < length lines" and j: "is_instr (lines ! i) ''JMP'' \<or> is_instr (lines ! i) ''JZ''"
    for i
  proof -
    from enc i have "encode_line ctx (line_addr ctx ! i) (lines ! i) = Inr (wss ! i)"
      by blast
    from jump_line_words [OF j this] obtain opnd target off where
      o: "operands (lines ! i) = [opnd]"
      and t: "kind opnd = LabelRef \<and> syms_of ctx (otext opnd) = Some target \<or>
              kind opnd = RawNumber \<and> parse_number16 (otext opnd) = Inr target"
      and w: "wss ! i = [make_instr_word (if is_instr (lines ! i) ''JMP'' then 13 else 14) 5 0 0,
                off]"
      and off: "off + (line_addr ctx ! i + 2) = target"
      by blast
    from t have "kind opnd = LabelRef \<and>
                  (\<exists>j<length lines. label (lines ! j) = otext opnd \<and> target = line_addr ctx ! j)
                \<or> kind opnd = RawNumber \<and> parse_number16 (otext opnd) = Inr target"
      unfolding tab(2) by blast
    with o w off show ?thesis by blast
  qed
  with p p1 tab(1) wss show "\<exists>lines ctx wss.
         parse_lines 1 (getlines source) = Inr lines \<and> pass1 lines init_ctx = Inr ctx \<and>
         length (line_addr ctx) = length lines \<and>
         length wss = length lines \<and> words = concat wss \<and>
         (\<forall>i<length lines. is_instr (lines ! i) ''JMP'' \<or> is_instr (lines ! i) ''JZ'' \<longrightarrow>
            (\<exists>opnd target off.
               operands (lines ! i) = [opnd] \<and>
               (kind opnd = LabelRef \<and>
                  (\<exists>j<length lines. label (lines ! j) = otext opnd \<and> target = line_addr ctx ! j)
                \<or> kind opnd = RawNumber \<and> parse_number16 (otext opnd) = Inr target) \<and>
               wss ! i = [make_instr_word (if is_instr (lines ! i) ''JMP'' then 13 else 14) 5 0 0,
                          off] \<and>
               off + (line_addr ctx ! i + 2) = target))"
    by blast
next
  assume "assemble_words_p2 source = Inr words'"
  then obtain lines st where p: "parse_lines_p2 (getlines source) = Inr lines"
    and p1: "pass1_p2 lines init_p2 = Inr st" and p2: "pass2_p2 lines st = Inr words'"
    unfolding assemble_words_p2_Inr by blast
  note tab = pass1_p2_init_tables [OF p1]
  from p2 obtain wss where wss: "length wss = length lines" "words' = concat wss"
    and enc: "\<forall>i<length lines.
       encode_line_p2 (symbols_p2 st) (line_addr_p2 st ! i) (lines ! i) = Inr (wss ! i)"
    unfolding pass2_p2_Inr [OF tab(1)] by blast
  have "\<exists>opnd target off.
               operands_p2 (lines ! i) = [opnd] \<and>
               (kind_p2 opnd = KLabel \<and>
                  (\<exists>j<length lines. label_p2 (lines ! j) = otext_p2 opnd \<and>
                      target = line_addr_p2 st ! j)
                \<or> kind_p2 opnd = KNumber \<and> parse_number16_p2 (otext_p2 opnd) = Inr target) \<and>
               wss ! i = [make_instr_word (if is_instr_p2 (lines ! i) ''JMP'' then 13 else 14)
                            5 0 0, off] \<and>
               off + (line_addr_p2 st ! i + 2) = target"
    if i: "i < length lines"
      and j: "is_instr_p2 (lines ! i) ''JMP'' \<or> is_instr_p2 (lines ! i) ''JZ''"
    for i
  proof -
    from enc i
    have "encode_line_p2 (symbols_p2 st) (line_addr_p2 st ! i) (lines ! i) = Inr (wss ! i)"
      by blast
    from jump_line_words_p2 [OF j this] obtain opnd target off where
      o: "operands_p2 (lines ! i) = [opnd]"
      and t: "kind_p2 opnd = KLabel \<and> symbols_p2 st (otext_p2 opnd) = Some target \<or>
              kind_p2 opnd = KNumber \<and> parse_number16_p2 (otext_p2 opnd) = Inr target"
      and w: "wss ! i = [make_instr_word (if is_instr_p2 (lines ! i) ''JMP'' then 13 else 14)
                5 0 0, off]"
      and off: "off + (line_addr_p2 st ! i + 2) = target"
      by blast
    from t have "kind_p2 opnd = KLabel \<and>
                  (\<exists>j<length lines. label_p2 (lines ! j) = otext_p2 opnd \<and>
                      target = line_addr_p2 st ! j)
                \<or> kind_p2 opnd = KNumber \<and> parse_number16_p2 (otext_p2 opnd) = Inr target"
      unfolding tab(2) by blast
    with o w off show ?thesis by blast
  qed
  with p p1 tab(1) wss show "\<exists>lines st wss.
         parse_lines_p2 (getlines source) = Inr lines \<and> pass1_p2 lines init_p2 = Inr st \<and>
         length (line_addr_p2 st) = length lines \<and>
         length wss = length lines \<and> words' = concat wss \<and>
         (\<forall>i<length lines. is_instr_p2 (lines ! i) ''JMP'' \<or> is_instr_p2 (lines ! i) ''JZ'' \<longrightarrow>
            (\<exists>opnd target off.
               operands_p2 (lines ! i) = [opnd] \<and>
               (kind_p2 opnd = KLabel \<and>
                  (\<exists>j<length lines. label_p2 (lines ! j) = otext_p2 opnd \<and>
                      target = line_addr_p2 st ! j)
                \<or> kind_p2 opnd = KNumber \<and> parse_number16_p2 (otext_p2 opnd) = Inr target) \<and>
               wss ! i = [make_instr_word (if is_instr_p2 (lines ! i) ''JMP'' then 13 else 14)
                            5 0 0, off] \<and>
               off + (line_addr_p2 st ! i + 2) = target))"
    by blast
qed

theorem pc_relative_offset_witness:
  "assemble_words ex_jumps = Inr ex_jumps_words
   \<and> assemble_words_p2 ex_jumps = Inr ex_jumps_words
   \<and> (\<exists>lines ctx wss opnd off.
         parse_lines 1 (getlines ex_jumps) = Inr lines \<and> pass1 lines init_ctx = Inr ctx \<and>
         ex_jumps_words = concat wss \<and> is_instr (lines ! 0) ''JMP'' \<and>
         operands (lines ! 0) = [opnd] \<and> kind opnd = LabelRef \<and>
         label (lines ! 1) = otext opnd \<and>
         wss ! 0 = [make_instr_word 13 5 0 0, off] \<and>
         off + (line_addr ctx ! 0 + 2) = line_addr ctx ! 1)
   \<and> (\<exists>lines st wss opnd off.
         parse_lines_p2 (getlines ex_jumps) = Inr lines \<and> pass1_p2 lines init_p2 = Inr st \<and>
         ex_jumps_words = concat wss \<and> is_instr_p2 (lines ! 1) ''JZ'' \<and>
         operands_p2 (lines ! 1) = [opnd] \<and> kind_p2 opnd = KLabel \<and>
         label_p2 (lines ! 0) = otext_p2 opnd \<and>
         wss ! 1 = [make_instr_word 14 5 0 0, off] \<and>
         off + (line_addr_p2 st ! 1 + 2) = line_addr_p2 st ! 0)"
proof -
  let ?l0 = "\<lparr>line_no = 1, label = ''a'', lkind = Instruction, op = ''JMP'',
               operands = [\<lparr>kind = LabelRef, otext = ''b''\<rparr>]\<rparr>"
  let ?l1 = "\<lparr>line_no = 2, label = ''b'', lkind = Instruction, op = ''jz'',
               operands = [\<lparr>kind = LabelRef, otext = ''a''\<rparr>]\<rparr>"
  let ?m0 = "\<lparr>label_p2 = ''A'', op_p2 = ''JMP'', is_directive = False,
               operands_p2 = [\<lparr>kind_p2 = KLabel, otext_p2 = ''B''\<rparr>]\<rparr>"
  let ?m1 = "\<lparr>label_p2 = ''B'', op_p2 = ''JZ'', is_directive = False,
               operands_p2 = [\<lparr>kind_p2 = KLabel, otext_p2 = ''A''\<rparr>]\<rparr>"
  have a: "assemble_words ex_jumps = Inr ex_jumps_words"
    by code_simp
  have b: "assemble_words_p2 ex_jumps = Inr ex_jumps_words"
    by code_simp
  have pa: "parse_lines 1 (getlines ex_jumps) = Inr [?l0, ?l1]"
    by code_simp
  have pb: "parse_lines_p2 (getlines ex_jumps) = Inr [?m0, ?m1]"
    by code_simp
  have ja: "is_instr ?l0 ''JMP''" by code_simp
  have jb: "is_instr_p2 ?m1 ''JZ''" by code_simp
  from pc_relative_offset [of ex_jumps ex_jumps_words ex_jumps_words] a b
  obtain lines ctx wss where
    A: "parse_lines 1 (getlines ex_jumps) = Inr lines" "pass1 lines init_ctx = Inr ctx"
      "ex_jumps_words = concat wss"
    and A': "\<forall>i<length lines. is_instr (lines ! i) ''JMP'' \<or> is_instr (lines ! i) ''JZ'' \<longrightarrow>
            (\<exists>opnd target off.
               operands (lines ! i) = [opnd] \<and>
               (kind opnd = LabelRef \<and>
                  (\<exists>j<length lines. label (lines ! j) = otext opnd \<and> target = line_addr ctx ! j)
                \<or> kind opnd = RawNumber \<and> parse_number16 (otext opnd) = Inr target) \<and>
               wss ! i = [make_instr_word (if is_instr (lines ! i) ''JMP'' then 13 else 14) 5 0 0,
                          off] \<and>
               off + (line_addr ctx ! i + 2) = target)"
    by blast
  from A(1) pa have la: "lines = [?l0, ?l1]" by simp
  have h0: "0 < length lines" "is_instr (lines ! 0) ''JMP''"
    using la ja by simp_all
  from A' [rule_format, OF h0(1)] h0(2) obtain opnd target off where
    o: "operands (lines ! 0) = [opnd]"
    and w0: "wss ! 0 = [make_instr_word (if is_instr (lines ! 0) ''JMP'' then 13 else 14) 5 0 0,
                         off]"
    and t: "off + (line_addr ctx ! 0 + 2) = target"
    and k: "kind opnd = LabelRef \<and>
              (\<exists>j<length lines. label (lines ! j) = otext opnd \<and> target = line_addr ctx ! j)
            \<or> kind opnd = RawNumber \<and> parse_number16 (otext opnd) = Inr target"
    by blast
  from w0 h0(2) have w: "wss ! 0 = [make_instr_word 13 5 0 0, off]"
    by simp
  from o la have opnd: "opnd = \<lparr>kind = LabelRef, otext = ''b''\<rparr>" by simp
  with k la have "target = line_addr ctx ! 1"
    by (auto simp add: less_Suc_eq)
  with A o w t opnd la ja have first: "\<exists>lines ctx wss opnd off.
         parse_lines 1 (getlines ex_jumps) = Inr lines \<and> pass1 lines init_ctx = Inr ctx \<and>
         ex_jumps_words = concat wss \<and> is_instr (lines ! 0) ''JMP'' \<and>
         operands (lines ! 0) = [opnd] \<and> kind opnd = LabelRef \<and>
         label (lines ! 1) = otext opnd \<and>
         wss ! 0 = [make_instr_word 13 5 0 0, off] \<and>
         off + (line_addr ctx ! 0 + 2) = line_addr ctx ! 1"
    by (intro exI [of _ lines] exI [of _ ctx] exI [of _ wss] exI [of _ opnd] exI [of _ off]) simp
  from pc_relative_offset [of ex_jumps ex_jumps_words ex_jumps_words] a b
  obtain lines st wss where
    B: "parse_lines_p2 (getlines ex_jumps) = Inr lines" "pass1_p2 lines init_p2 = Inr st"
      "ex_jumps_words = concat wss"
    and B': "\<forall>i<length lines. is_instr_p2 (lines ! i) ''JMP'' \<or> is_instr_p2 (lines ! i) ''JZ'' \<longrightarrow>
            (\<exists>opnd target off.
               operands_p2 (lines ! i) = [opnd] \<and>
               (kind_p2 opnd = KLabel \<and>
                  (\<exists>j<length lines. label_p2 (lines ! j) = otext_p2 opnd \<and>
                      target = line_addr_p2 st ! j)
                \<or> kind_p2 opnd = KNumber \<and> parse_number16_p2 (otext_p2 opnd) = Inr target) \<and>
               wss ! i = [make_instr_word (if is_instr_p2 (lines ! i) ''JMP'' then 13 else 14)
                            5 0 0, off] \<and>
               off + (line_addr_p2 st ! i + 2) = target)"
    by blast
  from B(1) pb have lb: "lines = [?m0, ?m1]" by simp
  have njmp: "\<not> is_instr_p2 ?m1 ''JMP''" by code_simp
  have h1: "1 < length lines" "is_instr_p2 (lines ! 1) ''JZ''"
    "\<not> is_instr_p2 (lines ! 1) ''JMP''"
    using lb jb njmp by simp_all
  from B' [rule_format, OF h1(1)] h1(2) obtain opnd target off where
    o: "operands_p2 (lines ! 1) = [opnd]"
    and w1: "wss ! 1 = [make_instr_word (if is_instr_p2 (lines ! 1) ''JMP'' then 13 else 14)
                          5 0 0, off]"
    and t: "off + (line_addr_p2 st ! 1 + 2) = target"
    and k: "kind_p2 opnd = KLabel \<and>
              (\<exists>j<length lines. label_p2 (lines ! j) = otext_p2 opnd \<and>
                  target = line_addr_p2 st ! j)
            \<or> kind_p2 opnd = KNumber \<and> parse_number16_p2 (otext_p2 opnd) = Inr target"
    by blast
  from w1 h1(3) have w: "wss ! 1 = [make_instr_word 14 5 0 0, off]"
    by simp
  from o lb have opnd: "opnd = \<lparr>kind_p2 = KLabel, otext_p2 = ''A''\<rparr>" by simp
  with k lb have "target = line_addr_p2 st ! 0"
    by (auto simp add: less_Suc_eq)
  with B o w t opnd lb jb have second: "\<exists>lines st wss opnd off.
         parse_lines_p2 (getlines ex_jumps) = Inr lines \<and> pass1_p2 lines init_p2 = Inr st \<and>
         ex_jumps_words = concat wss \<and> is_instr_p2 (lines ! 1) ''JZ'' \<and>
         operands_p2 (lines ! 1) = [opnd] \<and> kind_p2 opnd = KLabel \<and>
         label_p2 (lines ! 0) = otext_p2 opnd \<and>
         wss ! 1 = [make_instr_word 14 5 0 0, off] \<and>
         off + (line_addr_p2 st ! 1 + 2) = line_addr_p2 st ! 0"
    by (intro exI [of _ lines] exI [of _ st] exI [of _ wss] exI [of _ opnd] exI [of _ off]) simp
  from a b first second show ?thesis by blast
qed

section \<open>Label references and failures\<close>

lemma is_dir_iff: "is_dir pl d \<longleftrightarrow> lkind pl = Directive \<and> map toupper (op pl) = map toupper d"
  by (simp add: is_dir_def iequals_iff)

lemma is_dir_p2_iff:
  "is_dir_p2 l d \<longleftrightarrow> op_p2 l \<noteq> [] \<and> is_directive l \<and> map toupper (op_p2 l) = map toupper d"
  by (simp add: is_dir_p2_def iequals_iff)



lemma enc_WORD:
  assumes "is_dir pl ''.word''"
  shows "encode_line ctx a pl =
     (if length (operands pl) \<noteq> 1 then Inl (runtime_error ''.word expects one operand'')
      else if kind (operands pl ! 0) = RawNumber then
        bind (parse_number16 (otext (operands pl ! 0))) (\<lambda>value. Inr [value])
      else if kind (operands pl ! 0) = LabelRef then
        bind (lookup_symbol ctx (otext (operands pl ! 0))) (\<lambda>value. Inr [value])
      else Inl (runtime_error ''Unsupported operand for .word''))"
  using assms by (auto simp add: is_dir_def encode_line_def iequals_iff)

lemma enc_p2_WORD:
  assumes "is_dir_p2 l ''.WORD''"
  shows "encode_line_p2 syms a l =
     (if length (operands_p2 l) \<noteq> 1 then Inl (runtime_error ''.word expects one operand'')
      else if kind_p2 (operands_p2 l ! 0) = KNumber then
        bind (parse_number16_p2 (otext_p2 (operands_p2 l ! 0))) (\<lambda>v. Inr [v])
      else if kind_p2 (operands_p2 l ! 0) = KLabel then
        bind (symbols_at syms (otext_p2 (operands_p2 l ! 0))) (\<lambda>v. Inr [v])
      else Inl (runtime_error ''Unsupported .word operand''))"
  using assms by (auto simp add: is_dir_p2_def encode_line_p2_def iequals_iff)

lemma assemble_via_passes:
  assumes "parse_lines 1 (getlines source) = Inr lines" and "pass1 lines init_ctx = Inr ctx"
  shows "assemble_words source = pass2 lines ctx"
    and "assemble source = bind (pass2 lines ctx) (\<lambda>words. Inr (pack_bytes words))"
  using assms by (simp_all add: assemble_def assemble_words_def)

lemma assemble_p2_via_passes:
  assumes "parse_lines_p2 (getlines source) = Inr lines" and "pass1_p2 lines init_p2 = Inr st"
  shows "assemble_words_p2 source = pass2_p2 lines st"
    and "assemble_p2 source = bind (pass2_p2 lines st) (\<lambda>words. Inr (pack_bytes words))"
  using assms by (simp_all add: assemble_p2_def assemble_words_p2_def)

text \<open>A line that fails to encode makes \<^verbatim>\<open>assemble\<close> fail; the first such line decides
  the error.\<close>

lemma assemble_line_error:
  assumes p: "parse_lines 1 (getlines source) = Inr lines"
    and p1: "pass1 lines init_ctx = Inr ctx"
    and i: "i < length lines"
    and e: "encode_line ctx (line_addr ctx ! i) (lines ! i) = Inl e"
  shows "\<exists>e'. assemble source = Inl e'"
    and "(\<forall>k<i. \<exists>w. encode_line ctx (line_addr ctx ! k) (lines ! k) = Inr w)
           \<Longrightarrow> assemble source = Inl e"
proof -
  note len = pass1_init_tables(1) [OF p1]
  let ?zs = "zip lines (line_addr ctx)"
  have zi: "i < length ?zs" using i len by simp
  have ze: "encode_line ctx (snd (?zs ! i)) (fst (?zs ! i)) = Inl e"
    using e i len by simp
  from pass2_loop_fails [OF zi ze] show "\<exists>e'. assemble source = Inl e'"
    by (auto simp add: assemble_via_passes(2) [OF p p1] pass2_def)
  assume "\<forall>k<i. \<exists>w. encode_line ctx (line_addr ctx ! k) (lines ! k) = Inr w"
  then have "\<forall>k<i. \<exists>w. encode_line ctx (snd (?zs ! k)) (fst (?zs ! k)) = Inr w"
    using i len by simp
  from pass2_loop_first_error [OF zi this ze] show "assemble source = Inl e"
    by (simp add: assemble_via_passes(2) [OF p p1] pass2_def)
qed

lemma assemble_p2_line_error:
  assumes p: "parse_lines_p2 (getlines source) = Inr lines"
    and p1: "pass1_p2 lines init_p2 = Inr st"
    and i: "i < length lines"
    and e: "encode_line_p2 (symbols_p2 st) (line_addr_p2 st ! i) (lines ! i) = Inl e"
  shows "\<exists>e'. assemble_p2 source = Inl e'"
    and "(\<forall>k<i. \<exists>w. encode_line_p2 (symbols_p2 st) (line_addr_p2 st ! k) (lines ! k) = Inr w)
           \<Longrightarrow> assemble_p2 source = Inl e"
proof -
  note len = pass1_p2_init_tables(1) [OF p1]
  let ?zs = "zip lines (line_addr_p2 st)"
  have zi: "i < length ?zs" using i len by simp
  have ze: "encode_line_p2 (symbols_p2 st) (snd (?zs ! i)) (fst (?zs ! i)) = Inl e"
    using e i len by simp
  from pass2_loop_p2_fails [OF zi ze] show "\<exists>e'. assemble_p2 source = Inl e'"
    by (auto simp add: assemble_p2_via_passes(2) [OF p p1] pass2_p2_def)
  assume "\<forall>k<i. \<exists>w. encode_line_p2 (symbols_p2 st) (line_addr_p2 st ! k) (lines ! k) = Inr w"
  then have "\<forall>k<i. \<exists>w. encode_line_p2 (symbols_p2 st) (snd (?zs ! k)) (fst (?zs ! k)) = Inr w"
    using i len by simp
  from pass2_loop_p2_first_error [OF zi this ze] show "assemble_p2 source = Inl e"
    by (simp add: assemble_p2_via_passes(2) [OF p p1] pass2_p2_def)
qed

lemma pass1_init_dom:
  assumes "pass1 lines init_ctx = Inr ctx"
  shows "syms_of ctx name = None \<longleftrightarrow> name \<notin> set (labels_of lines)"
proof -
  note tab = pass1_init_tables(2) [OF assms, of name]
  have "name \<in> set (labels_of lines) \<longleftrightarrow>
          name \<noteq> [] \<and> (\<exists>j<length lines. label (lines ! j) = name)"
    by (force simp add: labels_of_def in_set_conv_nth)
  with tab show ?thesis
    by (cases "syms_of ctx name") auto
qed

lemma pass1_p2_init_dom:
  assumes "pass1_p2 lines init_p2 = Inr st"
  shows "symbols_p2 st name = None \<longleftrightarrow> name \<notin> set (labels_of_p2 lines)"
proof -
  note tab = pass1_p2_init_tables(2) [OF assms, of name]
  have "name \<in> set (labels_of_p2 lines) \<longleftrightarrow>
          name \<noteq> [] \<and> (\<exists>j<length lines. label_p2 (lines ! j) = name)"
    by (force simp add: labels_of_p2_def in_set_conv_nth)
  with tab show ?thesis
    by (cases "symbols_p2 st name") auto
qed

lemma label_ref_line:
  assumes p1: "pass1 lines init_ctx = Inr ctx"
    and ref: "is_instr pl ''JMP'' \<or> is_instr pl ''JZ'' \<or> is_dir pl ''.word''"
    and ops: "operands pl = [\<lparr>kind = LabelRef, otext = name\<rparr>]"
  shows "j < length lines \<Longrightarrow> name \<noteq> [] \<Longrightarrow> label (lines ! j) = name \<Longrightarrow>
           encode_line ctx a pl =
             Inr (if is_dir pl ''.word'' then [line_addr ctx ! j]
                  else [make_instr_word (if is_instr pl ''JMP'' then 13 else 14) 5 0 0,
                        line_addr ctx ! j - (a + 2)])"
    and "name \<notin> set (labels_of lines) \<Longrightarrow>
           encode_line ctx a pl = Inl (runtime_error (''Unknown label: '' @ name))"
proof -
  note tab = pass1_init_tables [OF p1]
  have excl: "\<not> (is_dir pl ''.word'' \<and> (is_instr pl ''JMP'' \<or> is_instr pl ''JZ''))"
    by (auto simp add: is_dir_def is_instr_def)
  have jmp: "is_instr pl ''JMP'' \<longleftrightarrow> lkind pl = Instruction \<and> map toupper (op pl) = ''JMP''"
    by (simp add: is_instr_iff)
  {
    assume "j < length lines" "name \<noteq> []" "label (lines ! j) = name"
    then have "syms_of ctx name = Some (line_addr ctx ! j)"
      unfolding tab(2) by blast
    then have look: "lookup_symbol ctx name = Inr (line_addr ctx ! j)"
      by (simp add: lookup_symbol_eq)
    from ref show "encode_line ctx a pl =
             Inr (if is_dir pl ''.word'' then [line_addr ctx ! j]
                  else [make_instr_word (if is_instr pl ''JMP'' then 13 else 14) 5 0 0,
                        line_addr ctx ! j - (a + 2)])"
    proof (elim disjE)
      assume d: "is_dir pl ''.word''"
      with excl show ?thesis
        by (simp add: enc_WORD [OF d] ops look)
    next
      assume i: "is_instr pl ''JMP''"
      then have "\<not> is_dir pl ''.word''" using excl by blast
      with i show ?thesis
        by (simp add: enc_JUMP ops look offset16_eq is_instr_iff)
    next
      assume i: "is_instr pl ''JZ''"
      then have "\<not> is_dir pl ''.word''" using excl by blast
      moreover from i have "\<not> is_instr pl ''JMP''" by (auto simp add: is_instr_iff)
      ultimately show ?thesis using i
        by (simp add: enc_JUMP ops look offset16_eq is_instr_iff)
    qed
  next
    assume "name \<notin> set (labels_of lines)"
    then have "syms_of ctx name = None"
      by (simp add: pass1_init_dom [OF p1])
    then have look: "lookup_symbol ctx name = Inl (runtime_error (''Unknown label: '' @ name))"
      by (simp add: lookup_symbol_eq)
    from ref show "encode_line ctx a pl = Inl (runtime_error (''Unknown label: '' @ name))"
    proof (elim disjE)
      assume d: "is_dir pl ''.word''"
      show ?thesis by (simp add: enc_WORD [OF d] ops look)
    next
      assume i: "is_instr pl ''JMP''"
      then show ?thesis by (simp add: enc_JUMP ops look is_instr_iff)
    next
      assume i: "is_instr pl ''JZ''"
      then show ?thesis by (simp add: enc_JUMP ops look is_instr_iff)
    qed
  }
qed

lemma label_ref_line_p2:
  assumes p1: "pass1_p2 lines init_p2 = Inr st"
    and ref: "is_instr_p2 l ''JMP'' \<or> is_instr_p2 l ''JZ'' \<or> is_dir_p2 l ''.WORD''"
    and ops: "operands_p2 l = [\<lparr>kind_p2 = KLabel, otext_p2 = name\<rparr>]"
  shows "j < length lines \<Longrightarrow> name \<noteq> [] \<Longrightarrow> label_p2 (lines ! j) = name \<Longrightarrow>
           encode_line_p2 (symbols_p2 st) a l =
             Inr (if is_dir_p2 l ''.WORD'' then [line_addr_p2 st ! j]
                  else [make_instr_word (if is_instr_p2 l ''JMP'' then 13 else 14) 5 0 0,
                        line_addr_p2 st ! j - (a + 2)])"
    and "name \<notin> set (labels_of_p2 lines) \<Longrightarrow>
           encode_line_p2 (symbols_p2 st) a l =
             Inl (if is_dir_p2 l ''.WORD'' then at_out_of_range
                  else runtime_error (''Unknown label in jump: '' @ name))"
proof -
  note tab = pass1_p2_init_tables [OF p1]
  have excl: "\<not> (is_dir_p2 l ''.WORD'' \<and> (is_instr_p2 l ''JMP'' \<or> is_instr_p2 l ''JZ''))"
    by (auto simp add: is_dir_p2_def is_instr_p2_def)
  {
    assume "j < length lines" "name \<noteq> []" "label_p2 (lines ! j) = name"
    then have look: "symbols_p2 st name = Some (line_addr_p2 st ! j)"
      unfolding tab(2) by blast
    from ref show "encode_line_p2 (symbols_p2 st) a l =
             Inr (if is_dir_p2 l ''.WORD'' then [line_addr_p2 st ! j]
                  else [make_instr_word (if is_instr_p2 l ''JMP'' then 13 else 14) 5 0 0,
                        line_addr_p2 st ! j - (a + 2)])"
    proof (elim disjE)
      assume d: "is_dir_p2 l ''.WORD''"
      with excl show ?thesis
        by (simp add: enc_p2_WORD [OF d] ops look symbols_at_def)
    next
      assume i: "is_instr_p2 l ''JMP''"
      then have "\<not> is_dir_p2 l ''.WORD''" using excl by blast
      with i show ?thesis
        by (simp add: enc_p2_JUMP ops look offset16_eq is_instr_p2_iff)
    next
      assume i: "is_instr_p2 l ''JZ''"
      then have "\<not> is_dir_p2 l ''.WORD''" using excl by blast
      moreover from i have "\<not> is_instr_p2 l ''JMP''" by (auto simp add: is_instr_p2_iff)
      ultimately show ?thesis using i
        by (simp add: enc_p2_JUMP ops look offset16_eq is_instr_p2_iff)
    qed
  next
    assume "name \<notin> set (labels_of_p2 lines)"
    then have look: "symbols_p2 st name = None"
      by (simp add: pass1_p2_init_dom [OF p1])
    from ref show "encode_line_p2 (symbols_p2 st) a l =
             Inl (if is_dir_p2 l ''.WORD'' then at_out_of_range
                  else runtime_error (''Unknown label in jump: '' @ name))"
    proof (elim disjE)
      assume d: "is_dir_p2 l ''.WORD''"
      show ?thesis by (simp add: enc_p2_WORD [OF d] ops look symbols_at_def d)
    next
      assume i: "is_instr_p2 l ''JMP''"
      then have "\<not> is_dir_p2 l ''.WORD''" using excl by blast
      with i show ?thesis by (simp add: enc_p2_JUMP ops look is_instr_p2_iff)
    next
      assume i: "is_instr_p2 l ''JZ''"
      then have "\<not> is_dir_p2 l ''.WORD''" using excl by blast
      with i show ?thesis by (simp add: enc_p2_JUMP ops look is_instr_p2_iff)
    qed
  }
qed

text \<open>
  Claim C7, as stated, fails: the second line of \<open>ex_undef\<close> is a jump to a label that no
  line defines, yet \<^verbatim>\<open>assemble\<close> fails with the error of the unknown mnemonic on the first
  line, which Pass 2 meets first. In the second source a \<^verbatim>\<open>.word\<close> with an undefined
  label fails with the \<^verbatim>\<open>std::out_of_range\<close> of \<^verbatim>\<open>unordered_map::at\<close>, not with a
  label error of the assembler's own.
\<close>

theorem undefined_label_counterexample:
  "parse_lines 1 (getlines ex_undef) = Inr ex_undef_lines
   \<and> is_instr (ex_undef_lines ! 1) ''JMP''
   \<and> operands (ex_undef_lines ! 1) = [\<lparr>kind = LabelRef, otext = ''nowhere''\<rparr>]
   \<and> labels_of ex_undef_lines = []
   \<and> assemble ex_undef = Inl (runtime_error ''Unknown instruction'')
   \<and> assemble_p2 ex_undef = Inl (runtime_error ''Unsupported instruction: FOO'')
   \<and> parse_lines_p2 (getlines ex_word_undef_p2) = Inr ex_word_undef_lines_p2
   \<and> assemble_p2 ex_word_undef_p2 = Inl at_out_of_range"
  by code_simp

text \<open>
  Claim C7, amended. After a successful Pass 1, take a jump or \<^verbatim>\<open>.word\<close> line whose single
  operand is a label reference. If some line of the source defines the label, before or
  after the referencing line, the line encodes with the Pass-1 address of the defining
  line as its target (the \<^verbatim>\<open>.word\<close> emits it, the jump emits the offset to it). If no line
  defines it, encoding the line fails: with \<^verbatim>\<open>Unknown label: NAME\<close> in the first source;
  in the second with \<^verbatim>\<open>Unknown label in jump: NAME\<close> for a jump and with the
  \<^verbatim>\<open>std::out_of_range\<close> of \<^verbatim>\<open>unordered_map::at\<close> for a \<^verbatim>\<open>.word\<close>. Then \<^verbatim>\<open>assemble\<close>
  fails, and it fails with this very error when every earlier line encodes.
\<close>

theorem label_reference_resolution:
  "(pass1 lines init_ctx = Inr ctx \<longrightarrow> i < length lines \<longrightarrow>
      is_instr (lines ! i) ''JMP'' \<or> is_instr (lines ! i) ''JZ'' \<or> is_dir (lines ! i) ''.word'' \<longrightarrow>
      operands (lines ! i) = [\<lparr>kind = LabelRef, otext = name\<rparr>] \<longrightarrow>
        (j < length lines \<longrightarrow> name \<noteq> [] \<longrightarrow> label (lines ! j) = name \<longrightarrow>
           encode_line ctx (line_addr ctx ! i) (lines ! i) =
             Inr (if is_dir (lines ! i) ''.word'' then [line_addr ctx ! j]
                  else [make_instr_word (if is_instr (lines ! i) ''JMP'' then 13 else 14) 5 0 0,
                        line_addr ctx ! j - (line_addr ctx ! i + 2)])) \<and>
        (name \<notin> set (labels_of lines) \<longrightarrow>
           encode_line ctx (line_addr ctx ! i) (lines ! i) =
             Inl (runtime_error (''Unknown label: '' @ name)) \<and>
           (parse_lines 1 (getlines source) = Inr lines \<longrightarrow>
              (\<exists>e. assemble source = Inl e) \<and>
              ((\<forall>k<i. \<exists>w. encode_line ctx (line_addr ctx ! k) (lines ! k) = Inr w) \<longrightarrow>
                 assemble source = Inl (runtime_error (''Unknown label: '' @ name))))))
   \<and> (pass1_p2 lines' init_p2 = Inr st \<longrightarrow> i' < length lines' \<longrightarrow>
      is_instr_p2 (lines' ! i') ''JMP'' \<or> is_instr_p2 (lines' ! i') ''JZ''
        \<or> is_dir_p2 (lines' ! i') ''.WORD'' \<longrightarrow>
      operands_p2 (lines' ! i') = [\<lparr>kind_p2 = KLabel, otext_p2 = name'\<rparr>] \<longrightarrow>
        (j' < length lines' \<longrightarrow> name' \<noteq> [] \<longrightarrow> label_p2 (lines' ! j') = name' \<longrightarrow>
           encode_line_p2 (symbols_p2 st) (line_addr_p2 st ! i') (lines' ! i') =
             Inr (if is_dir_p2 (lines' ! i') ''.WORD'' then [line_addr_p2 st ! j']
                  else [make_instr_word (if is_instr_p2 (lines' ! i') ''JMP'' then 13 else 14)
                          5 0 0,
                        line_addr_p2 st ! j' - (line_addr_p2 st ! i' + 2)])) \<and>
        (name' \<notin> set (labels_of_p2 lines') \<longrightarrow>
           encode_line_p2 (symbols_p2 st) (line_addr_p2 st ! i') (lines' ! i') =
             Inl (if is_dir_p2 (lines' ! i') ''.WORD'' then at_out_of_range
                  else runtime_error (''Unknown label in jump: '' @ name')) \<and>
           (parse_lines_p2 (getlines source') = Inr lines' \<longrightarrow>
              (\<exists>e. assemble_p2 source' = Inl e) \<and>
              ((\<forall>k<i'. \<exists>w. encode_line_p2 (symbols_p2 st) (line_addr_p2 st ! k) (lines' ! k)
                           = Inr w) \<longrightarrow>
                 assemble_p2 source' =
                   Inl (if is_dir_p2 (lines' ! i') ''.WORD'' then at_out_of_range
                        else runtime_error (''Unknown label in jump: '' @ name'))))))"
proof (intro conjI impI)
  assume p1: "pass1 lines init_ctx = Inr ctx" and i: "i < length lines"
    and ref: "is_instr (lines ! i) ''JMP'' \<or> is_instr (lines ! i) ''JZ''
                \<or> is_dir (lines ! i) ''.word''"
    and ops: "operands (lines ! i) = [\<lparr>kind = LabelRef, otext = name\<rparr>]"
  note r = label_ref_line [OF p1 ref ops]
  {
    assume "j < length lines" "name \<noteq> []" "label (lines ! j) = name"
    then show "encode_line ctx (line_addr ctx ! i) (lines ! i) =
             Inr (if is_dir (lines ! i) ''.word'' then [line_addr ctx ! j]
                  else [make_instr_word (if is_instr (lines ! i) ''JMP'' then 13 else 14) 5 0 0,
                        line_addr ctx ! j - (line_addr ctx ! i + 2)])"
      by (rule r(1))
  next
    assume u: "name \<notin> set (labels_of lines)"
    show e: "encode_line ctx (line_addr ctx ! i) (lines ! i) =
             Inl (runtime_error (''Unknown label: '' @ name))"
      by (rule r(2) [OF u])
    assume p: "parse_lines 1 (getlines source) = Inr lines"
    show "\<exists>e. assemble source = Inl e"
      by (rule assemble_line_error(1) [OF p p1 i e])
    assume "\<forall>k<i. \<exists>w. encode_line ctx (line_addr ctx ! k) (lines ! k) = Inr w"
    then show "assemble source = Inl (runtime_error (''Unknown label: '' @ name))"
      by (rule assemble_line_error(2) [OF p p1 i e])
  }
next
  assume p1: "pass1_p2 lines' init_p2 = Inr st" and i: "i' < length lines'"
    and ref: "is_instr_p2 (lines' ! i') ''JMP'' \<or> is_instr_p2 (lines' ! i') ''JZ''
        \<or> is_dir_p2 (lines' ! i') ''.WORD''"
    and ops: "operands_p2 (lines' ! i') = [\<lparr>kind_p2 = KLabel, otext_p2 = name'\<rparr>]"
  note r = label_ref_line_p2 [OF p1 ref ops]
  {
    assume "j' < length lines'" "name' \<noteq> []" "label_p2 (lines' ! j') = name'"
    then show "encode_line_p2 (symbols_p2 st) (line_addr_p2 st ! i') (lines' ! i') =
             Inr (if is_dir_p2 (lines' ! i') ''.WORD'' then [line_addr_p2 st ! j']
                  else [make_instr_word (if is_instr_p2 (lines' ! i') ''JMP'' then 13 else 14)
                          5 0 0,
                        line_addr_p2 st ! j' - (line_addr_p2 st ! i' + 2)])"
      by (rule r(1))
  next
    assume u: "name' \<notin> set (labels_of_p2 lines')"
    show e: "encode_line_p2 (symbols_p2 st) (line_addr_p2 st ! i') (lines' ! i') =
             Inl (if is_dir_p2 (lines' ! i') ''.WORD'' then at_out_of_range
                  else runtime_error (''Unknown label in jump: '' @ name'))"
      by (rule r(2) [OF u])
    assume p: "parse_lines_p2 (getlines source') = Inr lines'"
    show "\<exists>e. assemble_p2 source' = Inl e"
      by (rule assemble_p2_line_error(1) [OF p p1 i e])
    assume "\<forall>k<i'. \<exists>w. encode_line_p2 (symbols_p2 st) (line_addr_p2 st ! k) (lines' ! k)
                           = Inr w"
    then show "assemble_p2 source' =
                   Inl (if is_dir_p2 (lines' ! i') ''.WORD'' then at_out_of_range
                        else runtime_error (''Unknown label in jump: '' @ name'))"
      by (rule assemble_p2_line_error(2) [OF p p1 i e])
  }
qed

theorem label_reference_resolution_witness:
  "pass1 ex_jumps_lines init_ctx = Inr ex_jumps_ctx
   \<and> is_instr (ex_jumps_lines ! 0) ''JMP'' \<and> label (ex_jumps_lines ! 1) = ''b''
   \<and> encode_line ex_jumps_ctx (line_addr ex_jumps_ctx ! 0) (ex_jumps_lines ! 0)
        = Inr [make_instr_word 13 5 0 0, 0]
   \<and> pass1 ex_word_lines init_ctx = Inr ex_word_ctx
   \<and> is_dir (ex_word_lines ! 0) ''.word'' \<and> label (ex_word_lines ! 1) = ''y''
   \<and> encode_line ex_word_ctx (line_addr ex_word_ctx ! 0) (ex_word_lines ! 0) = Inr [0x8001]
   \<and> parse_lines 1 (getlines ex_jz_undef) = Inr ex_jz_undef_lines
   \<and> is_instr (ex_jz_undef_lines ! 0) ''JZ''
   \<and> assemble ex_jz_undef = Inl (runtime_error ''Unknown label: nowhere'')
   \<and> (\<exists>st. pass1_p2 ex_word_lines_p2 init_p2 = Inr st \<and>
         encode_line_p2 (symbols_p2 st) (line_addr_p2 st ! 0) (ex_word_lines_p2 ! 0)
           = Inr [0x8001])
   \<and> parse_lines_p2 (getlines ex_word_undef_p2) = Inr ex_word_undef_lines_p2
   \<and> is_dir_p2 (ex_word_undef_lines_p2 ! 0) ''.WORD''
   \<and> assemble_p2 ex_word_undef_p2 = Inl at_out_of_range
   \<and> parse_lines_p2 (getlines ex_jump_undef_p2) = Inr ex_jump_undef_lines_p2
   \<and> is_instr_p2 (ex_jump_undef_lines_p2 ! 1) ''JMP''
   \<and> assemble_p2 ex_jump_undef_p2 = Inl (runtime_error ''Unknown label in jump: NOWHERE'')"
proof -
  note A = label_reference_resolution [THEN conjunct1, rule_format]
  note B = label_reference_resolution [THEN conjunct2, rule_format]
  \<comment> \<open>first source, a forward jump to a defined label\<close>
  have a1: "pass1 ex_jumps_lines init_ctx = Inr ex_jumps_ctx" by code_simp
  have a2: "(0::nat) < length ex_jumps_lines" "(1::nat) < length ex_jumps_lines"
    by code_simp+
  have a3: "is_instr (ex_jumps_lines ! 0) ''JMP''" by code_simp
  have a4: "operands (ex_jumps_lines ! 0) = [\<lparr>kind = LabelRef, otext = ''b''\<rparr>]"
    by code_simp
  have a5: "label (ex_jumps_lines ! 1) = ''b''" "''b'' \<noteq> []" by code_simp+
  have a6: "\<not> is_dir (ex_jumps_lines ! 0) ''.word''" by code_simp
  have a7: "line_addr ex_jumps_ctx ! 1 - (line_addr ex_jumps_ctx ! 0 + 2) = 0" by code_simp
  from A [OF a1 a2(1) disjI1 [OF a3] a4, THEN conjunct1, rule_format, OF a2(2) a5(2) a5(1)]
  have r1: "encode_line ex_jumps_ctx (line_addr ex_jumps_ctx ! 0) (ex_jumps_lines ! 0)
        = Inr [make_instr_word 13 5 0 0, 0]"
    by (simp only: a3 a6 a7 if_True if_False)
  \<comment> \<open>first source, Pass 2 on a \<^verbatim>\<open>.word\<close> line with a defined label\<close>
  have b1: "pass1 ex_word_lines init_ctx = Inr ex_word_ctx" by code_simp
  have b2: "(0::nat) < length ex_word_lines" "(1::nat) < length ex_word_lines"
    by code_simp+
  have b3: "is_dir (ex_word_lines ! 0) ''.word''" by code_simp
  have b4: "operands (ex_word_lines ! 0) = [\<lparr>kind = LabelRef, otext = ''y''\<rparr>]"
    by code_simp
  have b5: "label (ex_word_lines ! 1) = ''y''" "''y'' \<noteq> []" by code_simp+
  have b7: "line_addr ex_word_ctx ! 1 = 0x8001" by code_simp
  from A [OF b1 b2(1) disjI2 [OF disjI2 [OF b3]] b4, THEN conjunct1, rule_format,
      OF b2(2) b5(2) b5(1)]
  have r2: "encode_line ex_word_ctx (line_addr ex_word_ctx ! 0) (ex_word_lines ! 0)
        = Inr [0x8001]"
    by (simp only: b3 b7 if_True)
  \<comment> \<open>first source, a jump to an undefined label\<close>
  have c0: "parse_lines 1 (getlines ex_jz_undef) = Inr ex_jz_undef_lines" by code_simp
  have c1: "pass1 ex_jz_undef_lines init_ctx = Inr ex_jz_undef_ctx" by code_simp
  have c2: "(0::nat) < length ex_jz_undef_lines" by code_simp
  have c3: "is_instr (ex_jz_undef_lines ! 0) ''JZ''" by code_simp
  have c4: "operands (ex_jz_undef_lines ! 0) = [\<lparr>kind = LabelRef, otext = ''nowhere''\<rparr>]"
    by code_simp
  have c5: "''nowhere'' \<notin> set (labels_of ex_jz_undef_lines)" by code_simp
  have c6: "''Unknown label: '' @ ''nowhere'' = ''Unknown label: nowhere''" by simp
  from A [OF c1 c2 disjI2 [OF disjI1 [OF c3]] c4, THEN conjunct2, rule_format, OF c5,
      THEN conjunct2, rule_format, OF c0, THEN conjunct2]
  have r3: "assemble ex_jz_undef = Inl (runtime_error ''Unknown label: nowhere'')"
    by (simp only: c6 not_less_zero simp_thms)
  \<comment> \<open>second source, a \<^verbatim>\<open>.word\<close> with a label defined on a later line\<close>
  have d1: "case pass1_p2 ex_word_lines_p2 init_p2 of
              Inl e \<Rightarrow> False | Inr st \<Rightarrow> line_addr_p2 st ! 1 = 0x8001"
    by code_simp
  then obtain st where d1': "pass1_p2 ex_word_lines_p2 init_p2 = Inr st"
    and d7: "line_addr_p2 st ! 1 = 0x8001"
    by (cases "pass1_p2 ex_word_lines_p2 init_p2") auto
  have d2: "(0::nat) < length ex_word_lines_p2" "(1::nat) < length ex_word_lines_p2"
    by code_simp+
  have d3: "is_dir_p2 (ex_word_lines_p2 ! 0) ''.WORD''" by code_simp
  have d4: "operands_p2 (ex_word_lines_p2 ! 0) = [\<lparr>kind_p2 = KLabel, otext_p2 = ''Y''\<rparr>]"
    by code_simp
  have d5: "label_p2 (ex_word_lines_p2 ! 1) = ''Y''" "''Y'' \<noteq> []" by code_simp+
  from B [OF d1' d2(1) disjI2 [OF disjI2 [OF d3]] d4, THEN conjunct1, rule_format,
      OF d2(2) d5(2) d5(1)]
  have "encode_line_p2 (symbols_p2 st) (line_addr_p2 st ! 0) (ex_word_lines_p2 ! 0)
           = Inr [0x8001]"
    by (simp only: d3 d7 if_True)
  with d1' have r4: "\<exists>st. pass1_p2 ex_word_lines_p2 init_p2 = Inr st \<and>
         encode_line_p2 (symbols_p2 st) (line_addr_p2 st ! 0) (ex_word_lines_p2 ! 0)
           = Inr [0x8001]"
    by blast
  \<comment> \<open>second source, a \<^verbatim>\<open>.word\<close> with an undefined label\<close>
  have e0: "parse_lines_p2 (getlines ex_word_undef_p2) = Inr ex_word_undef_lines_p2"
    by code_simp
  have e1: "case pass1_p2 ex_word_undef_lines_p2 init_p2 of Inl e \<Rightarrow> False | Inr st \<Rightarrow> True"
    by code_simp
  then obtain st' where e1': "pass1_p2 ex_word_undef_lines_p2 init_p2 = Inr st'"
    by (cases "pass1_p2 ex_word_undef_lines_p2 init_p2") auto
  have e2: "(0::nat) < length ex_word_undef_lines_p2" by code_simp
  have e3: "is_dir_p2 (ex_word_undef_lines_p2 ! 0) ''.WORD''" by code_simp
  have e4: "operands_p2 (ex_word_undef_lines_p2 ! 0)
      = [\<lparr>kind_p2 = KLabel, otext_p2 = ''NOWHERE''\<rparr>]"
    by code_simp
  have e5: "''NOWHERE'' \<notin> set (labels_of_p2 ex_word_undef_lines_p2)" by code_simp
  from B [OF e1' e2 disjI2 [OF disjI2 [OF e3]] e4, THEN conjunct2, rule_format, OF e5,
      THEN conjunct2, rule_format, OF e0, THEN conjunct2]
  have r5: "assemble_p2 ex_word_undef_p2 = Inl at_out_of_range"
    by (simp only: e3 if_True not_less_zero simp_thms)
  \<comment> \<open>second source, a jump to an undefined label after a line that encodes\<close>
  have f0: "parse_lines_p2 (getlines ex_jump_undef_p2) = Inr ex_jump_undef_lines_p2"
    by code_simp
  have f1: "case pass1_p2 ex_jump_undef_lines_p2 init_p2 of
              Inl e \<Rightarrow> False | Inr st \<Rightarrow> line_addr_p2 st ! 0 = 0x8000"
    by code_simp
  then obtain st'' where f1': "pass1_p2 ex_jump_undef_lines_p2 init_p2 = Inr st''"
    and f7: "line_addr_p2 st'' ! 0 = 0x8000"
    by (cases "pass1_p2 ex_jump_undef_lines_p2 init_p2") auto
  have f2: "(1::nat) < length ex_jump_undef_lines_p2" by code_simp
  have f3: "is_instr_p2 (ex_jump_undef_lines_p2 ! 1) ''JMP''" by code_simp
  have f3': "\<not> is_dir_p2 (ex_jump_undef_lines_p2 ! 1) ''.WORD''" by code_simp
  have f4: "operands_p2 (ex_jump_undef_lines_p2 ! 1)
      = [\<lparr>kind_p2 = KLabel, otext_p2 = ''NOWHERE''\<rparr>]"
    by code_simp
  have f5: "''NOWHERE'' \<notin> set (labels_of_p2 ex_jump_undef_lines_p2)" by code_simp
  have f6: "is_instr_p2 (ex_jump_undef_lines_p2 ! 0) ''NOP''" by code_simp
  have f8: "\<forall>k<1. \<exists>w. encode_line_p2 (symbols_p2 st'') (line_addr_p2 st'' ! k)
                          (ex_jump_undef_lines_p2 ! k) = Inr w"
    using f6 by (simp add: is_instr_p2_iff enc_p2_NOP_HALT)
  have f9: "''Unknown label in jump: '' @ ''NOWHERE'' = ''Unknown label in jump: NOWHERE''"
    by simp
  from B [OF f1' f2 disjI1 [OF f3] f4, THEN conjunct2, rule_format, OF f5,
      THEN conjunct2, rule_format, OF f0, THEN conjunct2, rule_format, OF f8 [rule_format]]
  have r6: "assemble_p2 ex_jump_undef_p2 = Inl (runtime_error ''Unknown label in jump: NOWHERE'')"
    by (simp only: f3' if_False f9)
  from a1 a3 a5(1) r1 b1 b3 b5(1) r2 c0 c3 r3 r4 e0 e3 r5 f0 f3 r6
  show ?thesis by (intro conjI)
qed

section \<open>Unsupported mnemonics and duplicate labels\<close>

lemma symbol_exists_line_addr [simp]:
  "symbol_exists (ctx\<lparr>line_addr := x\<rparr>) n = symbol_exists ctx n"
  by (simp add: symbol_exists_def)

lemma syms_of_line_addr [simp]: "syms_of (ctx\<lparr>line_addr := x\<rparr>) = syms_of ctx"
  by (simp add: syms_of_def)

text \<open>Pass 1 on an instruction line with an unknown mnemonic: only the tables change.\<close>

lemma pass1_line_unknown:
  assumes "lkind pl = Instruction" and "\<not> has_instr (upper_str (op pl))"
  shows "pass1_line pl ctx =
     (if label pl \<noteq> [] \<and> symbol_exists ctx (label pl)
      then Inl (runtime_error ''Duplicate label'')
      else Inr (ctx\<lparr>line_addr := line_addr ctx @ [current_addr_words ctx],
                    symbols := (if label pl \<noteq> []
                                then symbols ctx @ [(label pl, current_addr_words ctx)]
                                else symbols ctx)\<rparr>))"
  using assms by (simp add: pass1_line_def Let_def)

lemma pass1_line_p2_unknown:
  assumes "op_p2 l \<noteq> []" and "\<not> is_directive l" and "opcode_of_p2 (op_p2 l) = Inl e"
  shows "pass1_line_p2 l st =
     (if label_p2 l \<noteq> [] \<and> symbols_p2 st (label_p2 l) \<noteq> None
      then Inl (runtime_error (''Duplicate label: '' @ label_p2 l))
      else Inr (st\<lparr>line_addr_p2 := line_addr_p2 st @ [addr st],
                   symbols_p2 := (if label_p2 l \<noteq> []
                                  then (symbols_p2 st)(label_p2 l \<mapsto> addr st)
                                  else symbols_p2 st)\<rparr>))"
  using assms
  by (auto simp add: pass1_line_p2_def Let_def opcode_of_p2_eq iequals_iff split: if_splits)

text \<open>A source that parses and holds a line that Pass 2 rejects never assembles.\<close>

lemma assemble_fails_of_bad_line:
  assumes p: "parse_lines 1 (getlines source) = Inr lines" and i: "i < length lines"
    and bad: "\<And>ctx a. \<exists>e. encode_line ctx a (lines ! i) = Inl e"
  shows "\<exists>e. assemble source = Inl e"
proof (cases "pass1 lines init_ctx")
  case (Inl e)
  with p show ?thesis by (simp add: assemble_def assemble_words_def)
next
  case (Inr ctx)
  from bad obtain e where "encode_line ctx (line_addr ctx ! i) (lines ! i) = Inl e"
    by blast
  from assemble_line_error(1) [OF p Inr i this] show ?thesis .
qed

lemma assemble_p2_fails_of_bad_line:
  assumes p: "parse_lines_p2 (getlines source) = Inr lines" and i: "i < length lines"
    and bad: "\<And>syms a. \<exists>e. encode_line_p2 syms a (lines ! i) = Inl e"
  shows "\<exists>e. assemble_p2 source = Inl e"
proof (cases "pass1_p2 lines init_p2")
  case (Inl e)
  with p show ?thesis by (simp add: assemble_p2_def assemble_words_p2_def)
next
  case (Inr st)
  from bad obtain e where
    "encode_line_p2 (symbols_p2 st) (line_addr_p2 st ! i) (lines ! i) = Inl e"
    by blast
  from assemble_p2_line_error(1) [OF p Inr i this] show ?thesis .
qed

text \<open>Duplicate labels stop Pass 1.\<close>

lemma pass1_line_dup:
  assumes "label pl \<noteq> []" and "syms_of ctx (label pl) \<noteq> None"
  shows "pass1_line pl ctx = Inl (runtime_error ''Duplicate label'')"
  using assms by (simp add: pass1_line_def Let_def symbol_exists_iff)

lemma pass1_line_p2_dup:
  assumes "label_p2 l \<noteq> []" and "symbols_p2 st (label_p2 l) \<noteq> None"
  shows "pass1_line_p2 l st = Inl (runtime_error (''Duplicate label: '' @ label_p2 l))"
  using assms by (simp add: pass1_line_p2_def Let_def)

lemma pass1_prefix_dup:
  assumes pre: "pass1 pre init_ctx = Inr ctx"
    and l: "label pl \<noteq> []" "label pl \<in> set (labels_of pre)"
  shows "pass1 (pre @ pl # post) init_ctx = Inl (runtime_error ''Duplicate label'')"
proof -
  from l(2) have "syms_of ctx (label pl) \<noteq> None"
    by (simp add: pass1_init_dom [OF pre])
  from pass1_line_dup [OF l(1) this] pre show ?thesis
    by (simp add: pass1_append)
qed

lemma pass1_p2_prefix_dup:
  assumes pre: "pass1_p2 pre init_p2 = Inr st"
    and l: "label_p2 l \<noteq> []" "label_p2 l \<in> set (labels_of_p2 pre)"
  shows "pass1_p2 (pre @ l # post) init_p2 =
           Inl (runtime_error (''Duplicate label: '' @ label_p2 l))"
proof -
  from l(2) have "symbols_p2 st (label_p2 l) \<noteq> None"
    by (simp add: pass1_p2_init_dom [OF pre])
  from pass1_line_p2_dup [OF l(1) this] pre show ?thesis
    by (simp add: pass1_p2_append)
qed

lemma pass1_fails_of_dup:
  assumes "\<not> distinct (labels_of lines)"
  shows "\<exists>e. pass1 lines init_ctx = Inl e"
proof (cases "pass1 lines init_ctx")
  case (Inl e)
  then show ?thesis by blast
next
  case (Inr ctx)
  from pass1_init_tables(3) [OF this] assms show ?thesis by blast
qed

lemma pass1_p2_fails_of_dup:
  assumes "\<not> distinct (labels_of_p2 lines)"
  shows "\<exists>e. pass1_p2 lines init_p2 = Inl e"
proof (cases "pass1_p2 lines init_p2")
  case (Inl e)
  then show ?thesis by blast
next
  case (Inr st)
  from pass1_p2_init_tables(3) [OF this] assms show ?thesis by blast
qed

text \<open>Without directives, a duplicate label is the only way Pass 1 of the first source
  can fail; in the second source the same holds without \<^verbatim>\<open>.org\<close> lines.\<close>

lemma pass1_line_error_no_directive:
  assumes "pass1_line pl ctx = Inl e" and "lkind pl \<noteq> Directive"
  shows "e = runtime_error ''Duplicate label''"
  using assms
  by (auto simp add: pass1_line_def Let_def bind_eq_Inl split: if_splits)

lemma pass1_error_no_directive:
  assumes "pass1 lines ctx = Inl e" and "\<forall>pl\<in>set lines. lkind pl \<noteq> Directive"
  shows "e = runtime_error ''Duplicate label''"
  using assms
proof (induction lines arbitrary: ctx)
  case Nil
  then show ?case by simp
next
  case (Cons pl pls)
  from Cons.prems(1) consider "pass1_line pl ctx = Inl e"
    | ctx1 where "pass1_line pl ctx = Inr ctx1" "pass1 pls ctx1 = Inl e"
    by (auto simp add: bind_eq_Inl)
  then show ?case
  proof cases
    case 1
    with Cons.prems(2) show ?thesis
      by (auto dest: pass1_line_error_no_directive)
  next
    case 2
    with Cons.IH [of ctx1] Cons.prems(2) show ?thesis by simp
  qed
qed

lemma pass1_line_p2_error_no_org:
  assumes "pass1_line_p2 l st = Inl e" and "\<not> is_dir_p2 l ''.ORG''"
  shows "e = runtime_error (''Duplicate label: '' @ label_p2 l) \<and> label_p2 l \<noteq> []"
  using assms
  by (auto simp add: pass1_line_p2_def Let_def bind_eq_Inl is_dir_p2_def split: if_splits)

lemma pass1_p2_error_no_org:
  assumes "pass1_p2 lines st = Inl e" and "\<forall>l\<in>set lines. \<not> is_dir_p2 l ''.ORG''"
  shows "\<exists>name\<in>set (labels_of_p2 lines). e = runtime_error (''Duplicate label: '' @ name)"
  using assms
proof (induction lines arbitrary: st)
  case Nil
  then show ?case by simp
next
  case (Cons l ls)
  from Cons.prems(1) consider "pass1_line_p2 l st = Inl e"
    | st1 where "pass1_line_p2 l st = Inr st1" "pass1_p2 ls st1 = Inl e"
    by (auto simp add: bind_eq_Inl)
  then show ?case
  proof cases
    case 1
    with Cons.prems(2) pass1_line_p2_error_no_org [of l st e] show ?thesis
      by (auto simp add: labels_of_p2_Cons)
  next
    case 2
    with Cons.IH [of st1] Cons.prems(2) show ?thesis
      by (auto simp add: labels_of_p2_Cons)
  qed
qed

text \<open>The first tokenizer never produces an identifier that starts with a dot, so the
  lines it feeds to the passes are never directives.\<close>

lemma tokenize_from_blank:
  "is_blank c \<Longrightarrow> tokenize_from n i (c # cs) = tokenize_from n (i + 1) cs"
  by simp

lemma tokenize_from_punct:
  assumes "\<not> is_blank c" and "c \<in> set '',:#[]+''"
  shows "tokenize_from n i (c # cs) =
     push_front \<lparr>ttype = (if c = CHR '','' then Comma else if c = CHR '':'' then Colon
                           else if c = CHR ''#'' then Hash else if c = CHR ''['' then LBracket
                           else if c = CHR '']'' then RBracket else Plus),
                  ttext = [c], tline = n, tcolumn = i\<rparr>
       (tokenize_from n (i + 1) cs)"
  using assms by auto

lemma tokenize_from_number:
  assumes "\<not> is_blank c" and "c \<notin> set '',:#[]+''" and "isdigit c"
  shows "tokenize_from n i (c # cs) =
     push_front
       \<lparr>ttype = Number,
        ttext = c # takeWhile (\<lambda>d. isalnum d \<or> d = CHR ''x'' \<or> d = CHR ''X'') cs,
        tline = n, tcolumn = i\<rparr>
       (tokenize_from n
          (i + 1 + int (length (takeWhile (\<lambda>d. isalnum d \<or> d = CHR ''x'' \<or> d = CHR ''X'') cs)))
          (dropWhile (\<lambda>d. isalnum d \<or> d = CHR ''x'' \<or> d = CHR ''X'') cs))"
  using assms by (simp add: Let_def)

lemma tokenize_from_word:
  assumes "\<not> is_blank c" and "c \<notin> set '',:#[]+''" and "\<not> isdigit c"
    and "isalpha c \<or> c = CHR ''_''"
  shows "tokenize_from n i (c # cs) =
     push_front
       (if is_register_name (upper_str (c # takeWhile (\<lambda>d. isalnum d \<or> d = CHR ''_'') cs))
        then \<lparr>ttype = Register,
              ttext = upper_str (c # takeWhile (\<lambda>d. isalnum d \<or> d = CHR ''_'') cs),
              tline = n, tcolumn = i\<rparr>
        else \<lparr>ttype = Identifier, ttext = c # takeWhile (\<lambda>d. isalnum d \<or> d = CHR ''_'') cs,
              tline = n, tcolumn = i\<rparr>)
       (tokenize_from n
          (i + 1 + int (length (takeWhile (\<lambda>d. isalnum d \<or> d = CHR ''_'') cs)))
          (dropWhile (\<lambda>d. isalnum d \<or> d = CHR ''_'') cs))"
  using assms by (simp add: Let_def)

lemma tokenize_from_bad:
  assumes "\<not> is_blank c" and "c \<notin> set '',:#[]+''" and "\<not> isdigit c"
    and "\<not> (isalpha c \<or> c = CHR ''_'')"
  shows "tokenize_from n i (c # cs) = Inl (runtime_error ''Unexpected character in source'')"
  using assms by simp

lemma tokenize_from_identifier:
  "tokenize_from n i s = Inr toks \<Longrightarrow> t \<in> set toks \<Longrightarrow> ttype t = Identifier \<Longrightarrow>
     ttext t \<noteq> [] \<and> hd (ttext t) \<noteq> CHR ''.''"
proof (induction s arbitrary: i toks rule: length_induct)
  case (1 s)
  note IH = "1.IH" [rule_format]
  show ?case
  proof (cases s)
    case Nil
    with "1.prems" show ?thesis by simp
  next
    case (Cons c cs)
    have dot: "\<not> isalpha CHR ''.''" "CHR ''.'' \<noteq> CHR ''_''"
      by (simp_all add: isalpha_def isupper_def islower_def)
    let ?num = "\<lambda>d. isalnum d \<or> d = CHR ''x'' \<or> d = CHR ''X''"
    let ?idc = "\<lambda>d. isalnum d \<or> d = CHR ''_''"
    have short: "length cs < length s" "length (dropWhile ?num cs) < length s"
      "length (dropWhile ?idc cs) < length s"
      using Cons length_dropWhile_le [of ?num cs] length_dropWhile_le [of ?idc cs]
      by simp_all
    consider (blank) "is_blank c"
      | (punct) "\<not> is_blank c" "c \<in> set '',:#[]+''"
      | (num) "\<not> is_blank c" "c \<notin> set '',:#[]+''" "isdigit c"
      | (ident) "\<not> is_blank c" "c \<notin> set '',:#[]+''" "\<not> isdigit c" "isalpha c \<or> c = CHR ''_''"
      | (bad) "\<not> is_blank c" "c \<notin> set '',:#[]+''" "\<not> isdigit c" "\<not> (isalpha c \<or> c = CHR ''_'')"
      by blast
    then show ?thesis
    proof cases
      case blank
      with "1.prems" Cons have "tokenize_from n (i + 1) cs = Inr toks"
        by (simp only: tokenize_from_blank)
      from IH [OF short(1) this "1.prems"(2,3)] show ?thesis .
    next
      case punct
      from "1.prems"(1) obtain tok rest where
        toks: "toks = tok # rest" and r: "tokenize_from n (i + 1) cs = Inr rest"
        and tk: "ttype tok \<noteq> Identifier"
        unfolding Cons tokenize_from_punct [OF punct] push_front_eq_Inr
        by (auto split: if_splits)
      with "1.prems"(2,3) have "t \<in> set rest" by auto
      from IH [OF short(1) r this "1.prems"(3)] show ?thesis .
    next
      case num
      from "1.prems"(1) obtain tok rest where
        toks: "toks = tok # rest"
        and r: "tokenize_from n (i + 1 + int (length (takeWhile ?num cs))) (dropWhile ?num cs)
                  = Inr rest"
        and tk: "ttype tok \<noteq> Identifier"
        unfolding Cons tokenize_from_number [OF num] push_front_eq_Inr
        by auto
      with "1.prems"(2,3) have "t \<in> set rest" by auto
      from IH [OF short(2) r this "1.prems"(3)] show ?thesis .
    next
      case ident
      from "1.prems"(1) obtain tok rest where
        toks: "toks = tok # rest"
        and r: "tokenize_from n (i + 1 + int (length (takeWhile ?idc cs))) (dropWhile ?idc cs)
                  = Inr rest"
        and tk: "ttype tok = Identifier \<longrightarrow> ttext tok = c # takeWhile ?idc cs"
        unfolding Cons tokenize_from_word [OF ident] push_front_eq_Inr
        by (auto split: if_splits)
      from "1.prems"(2) toks consider "t = tok" | "t \<in> set rest" by auto
      then show ?thesis
      proof cases
        case 1
        with tk "1.prems"(3) ident dot show ?thesis by auto
      next
        case 2
        from IH [OF short(3) r this "1.prems"(3)] show ?thesis .
      qed
    next
      case bad
      from "1.prems"(1) show ?thesis
        unfolding Cons tokenize_from_bad [OF bad] by simp
    qed
  qed
qed


lemma parse_tokens_no_directive:
  assumes "parse_tokens toks = Inr pl"
    and "\<forall>t\<in>set toks. ttype t = Identifier \<longrightarrow> ttext t \<noteq> [] \<and> hd (ttext t) \<noteq> CHR ''.''"
  shows "lkind pl \<noteq> Directive"
proof (cases "toks = []")
  case True
  with assms(1) show ?thesis by (auto simp add: parse_tokens_def)
next
  case False
  let ?has = "1 < length toks \<and> ttype (toks ! 0) = Identifier \<and> ttype (toks ! 1) = Colon"
  let ?rest = "if ?has then drop 2 toks else toks"
  show ?thesis
  proof (cases ?rest)
    case Nil
    with assms(1) False show ?thesis
      by (auto simp add: parse_tokens_def Let_def)
  next
    case (Cons t ts)
    then have "t \<in> set ?rest" by simp
    then have mem: "t \<in> set toks"
      by (auto dest: in_set_dropD split: if_splits)
    from assms(1) False Cons have ty: "ttype t = Identifier"
      and k: "lkind pl = (if ttext t \<noteq> [] \<and> hd (ttext t) = CHR ''.'' then Directive
                          else Instruction)"
      by (auto simp add: parse_tokens_def Let_def bind_eq_Inr split: if_splits)
    from assms(2) mem ty have "hd (ttext t) \<noteq> CHR ''.''" by blast
    with k show ?thesis by simp
  qed
qed

lemma parse_lines_no_directive:
  "parse_lines n ls = Inr lines \<Longrightarrow> pl \<in> set lines \<Longrightarrow> lkind pl \<noteq> Directive"
proof (induction ls arbitrary: n lines)
  case Nil
  then show ?case by simp
next
  case (Cons ln lns)
  show ?case
  proof (cases "trim ln = []")
    case True
    with Cons.prems Cons.IH show ?thesis by simp
  next
    case False
    with Cons.prems(1) obtain toks p rest where
      tk: "tokenize_line ln n = Inr toks" and ps: "parse_tokens toks = Inr p"
      and r: "parse_lines (n + 1) lns = Inr rest" and l: "lines = p # rest"
      by (auto simp add: bind_eq_Inr push_front_eq_Inr)
    from tk have "\<forall>t\<in>set toks. ttype t = Identifier \<longrightarrow>
        ttext t \<noteq> [] \<and> hd (ttext t) \<noteq> CHR ''.''"
      unfolding tokenize_line_def by (blast dest: tokenize_from_identifier)
    from parse_tokens_no_directive [OF ps this] have "lkind p \<noteq> Directive" .
    with Cons.prems(2) l Cons.IH [OF r] show ?thesis by auto
  qed
qed

text \<open>
  Claim C4, as stated, fails. In \<open>ex_unsup_late\<close> every line tokenizes and parses and the
  second line has the unsupported mnemonic \<^verbatim>\<open>FOO\<close>, yet \<^verbatim>\<open>assemble\<close> fails with the operand
  error of the \<^verbatim>\<open>ADD\<close> on the first line, which Pass 2 meets first. In \<open>ex_unsup_dup\<close>
  the line with the unsupported mnemonic repeats a label, and the failure is raised in
  Pass 1.
\<close>

theorem unsupported_mnemonic_counterexample:
  "parse_lines 1 (getlines ex_unsup_late) = Inr ex_unsup_late_lines
   \<and> lkind (ex_unsup_late_lines ! 1) = Instruction
   \<and> \<not> has_instr (upper_str (op (ex_unsup_late_lines ! 1)))
   \<and> assemble ex_unsup_late = Inl (runtime_error ''ADD expects two operands'')
   \<and> parse_lines_p2 (getlines ex_unsup_late) = Inr ex_unsup_late_lines_p2
   \<and> opcode_of_p2 (op_p2 (ex_unsup_late_lines_p2 ! 1))
        = Inl (runtime_error ''Unsupported instruction: FOO'')
   \<and> assemble_p2 ex_unsup_late = Inl (runtime_error ''ADD expects two operands'')
   \<and> assemble ex_unsup_dup = Inl (runtime_error ''Duplicate label'')
   \<and> assemble_p2 ex_unsup_dup = Inl (runtime_error ''Duplicate label: A'')"
  by code_simp

text \<open>
  Claim C4, amended. Take an instruction line whose mnemonic is none of \<^verbatim>\<open>NOP\<close>,
  \<^verbatim>\<open>HALT\<close>, \<^verbatim>\<open>ADD\<close>, \<^verbatim>\<open>JMP\<close>, \<^verbatim>\<open>JZ\<close>. Pass 1 does not reject it and sizes it as
  zero words: it records the line address and the label (only a repeated label fails) and
  leaves the address counter as it is. Pass 2 rejects it, with \<^verbatim>\<open>Unknown instruction\<close> in
  the first source and \<^verbatim>\<open>Unsupported instruction: OP\<close> in the second. A source whose
  lines all tokenize and parse and that holds such a line never assembles and yields no
  bytes; \<^verbatim>\<open>assemble\<close> fails with the error of this line when Pass 1 succeeds and every
  earlier line encodes.
\<close>

theorem unsupported_mnemonic:
  "(lkind pl = Instruction \<longrightarrow> \<not> has_instr (upper_str (op pl)) \<longrightarrow>
      pass1_line pl ctx =
        (if label pl \<noteq> [] \<and> symbol_exists ctx (label pl)
         then Inl (runtime_error ''Duplicate label'')
         else Inr (ctx\<lparr>line_addr := line_addr ctx @ [current_addr_words ctx],
                       symbols := (if label pl \<noteq> []
                                   then symbols ctx @ [(label pl, current_addr_words ctx)]
                                   else symbols ctx)\<rparr>)) \<and>
      (\<forall>c. pass1_line pl ctx = Inr c \<longrightarrow> current_addr_words c = current_addr_words ctx) \<and>
      encode_line ctx2 a pl = Inl (runtime_error ''Unknown instruction'') \<and>
      (parse_lines 1 (getlines source) = Inr lines \<longrightarrow> i < length lines \<longrightarrow> lines ! i = pl \<longrightarrow>
         (\<exists>e. assemble source = Inl e) \<and> (\<forall>bytes. assemble source \<noteq> Inr bytes) \<and>
         (pass1 lines init_ctx = Inr ctx1 \<longrightarrow>
          (\<forall>k<i. \<exists>w. encode_line ctx1 (line_addr ctx1 ! k) (lines ! k) = Inr w) \<longrightarrow>
            assemble source = Inl (runtime_error ''Unknown instruction''))))
   \<and> (op_p2 l \<noteq> [] \<longrightarrow> \<not> is_directive l \<longrightarrow>
      opcode_of_p2 (op_p2 l) = Inl (runtime_error (''Unsupported instruction: '' @ op_p2 l)) \<longrightarrow>
      pass1_line_p2 l st =
        (if label_p2 l \<noteq> [] \<and> symbols_p2 st (label_p2 l) \<noteq> None
         then Inl (runtime_error (''Duplicate label: '' @ label_p2 l))
         else Inr (st\<lparr>line_addr_p2 := line_addr_p2 st @ [addr st],
                      symbols_p2 := (if label_p2 l \<noteq> []
                                     then (symbols_p2 st)(label_p2 l \<mapsto> addr st)
                                     else symbols_p2 st)\<rparr>)) \<and>
      (\<forall>s. pass1_line_p2 l st = Inr s \<longrightarrow> addr s = addr st) \<and>
      encode_line_p2 syms a' l = Inl (runtime_error (''Unsupported instruction: '' @ op_p2 l)) \<and>
      (parse_lines_p2 (getlines source') = Inr lines' \<longrightarrow> i' < length lines' \<longrightarrow>
       lines' ! i' = l \<longrightarrow>
         (\<exists>e. assemble_p2 source' = Inl e) \<and> (\<forall>bytes. assemble_p2 source' \<noteq> Inr bytes) \<and>
         (pass1_p2 lines' init_p2 = Inr st1 \<longrightarrow>
          (\<forall>k<i'. \<exists>w. encode_line_p2 (symbols_p2 st1) (line_addr_p2 st1 ! k) (lines' ! k)
                       = Inr w) \<longrightarrow>
            assemble_p2 source' = Inl (runtime_error (''Unsupported instruction: '' @ op_p2 l)))))"
proof (intro conjI impI allI)
  assume k: "lkind pl = Instruction" and u: "\<not> has_instr (upper_str (op pl))"
  show p1: "pass1_line pl ctx =
        (if label pl \<noteq> [] \<and> symbol_exists ctx (label pl)
         then Inl (runtime_error ''Duplicate label'')
         else Inr (ctx\<lparr>line_addr := line_addr ctx @ [current_addr_words ctx],
                       symbols := (if label pl \<noteq> []
                                   then symbols ctx @ [(label pl, current_addr_words ctx)]
                                   else symbols ctx)\<rparr>))"
    by (rule pass1_line_unknown [OF k u])
  show "current_addr_words c = current_addr_words ctx" if "pass1_line pl ctx = Inr c" for c
    using that unfolding p1 by (auto split: if_splits)
  show e: "encode_line ctx2 a pl = Inl (runtime_error ''Unknown instruction'')" for ctx2 a
    by (rule enc_unknown [OF k u])
  assume p: "parse_lines 1 (getlines source) = Inr lines" and i: "i < length lines"
    and l: "lines ! i = pl"
  have "\<And>ctx a. \<exists>e. encode_line ctx a (lines ! i) = Inl e"
    unfolding l using e by blast
  from assemble_fails_of_bad_line [OF p i this]
  show f: "\<exists>e. assemble source = Inl e" .
  then show "assemble source \<noteq> Inr bytes" for bytes by auto
  assume p1: "pass1 lines init_ctx = Inr ctx1"
    and "\<forall>k<i. \<exists>w. encode_line ctx1 (line_addr ctx1 ! k) (lines ! k) = Inr w"
  with assemble_line_error(2) [OF p p1 i, of "runtime_error ''Unknown instruction''"] e l
  show "assemble source = Inl (runtime_error ''Unknown instruction'')"
    by blast
next
  assume o: "op_p2 l \<noteq> []" and d: "\<not> is_directive l"
    and u: "opcode_of_p2 (op_p2 l) = Inl (runtime_error (''Unsupported instruction: '' @ op_p2 l))"
  show p1: "pass1_line_p2 l st =
        (if label_p2 l \<noteq> [] \<and> symbols_p2 st (label_p2 l) \<noteq> None
         then Inl (runtime_error (''Duplicate label: '' @ label_p2 l))
         else Inr (st\<lparr>line_addr_p2 := line_addr_p2 st @ [addr st],
                      symbols_p2 := (if label_p2 l \<noteq> []
                                     then (symbols_p2 st)(label_p2 l \<mapsto> addr st)
                                     else symbols_p2 st)\<rparr>))"
    by (rule pass1_line_p2_unknown [OF o d u])
  show "addr s = addr st" if "pass1_line_p2 l st = Inr s" for s
    using that unfolding p1 by (auto split: if_splits)
  show e: "encode_line_p2 syms a' l = Inl (runtime_error (''Unsupported instruction: '' @ op_p2 l))"
    for syms a'
    by (rule enc_p2_unknown [OF o d u])
  assume p: "parse_lines_p2 (getlines source') = Inr lines'" and i: "i' < length lines'"
    and l: "lines' ! i' = l"
  have "\<And>syms a. \<exists>e. encode_line_p2 syms a (lines' ! i') = Inl e"
    unfolding l using e by blast
  from assemble_p2_fails_of_bad_line [OF p i this]
  show f: "\<exists>e. assemble_p2 source' = Inl e" .
  then show "assemble_p2 source' \<noteq> Inr bytes" for bytes by auto
  assume p1: "pass1_p2 lines' init_p2 = Inr st1"
    and "\<forall>k<i'. \<exists>w. encode_line_p2 (symbols_p2 st1) (line_addr_p2 st1 ! k) (lines' ! k)
                       = Inr w"
  with assemble_p2_line_error(2) [OF p p1 i,
      of "runtime_error (''Unsupported instruction: '' @ op_p2 l)"] e l
  show "assemble_p2 source' = Inl (runtime_error (''Unsupported instruction: '' @ op_p2 l))"
    by blast
qed

theorem unsupported_mnemonic_witness:
  "parse_lines 1 (getlines ex_unsup) = Inr ex_unsup_lines
   \<and> lkind (ex_unsup_lines ! 1) = Instruction
   \<and> \<not> has_instr (upper_str (op (ex_unsup_lines ! 1)))
   \<and> pass1_line (ex_unsup_lines ! 1) init_ctx =
        Inr \<lparr>current_addr_words = 0x8000, symbols = [(''x'', 0x8000)], line_addr = [0x8000]\<rparr>
   \<and> encode_line init_ctx 0x8001 (ex_unsup_lines ! 1) = Inl (runtime_error ''Unknown instruction'')
   \<and> assemble ex_unsup = Inl (runtime_error ''Unknown instruction'')
   \<and> parse_lines_p2 (getlines ex_unsup) = Inr ex_unsup_lines_p2
   \<and> op_p2 (ex_unsup_lines_p2 ! 1) = ''FOO'' \<and> \<not> is_directive (ex_unsup_lines_p2 ! 1)
   \<and> (\<exists>s. pass1_line_p2 (ex_unsup_lines_p2 ! 1) init_p2 = Inr s \<and> addr s = 0x8000 \<and>
          line_addr_p2 s = [0x8000] \<and> symbols_p2 s ''X'' = Some 0x8000)
   \<and> encode_line_p2 Map.empty 0x8001 (ex_unsup_lines_p2 ! 1)
        = Inl (runtime_error ''Unsupported instruction: FOO'')
   \<and> assemble_p2 ex_unsup = Inl (runtime_error ''Unsupported instruction: FOO'')"
proof -
  note A = unsupported_mnemonic [THEN conjunct1, rule_format]
  note B = unsupported_mnemonic [THEN conjunct2, rule_format]
  have a0: "parse_lines 1 (getlines ex_unsup) = Inr ex_unsup_lines" by code_simp
  have a1: "lkind (ex_unsup_lines ! 1) = Instruction" by code_simp
  have a2: "\<not> has_instr (upper_str (op (ex_unsup_lines ! 1)))" by code_simp
  have a3: "(1::nat) < length ex_unsup_lines" by code_simp
  have a4: "pass1 ex_unsup_lines init_ctx = Inr ex_unsup_ctx" by code_simp
  have a5: "is_instr (ex_unsup_lines ! 0) ''NOP''" by code_simp
  have a6: "\<forall>k<1. \<exists>w. encode_line ex_unsup_ctx (line_addr ex_unsup_ctx ! k) (ex_unsup_lines ! k)
                = Inr w"
    using a5 by (simp add: is_instr_iff enc_NOP_HALT)
  have a7: "(if label (ex_unsup_lines ! 1) \<noteq> [] \<and> symbol_exists init_ctx (label (ex_unsup_lines ! 1))
         then Inl (runtime_error ''Duplicate label'')
         else Inr (init_ctx\<lparr>line_addr := line_addr init_ctx @ [current_addr_words init_ctx],
                       symbols := (if label (ex_unsup_lines ! 1) \<noteq> []
                                   then symbols init_ctx @
                                     [(label (ex_unsup_lines ! 1), current_addr_words init_ctx)]
                                   else symbols init_ctx)\<rparr>))
      = Inr \<lparr>current_addr_words = 0x8000, symbols = [(''x'', 0x8000)], line_addr = [0x8000]\<rparr>"
    by code_simp
  from A [where ctx = init_ctx, OF a1 a2, THEN conjunct1]
  have r1: "pass1_line (ex_unsup_lines ! 1) init_ctx =
        Inr \<lparr>current_addr_words = 0x8000, symbols = [(''x'', 0x8000)], line_addr = [0x8000]\<rparr>"
    by (simp only: a7)
  from A [OF a1 a2, THEN conjunct2, THEN conjunct2, THEN conjunct1]
  have r2: "encode_line init_ctx 0x8001 (ex_unsup_lines ! 1)
      = Inl (runtime_error ''Unknown instruction'')" .
  from A [OF a1 a2, THEN conjunct2, THEN conjunct2, THEN conjunct2, rule_format,
      OF a0 a3 refl, THEN conjunct2, THEN conjunct2, rule_format, OF a4 a6 [rule_format]]
  have r3: "assemble ex_unsup = Inl (runtime_error ''Unknown instruction'')" .
  have b0: "parse_lines_p2 (getlines ex_unsup) = Inr ex_unsup_lines_p2" by code_simp
  have b1: "op_p2 (ex_unsup_lines_p2 ! 1) \<noteq> []" "\<not> is_directive (ex_unsup_lines_p2 ! 1)"
    "op_p2 (ex_unsup_lines_p2 ! 1) = ''FOO''"
    by code_simp+
  have b2: "opcode_of_p2 (op_p2 (ex_unsup_lines_p2 ! 1))
      = Inl (runtime_error (''Unsupported instruction: '' @ op_p2 (ex_unsup_lines_p2 ! 1)))"
    by code_simp
  have b3: "(1::nat) < length ex_unsup_lines_p2" by code_simp
  have b4: "case pass1_p2 ex_unsup_lines_p2 init_p2 of Inl e \<Rightarrow> False | Inr s \<Rightarrow> True"
    by code_simp
  then obtain st where b4': "pass1_p2 ex_unsup_lines_p2 init_p2 = Inr st"
    by (cases "pass1_p2 ex_unsup_lines_p2 init_p2") auto
  have b5: "is_instr_p2 (ex_unsup_lines_p2 ! 0) ''NOP''" by code_simp
  have b6: "\<forall>k<1. \<exists>w. encode_line_p2 (symbols_p2 st) (line_addr_p2 st ! k)
                (ex_unsup_lines_p2 ! k) = Inr w"
    using b5 by (simp add: is_instr_p2_iff enc_p2_NOP_HALT)
  have b7: "label_p2 (ex_unsup_lines_p2 ! 1) = ''X''" by code_simp
  have b8: "''Unsupported instruction: '' @ ''FOO'' = ''Unsupported instruction: FOO''"
    by simp
  from B [where st = init_p2, OF b1(1) b1(2) b2, THEN conjunct1]
  have "pass1_line_p2 (ex_unsup_lines_p2 ! 1) init_p2 =
      Inr (init_p2\<lparr>line_addr_p2 := line_addr_p2 init_p2 @ [addr init_p2],
                    symbols_p2 := (symbols_p2 init_p2)(''X'' \<mapsto> addr init_p2)\<rparr>)"
    unfolding b7 by (simp add: init_p2_def)
  then have r4: "\<exists>s. pass1_line_p2 (ex_unsup_lines_p2 ! 1) init_p2 = Inr s \<and> addr s = 0x8000 \<and>
          line_addr_p2 s = [0x8000] \<and> symbols_p2 s ''X'' = Some 0x8000"
    by (simp add: init_p2_def)
  from B [OF b1(1) b1(2) b2, THEN conjunct2, THEN conjunct2, THEN conjunct1]
  have r5: "encode_line_p2 Map.empty 0x8001 (ex_unsup_lines_p2 ! 1)
        = Inl (runtime_error ''Unsupported instruction: FOO'')"
    by (simp only: b1(3) b8)
  from B [OF b1(1) b1(2) b2, THEN conjunct2, THEN conjunct2, THEN conjunct2, rule_format,
      OF b0 b3 refl, THEN conjunct2, THEN conjunct2, rule_format, OF b4' b6 [rule_format]]
  have r6: "assemble_p2 ex_unsup = Inl (runtime_error ''Unsupported instruction: FOO'')"
    by (simp only: b1(3) b8)
  from a0 a1 a2 r1 r2 r3 b0 b1(3) b1(2) r4 r5 r6 show ?thesis
    by (intro conjI)
qed

text \<open>
  Claim C6, as stated, fails. In \<open>ex_dup_lex\<close> the label \<^verbatim>\<open>a\<close> is defined on lines 1
  and 2 (each parses on its own to a line with that label), but both assemblers tokenize
  and parse every line before Pass 1, so the call fails with the lexical error of line 3.
  In \<open>ex_dup_org\<close> all lines parse in the second source and \<^verbatim>\<open>X\<close> is defined twice, but
  Pass 1 rejects the \<^verbatim>\<open>.org\<close> line between the two definitions first.
\<close>

theorem duplicate_label_counterexample:
  "bind (tokenize_line ''a: NOP'' 1) parse_tokens =
     Inr \<lparr>line_no = 1, label = ''a'', lkind = Instruction, op = ''NOP'', operands = []\<rparr>
   \<and> bind (tokenize_line ''a: NOP'' 2) parse_tokens =
     Inr \<lparr>line_no = 2, label = ''a'', lkind = Instruction, op = ''NOP'', operands = []\<rparr>
   \<and> getlines ex_dup_lex = [''a: NOP'', ''a: NOP'', ''@'']
   \<and> assemble ex_dup_lex = Inl (runtime_error ''Unexpected character in source'')
   \<and> assemble_p2 ex_dup_lex = Inl (runtime_error ''Unexpected character in source line'')
   \<and> parse_lines_p2 (getlines ex_dup_org) = Inr ex_dup_org_lines_p2
   \<and> labels_of_p2 ex_dup_org_lines_p2 = [''X'', ''X'']
   \<and> assemble_p2 ex_dup_org = Inl (runtime_error ''.org expects one numeric or label operand'')"
  by code_simp

text \<open>
  Claim C6, amended. Let every line of the source tokenize and parse, and let two lines
  define the same label (in the second source labels are compared upper-cased). Then
  \<^verbatim>\<open>assemble\<close> fails and returns no bytes. In the first source the error is
  \<^verbatim>\<open>Duplicate label\<close>. In the second source it is \<^verbatim>\<open>Duplicate label: NAME\<close> for the label
  of the first line that repeats one, provided Pass 1 gets that far, which it does when
  the source has no \<^verbatim>\<open>.org\<close> line. At the level of Pass 1 alone: once the lines before
  a definition have passed and one of them defines the same label, Pass 1 stops at that
  definition with the duplicate-label error.
\<close>

theorem duplicate_label:
  "(parse_lines 1 (getlines source) = Inr lines \<longrightarrow> \<not> distinct (labels_of lines) \<longrightarrow>
      assemble source = Inl (runtime_error ''Duplicate label'') \<and>
      (\<forall>bytes. assemble source \<noteq> Inr bytes))
   \<and> (pass1 pre init_ctx = Inr ctx \<longrightarrow> label pl \<noteq> [] \<longrightarrow> label pl \<in> set (labels_of pre) \<longrightarrow>
      pass1 (pre @ pl # post) init_ctx = Inl (runtime_error ''Duplicate label''))
   \<and> (parse_lines_p2 (getlines source') = Inr lines' \<longrightarrow> \<not> distinct (labels_of_p2 lines') \<longrightarrow>
      (\<exists>e. assemble_p2 source' = Inl e) \<and> (\<forall>bytes. assemble_p2 source' \<noteq> Inr bytes) \<and>
      ((\<forall>l\<in>set lines'. \<not> is_dir_p2 l ''.ORG'') \<longrightarrow>
         (\<exists>name\<in>set (labels_of_p2 lines').
            assemble_p2 source' = Inl (runtime_error (''Duplicate label: '' @ name)))) \<and>
      (lines' = pre' @ l # post' \<longrightarrow> pass1_p2 pre' init_p2 = Inr st \<longrightarrow> label_p2 l \<noteq> [] \<longrightarrow>
       label_p2 l \<in> set (labels_of_p2 pre') \<longrightarrow>
         assemble_p2 source' = Inl (runtime_error (''Duplicate label: '' @ label_p2 l))))
   \<and> (pass1_p2 pre' init_p2 = Inr st \<longrightarrow> label_p2 l \<noteq> [] \<longrightarrow>
      label_p2 l \<in> set (labels_of_p2 pre') \<longrightarrow>
      pass1_p2 (pre' @ l # post') init_p2 =
        Inl (runtime_error (''Duplicate label: '' @ label_p2 l)))"
proof (intro conjI impI allI)
  assume p: "parse_lines 1 (getlines source) = Inr lines" and d: "\<not> distinct (labels_of lines)"
  from pass1_fails_of_dup [OF d] obtain e where e: "pass1 lines init_ctx = Inl e" by blast
  have "\<forall>pl\<in>set lines. lkind pl \<noteq> Directive"
    using parse_lines_no_directive [OF p] by blast
  from pass1_error_no_directive [OF e this] e p
  show a: "assemble source = Inl (runtime_error ''Duplicate label'')"
    by (simp add: assemble_def assemble_words_def)
  then show "assemble source \<noteq> Inr bytes" for bytes by simp
next
  assume "pass1 pre init_ctx = Inr ctx" "label pl \<noteq> []" "label pl \<in> set (labels_of pre)"
  then show "pass1 (pre @ pl # post) init_ctx = Inl (runtime_error ''Duplicate label'')"
    by (rule pass1_prefix_dup)
next
  assume p: "parse_lines_p2 (getlines source') = Inr lines'"
    and d: "\<not> distinct (labels_of_p2 lines')"
  from pass1_p2_fails_of_dup [OF d] obtain e where e: "pass1_p2 lines' init_p2 = Inl e"
    by blast
  with p have a: "assemble_p2 source' = Inl e"
    by (simp add: assemble_p2_def assemble_words_p2_def)
  then show "\<exists>e. assemble_p2 source' = Inl e" by blast
  from a show "assemble_p2 source' \<noteq> Inr bytes" for bytes by simp
  {
    assume "\<forall>l\<in>set lines'. \<not> is_dir_p2 l ''.ORG''"
    from pass1_p2_error_no_org [OF e this] a
    show "\<exists>name\<in>set (labels_of_p2 lines').
            assemble_p2 source' = Inl (runtime_error (''Duplicate label: '' @ name))"
      by blast
  next
    assume "lines' = pre' @ l # post'" "pass1_p2 pre' init_p2 = Inr st" "label_p2 l \<noteq> []"
      "label_p2 l \<in> set (labels_of_p2 pre')"
    with pass1_p2_prefix_dup [of pre' st l post'] p
    show "assemble_p2 source' = Inl (runtime_error (''Duplicate label: '' @ label_p2 l))"
      by (simp add: assemble_p2_def assemble_words_p2_def)
  }
next
  assume "pass1_p2 pre' init_p2 = Inr st" "label_p2 l \<noteq> []"
    "label_p2 l \<in> set (labels_of_p2 pre')"
  then show "pass1_p2 (pre' @ l # post') init_p2 =
        Inl (runtime_error (''Duplicate label: '' @ label_p2 l))"
    by (rule pass1_p2_prefix_dup)
qed

theorem duplicate_label_witness:
  "parse_lines 1 (getlines ex_dup) = Inr ex_dup_lines
   \<and> labels_of ex_dup_lines = [''x'', ''x'']
   \<and> assemble ex_dup = Inl (runtime_error ''Duplicate label'')
   \<and> pass1 (take 2 ex_dup_lines @ ex_dup_lines ! 2 # []) init_ctx
        = Inl (runtime_error ''Duplicate label'')
   \<and> parse_lines_p2 (getlines ex_dup) = Inr ex_dup_lines_p2
   \<and> labels_of_p2 ex_dup_lines_p2 = [''X'', ''X'']
   \<and> (\<exists>name\<in>set (labels_of_p2 ex_dup_lines_p2).
         assemble_p2 ex_dup = Inl (runtime_error (''Duplicate label: '' @ name)))
   \<and> assemble_p2 ex_dup = Inl (runtime_error ''Duplicate label: X'')
   \<and> pass1_p2 (take 2 ex_dup_lines_p2 @ ex_dup_lines_p2 ! 2 # []) init_p2
        = Inl (runtime_error ''Duplicate label: X'')"
proof -
  note T = duplicate_label
  have a0: "parse_lines 1 (getlines ex_dup) = Inr ex_dup_lines" by code_simp
  have a1: "labels_of ex_dup_lines = [''x'', ''x'']" by code_simp
  then have a2: "\<not> distinct (labels_of ex_dup_lines)" by simp
  from T [THEN conjunct1, rule_format, OF a0 a2, THEN conjunct1]
  have r1: "assemble ex_dup = Inl (runtime_error ''Duplicate label'')" .
  have a3: "case pass1 (take 2 ex_dup_lines) init_ctx of Inl e \<Rightarrow> False | Inr c \<Rightarrow> True"
    by code_simp
  then obtain c where a3': "pass1 (take 2 ex_dup_lines) init_ctx = Inr c"
    by (cases "pass1 (take 2 ex_dup_lines) init_ctx") auto
  have a4: "label (ex_dup_lines ! 2) \<noteq> []"
    "label (ex_dup_lines ! 2) \<in> set (labels_of (take 2 ex_dup_lines))"
    by code_simp+
  from T [THEN conjunct2, THEN conjunct1, rule_format, OF a3' a4]
  have r2: "pass1 (take 2 ex_dup_lines @ ex_dup_lines ! 2 # []) init_ctx
        = Inl (runtime_error ''Duplicate label'')" .
  have b0: "parse_lines_p2 (getlines ex_dup) = Inr ex_dup_lines_p2" by code_simp
  have b1: "labels_of_p2 ex_dup_lines_p2 = [''X'', ''X'']" by code_simp
  then have b2: "\<not> distinct (labels_of_p2 ex_dup_lines_p2)" by simp
  have b3: "\<forall>l\<in>set ex_dup_lines_p2. \<not> is_dir_p2 l ''.ORG''" by code_simp
  note Bp = T [THEN conjunct2, THEN conjunct2, THEN conjunct1, rule_format, OF b0 b2]
  from Bp [THEN conjunct2, THEN conjunct2, THEN conjunct1, rule_format, OF b3 [rule_format]]
  have r3: "\<exists>name\<in>set (labels_of_p2 ex_dup_lines_p2).
         assemble_p2 ex_dup = Inl (runtime_error (''Duplicate label: '' @ name))" .
  have b4: "case pass1_p2 (take 2 ex_dup_lines_p2) init_p2 of Inl e \<Rightarrow> False | Inr c \<Rightarrow> True"
    by code_simp
  then obtain s where b4': "pass1_p2 (take 2 ex_dup_lines_p2) init_p2 = Inr s"
    by (cases "pass1_p2 (take 2 ex_dup_lines_p2) init_p2") auto
  have b5: "label_p2 (ex_dup_lines_p2 ! 2) \<noteq> []"
    "label_p2 (ex_dup_lines_p2 ! 2) \<in> set (labels_of_p2 (take 2 ex_dup_lines_p2))"
    by code_simp+
  have b6: "ex_dup_lines_p2 = take 2 ex_dup_lines_p2 @ ex_dup_lines_p2 ! 2 # []"
    by code_simp
  have b7: "''Duplicate label: '' @ label_p2 (ex_dup_lines_p2 ! 2) = ''Duplicate label: X''"
    by code_simp
  from Bp [THEN conjunct2, THEN conjunct2, THEN conjunct2, rule_format, OF b6 b4' b5]
  have r4: "assemble_p2 ex_dup = Inl (runtime_error ''Duplicate label: X'')"
    by (simp only: b7)
  from T [THEN conjunct2, THEN conjunct2, THEN conjunct2, rule_format,
      OF b4' b5]
  have r5: "pass1_p2 (take 2 ex_dup_lines_p2 @ ex_dup_lines_p2 ! 2 # []) init_p2
        = Inl (runtime_error ''Duplicate label: X'')"
    by (simp only: b7)
  from a0 a1 r1 r2 b0 b1 r3 r4 r5 show ?thesis by (intro conjI)
qed

section \<open>Commas between operands\<close>

lemma hash_comma_free_tl: "hash_comma_free (t # ts) \<Longrightarrow> hash_comma_free ts"
  by (cases ts) auto

lemma hash_comma_free_p2_tl: "hash_comma_free_p2 (t # ts) \<Longrightarrow> hash_comma_free_p2 ts"
  by (cases ts) auto

lemma parse_operands_drop_commas:
  "hash_comma_free toks \<Longrightarrow> parse_operands (drop_commas toks) = parse_operands toks"
proof (induction toks rule: parse_operands.induct)
  case 1
  show ?case by (simp add: drop_commas_def)
next
  case (2 t ts)
  note tl = hash_comma_free_tl [OF "2.prems"]
  consider (comma) "ttype t = Comma" | (reg) "ttype t = Register" | (hash) "ttype t = Hash"
    | (num) "ttype t = Number" | (ident) "ttype t = Identifier"
    | (other) "ttype t \<notin> {Comma, Register, Hash, Number, Identifier}"
    by blast
  then show ?case
  proof cases
    case comma
    with "2.IH"(1) tl show ?thesis by (simp add: drop_commas_def)
  next
    case reg
    with "2.IH"(2) tl show ?thesis by (simp add: drop_commas_def)
  next
    case hash
    show ?thesis
    proof (cases ts)
      case Nil
      with hash show ?thesis by (simp add: drop_commas_def)
    next
      case (Cons n ts')
      with "2.prems" hash have nc: "ttype n \<noteq> Comma" by simp
      from tl Cons have tl': "hash_comma_free ts'" by (auto dest: hash_comma_free_tl)
      show ?thesis
      proof (cases "ttype n = Number")
        case True
        with "2.IH"(3) [OF _ _ _ Cons] hash tl' Cons nc show ?thesis
          by (simp add: drop_commas_def)
      next
        case False
        with hash Cons nc show ?thesis by (simp add: drop_commas_def)
      qed
    qed
  next
    case num
    with "2.IH"(4) tl show ?thesis by (simp add: drop_commas_def)
  next
    case ident
    with "2.IH"(5) tl show ?thesis by (simp add: drop_commas_def)
  next
    case other
    then show ?thesis by (simp add: drop_commas_def)
  qed
qed

lemma parse_operands_p2_drop_commas:
  "hash_comma_free_p2 toks \<Longrightarrow>
   parse_operands_p2 (drop_commas_p2 toks) = parse_operands_p2 toks"
proof (induction toks rule: parse_operands_p2.induct)
  case 1
  show ?case by (simp add: drop_commas_p2_def)
next
  case (2 t ts)
  note tl = hash_comma_free_p2_tl [OF "2.prems"]
  consider (comma) "ttype_p2 t = TComma" | (reg) "ttype_p2 t = TRegister"
    | (hash) "ttype_p2 t = THash" | (num) "ttype_p2 t = TNumber"
    | (ident) "ttype_p2 t = TIdentifier" | (other) "ttype_p2 t = TColon"
    by (cases "ttype_p2 t") auto
  then show ?case
  proof cases
    case comma
    with "2.IH"(1) tl show ?thesis by (simp add: drop_commas_p2_def)
  next
    case reg
    with "2.IH"(2) tl show ?thesis by (simp add: drop_commas_p2_def)
  next
    case hash
    show ?thesis
    proof (cases ts)
      case Nil
      with hash show ?thesis by (simp add: drop_commas_p2_def)
    next
      case (Cons n ts')
      with "2.prems" hash have nc: "ttype_p2 n \<noteq> TComma" by simp
      from tl Cons have tl': "hash_comma_free_p2 ts'" by (auto dest: hash_comma_free_p2_tl)
      show ?thesis
      proof (cases "ttype_p2 n = TNumber")
        case True
        with "2.IH"(3) [OF _ _ _ Cons] hash tl' Cons nc show ?thesis
          by (simp add: drop_commas_p2_def)
      next
        case False
        with hash Cons nc show ?thesis by (simp add: drop_commas_p2_def)
      qed
    qed
  next
    case num
    with "2.IH"(4) tl show ?thesis by (simp add: drop_commas_p2_def)
  next
    case ident
    with "2.IH"(5) tl show ?thesis by (simp add: drop_commas_p2_def)
  next
    case other
    then show ?thesis by (simp add: drop_commas_p2_def)
  qed
qed

lemma parse_tokens_mnemonic:
  "ttype m = Identifier \<Longrightarrow> (ops \<noteq> [] \<Longrightarrow> ttype (hd ops) \<noteq> Colon) \<Longrightarrow>
   parse_tokens (m # ops) =
     bind (parse_operands ops) (\<lambda>os.
       Inr \<lparr>line_no = tline m, label = [],
            lkind = (if ttext m \<noteq> [] \<and> hd (ttext m) = CHR ''.'' then Directive else Instruction),
            op = ttext m, operands = os\<rparr>)"
  by (cases ops) (simp_all add: parse_tokens_def Let_def)

lemma parse_tokens_label_mnemonic:
  "ttype l = Identifier \<Longrightarrow> ttype c = Colon \<Longrightarrow> ttype m = Identifier \<Longrightarrow>
   parse_tokens (l # c # m # ops) =
     bind (parse_operands ops) (\<lambda>os.
       Inr \<lparr>line_no = tline l, label = ttext l,
            lkind = (if ttext m \<noteq> [] \<and> hd (ttext m) = CHR ''.'' then Directive else Instruction),
            op = ttext m, operands = os\<rparr>)"
  by (simp add: parse_tokens_def Let_def)

lemma parse_line_tokens_mnemonic:
  "ttype_p2 m = TIdentifier \<Longrightarrow> (ops \<noteq> [] \<Longrightarrow> ttype_p2 (hd ops) \<noteq> TColon) \<Longrightarrow>
   parse_line_tokens (m # ops) =
     bind (parse_operands_p2 ops) (\<lambda>os.
       Inr \<lparr>label_p2 = [], op_p2 = ttext_p2 m,
            is_directive = (ttext_p2 m \<noteq> [] \<and> hd (ttext_p2 m) = CHR ''.''),
            operands_p2 = os\<rparr>)"
  by (cases ops) (simp_all add: parse_line_tokens_def Let_def)

lemma parse_line_tokens_label_mnemonic:
  "ttype_p2 l = TIdentifier \<Longrightarrow> ttype_p2 c = TColon \<Longrightarrow> ttype_p2 m = TIdentifier \<Longrightarrow>
   parse_line_tokens (l # c # m # ops) =
     bind (parse_operands_p2 ops) (\<lambda>os.
       Inr \<lparr>label_p2 = ttext_p2 l, op_p2 = ttext_p2 m,
            is_directive = (ttext_p2 m \<noteq> [] \<and> hd (ttext_p2 m) = CHR ''.''),
            operands_p2 = os\<rparr>)"
  by (simp add: parse_line_tokens_def Let_def)


lemma tok_shape_eq:
  "tok_shape a = tok_shape b \<longleftrightarrow> ttype a = ttype b \<and> ttext a = ttext b"
  by (simp add: tok_shape_def)

lemma parse_operands_shape:
  "map tok_shape xs = map tok_shape ys \<Longrightarrow> parse_operands xs = parse_operands ys"
proof (induction xs arbitrary: ys rule: parse_operands.induct)
  case 1
  then show ?case by simp
next
  case (2 t ts)
  from "2.prems" obtain u us where ys: "ys = u # us" and tu: "ttype u = ttype t"
    "ttext u = ttext t" and m: "map tok_shape ts = map tok_shape us"
    by (cases ys) (auto simp add: tok_shape_eq)
  consider (comma) "ttype t = Comma" | (reg) "ttype t = Register" | (hash) "ttype t = Hash"
    | (num) "ttype t = Number" | (ident) "ttype t = Identifier"
    | (other) "ttype t \<notin> {Comma, Register, Hash, Number, Identifier}"
    by blast
  then show ?case
  proof cases
    case comma
    with "2.IH"(1) [OF _ m] ys tu show ?thesis by simp
  next
    case reg
    with "2.IH"(2) [OF _ _ m] ys tu show ?thesis by simp
  next
    case hash
    show ?thesis
    proof (cases ts)
      case Nil
      with m have "us = []" by simp
      with Nil hash ys tu show ?thesis by simp
    next
      case (Cons n ts')
      with m obtain v us' where us: "us = v # us'" and nv: "ttype v = ttype n"
        "ttext v = ttext n" and m': "map tok_shape ts' = map tok_shape us'"
        by (cases us) (auto simp add: tok_shape_eq)
      show ?thesis
      proof (cases "ttype n = Number")
        case True
        with "2.IH"(3) [OF _ _ _ Cons _ m'] hash Cons us nv ys tu show ?thesis by simp
      next
        case False
        with hash Cons us nv ys tu show ?thesis by simp
      qed
    qed
  next
    case num
    with "2.IH"(4) [OF _ _ _ _ m] ys tu show ?thesis by simp
  next
    case ident
    with "2.IH"(5) [OF _ _ _ _ _ m] ys tu show ?thesis by simp
  next
    case other
    with ys tu show ?thesis by simp
  qed
qed

lemma parse_operands_commas:
  assumes "hash_comma_free toks" and "hash_comma_free toks'"
    and "map tok_shape (drop_commas toks) = map tok_shape (drop_commas toks')"
  shows "parse_operands toks = parse_operands toks'"
  using parse_operands_drop_commas [OF assms(1)] parse_operands_drop_commas [OF assms(2)]
    parse_operands_shape [OF assms(3)] by simp

lemma parse_operands_p2_commas:
  assumes "hash_comma_free_p2 toks" and "hash_comma_free_p2 toks'"
    and "drop_commas_p2 toks = drop_commas_p2 toks'"
  shows "parse_operands_p2 toks = parse_operands_p2 toks'"
  using parse_operands_p2_drop_commas [OF assms(1)] parse_operands_p2_drop_commas [OF assms(2)]
    assms(3) by simp

text \<open>
  Claim C10, as stated, fails. A comma token between the hash and the number of an
  immediate operand is not skipped: \<^verbatim>\<open>ADD R0, #5\<close> parses and assembles in both sources,
  \<^verbatim>\<open>ADD R0, #,5\<close> fails in the operand loop.
\<close>

theorem commas_counterexample:
  "bind (tokenize_line ''ADD R0, #5'' 1) parse_tokens =
     Inr \<lparr>line_no = 1, label = [], lkind = Instruction, op = ''ADD'', operands = ex_add_r0_imm5\<rparr>
   \<and> bind (tokenize_line ''ADD R0, #,5'' 1) parse_tokens =
     Inl (runtime_error msg_number_after_hash)
   \<and> assemble ''ADD R0, #5'' = Inr [0, 41, 5, 0]
   \<and> assemble ''ADD R0, #,5'' = Inl (runtime_error msg_number_after_hash)
   \<and> bind (tokenize_line_p2 ''ADD R0, #5'') parse_line_tokens =
     Inr \<lparr>label_p2 = [], op_p2 = ''ADD'', is_directive = False,
          operands_p2 = ex_add_r0_imm5_p2\<rparr>
   \<and> bind (tokenize_line_p2 ''ADD R0, #,5'') parse_line_tokens =
     Inl (runtime_error msg_number_after_hash)
   \<and> assemble_p2 ''ADD R0, #5'' = Inr [0, 41, 5, 0]
   \<and> assemble_p2 ''ADD R0, #,5'' = Inl (runtime_error msg_number_after_hash)"
  by code_simp

text \<open>
  Claim C10, amended. In the operand loop of both line parsers comma tokens are skipped
  wherever they stand, except directly behind a hash token, where a number token is
  required. So for token lists in which no comma directly follows a hash, deleting all
  commas leaves the parsed operand list (or the error) unchanged, and any two such lists
  that agree, comma tokens apart, in the kind and text of their tokens parse to the same
  operands; a line made of a mnemonic, or of a label, a colon and a mnemonic, followed by
  such operand tokens parses to the same line. \<^verbatim>\<open>ADD R0 R1\<close>, \<^verbatim>\<open>ADD R0, R1\<close> and
  \<^verbatim>\<open>ADD R0,,R1\<close> assemble to the same two bytes in both sources.
\<close>

theorem commas_skippable:
  "(hash_comma_free toks \<longrightarrow> parse_operands (drop_commas toks) = parse_operands toks)
   \<and> (hash_comma_free toks \<longrightarrow> hash_comma_free toks' \<longrightarrow>
      map tok_shape (drop_commas toks) = map tok_shape (drop_commas toks') \<longrightarrow>
      parse_operands toks = parse_operands toks' \<and>
      (ttype m = Identifier \<longrightarrow> (toks \<noteq> [] \<longrightarrow> ttype (hd toks) \<noteq> Colon) \<longrightarrow>
       (toks' \<noteq> [] \<longrightarrow> ttype (hd toks') \<noteq> Colon) \<longrightarrow>
         parse_tokens (m # toks) = parse_tokens (m # toks')) \<and>
      (ttype l = Identifier \<longrightarrow> ttype c = Colon \<longrightarrow> ttype m = Identifier \<longrightarrow>
         parse_tokens (l # c # m # toks) = parse_tokens (l # c # m # toks')))
   \<and> (hash_comma_free_p2 ts \<longrightarrow> parse_operands_p2 (drop_commas_p2 ts) = parse_operands_p2 ts)
   \<and> (hash_comma_free_p2 ts \<longrightarrow> hash_comma_free_p2 ts' \<longrightarrow>
      drop_commas_p2 ts = drop_commas_p2 ts' \<longrightarrow>
      parse_operands_p2 ts = parse_operands_p2 ts' \<and>
      (ttype_p2 m' = TIdentifier \<longrightarrow> (ts \<noteq> [] \<longrightarrow> ttype_p2 (hd ts) \<noteq> TColon) \<longrightarrow>
       (ts' \<noteq> [] \<longrightarrow> ttype_p2 (hd ts') \<noteq> TColon) \<longrightarrow>
         parse_line_tokens (m' # ts) = parse_line_tokens (m' # ts')) \<and>
      (ttype_p2 l' = TIdentifier \<longrightarrow> ttype_p2 c' = TColon \<longrightarrow> ttype_p2 m' = TIdentifier \<longrightarrow>
         parse_line_tokens (l' # c' # m' # ts) = parse_line_tokens (l' # c' # m' # ts')))
   \<and> assemble ''ADD R0 R1'' = Inr [4, 40]
   \<and> assemble ''ADD R0, R1'' = Inr [4, 40]
   \<and> assemble ''ADD R0,,R1'' = Inr [4, 40]
   \<and> assemble_p2 ''ADD R0 R1'' = Inr [4, 40]
   \<and> assemble_p2 ''ADD R0, R1'' = Inr [4, 40]
   \<and> assemble_p2 ''ADD R0,,R1'' = Inr [4, 40]"
proof -
  have ex: "assemble ''ADD R0 R1'' = Inr [4, 40] \<and> assemble ''ADD R0, R1'' = Inr [4, 40]
    \<and> assemble ''ADD R0,,R1'' = Inr [4, 40] \<and> assemble_p2 ''ADD R0 R1'' = Inr [4, 40]
    \<and> assemble_p2 ''ADD R0, R1'' = Inr [4, 40] \<and> assemble_p2 ''ADD R0,,R1'' = Inr [4, 40]"
    by code_simp
  have a: "parse_operands (drop_commas toks) = parse_operands toks" if "hash_comma_free toks"
    using that by (rule parse_operands_drop_commas)
  have b: "parse_operands_p2 (drop_commas_p2 ts) = parse_operands_p2 ts"
    if "hash_comma_free_p2 ts"
    using that by (rule parse_operands_p2_drop_commas)
  have c: "parse_operands toks = parse_operands toks' \<and>
      (ttype m = Identifier \<longrightarrow> (toks \<noteq> [] \<longrightarrow> ttype (hd toks) \<noteq> Colon) \<longrightarrow>
       (toks' \<noteq> [] \<longrightarrow> ttype (hd toks') \<noteq> Colon) \<longrightarrow>
         parse_tokens (m # toks) = parse_tokens (m # toks')) \<and>
      (ttype l = Identifier \<longrightarrow> ttype c = Colon \<longrightarrow> ttype m = Identifier \<longrightarrow>
         parse_tokens (l # c # m # toks) = parse_tokens (l # c # m # toks'))"
    if h: "hash_comma_free toks" "hash_comma_free toks'"
      "map tok_shape (drop_commas toks) = map tok_shape (drop_commas toks')"
  proof -
    have e: "parse_operands toks = parse_operands toks'"
      using h by (rule parse_operands_commas)
    show ?thesis
      using e by (simp add: parse_tokens_mnemonic parse_tokens_label_mnemonic)
  qed
  have d: "parse_operands_p2 ts = parse_operands_p2 ts' \<and>
      (ttype_p2 m' = TIdentifier \<longrightarrow> (ts \<noteq> [] \<longrightarrow> ttype_p2 (hd ts) \<noteq> TColon) \<longrightarrow>
       (ts' \<noteq> [] \<longrightarrow> ttype_p2 (hd ts') \<noteq> TColon) \<longrightarrow>
         parse_line_tokens (m' # ts) = parse_line_tokens (m' # ts')) \<and>
      (ttype_p2 l' = TIdentifier \<longrightarrow> ttype_p2 c' = TColon \<longrightarrow> ttype_p2 m' = TIdentifier \<longrightarrow>
         parse_line_tokens (l' # c' # m' # ts) = parse_line_tokens (l' # c' # m' # ts'))"
    if h: "hash_comma_free_p2 ts" "hash_comma_free_p2 ts'"
      "drop_commas_p2 ts = drop_commas_p2 ts'"
  proof -
    have e: "parse_operands_p2 ts = parse_operands_p2 ts'"
      using h by (rule parse_operands_p2_commas)
    show ?thesis
      using e by (simp add: parse_line_tokens_mnemonic parse_line_tokens_label_mnemonic)
  qed
  from a b c d ex show ?thesis by (intro conjI impI) (simp_all only:)
qed

theorem commas_skippable_witness:
  "tokenize_line ''ADD ,R0,, #5,'' 1 = Inr (ex_mnemonic_tok # ex_ops_commas)
   \<and> tokenize_line ''ADD R0 #5'' 1 = Inr (ex_mnemonic_tok # ex_ops_plain)
   \<and> parse_operands (drop_commas ex_ops_commas) = parse_operands ex_ops_commas
   \<and> parse_operands ex_ops_commas = parse_operands ex_ops_plain
   \<and> parse_operands ex_ops_plain = Inr ex_add_r0_imm5
   \<and> parse_tokens (ex_mnemonic_tok # ex_ops_commas) = parse_tokens (ex_mnemonic_tok # ex_ops_plain)
   \<and> parse_tokens (ex_mnemonic_tok # ex_ops_plain) =
       Inr \<lparr>line_no = 1, label = [], lkind = Instruction, op = ''ADD'',
            operands = ex_add_r0_imm5\<rparr>
   \<and> parse_tokens (ex_label_toks @ ex_mnemonic_tok # ex_ops_commas) =
       parse_tokens (ex_label_toks @ ex_mnemonic_tok # ex_ops_plain)
   \<and> parse_tokens (ex_label_toks @ ex_mnemonic_tok # ex_ops_plain) =
       Inr \<lparr>line_no = 1, label = ''L'', lkind = Instruction, op = ''ADD'',
            operands = ex_add_r0_imm5\<rparr>
   \<and> tokenize_line_p2 ''ADD ,R0,, #5,'' = Inr (ex_mnemonic_tok_p2 # ex_ops_commas_p2)
   \<and> tokenize_line_p2 ''ADD R0 #5'' = Inr (ex_mnemonic_tok_p2 # ex_ops_plain_p2)
   \<and> parse_operands_p2 (drop_commas_p2 ex_ops_commas_p2) = parse_operands_p2 ex_ops_commas_p2
   \<and> parse_operands_p2 ex_ops_commas_p2 = parse_operands_p2 ex_ops_plain_p2
   \<and> parse_operands_p2 ex_ops_plain_p2 = Inr ex_add_r0_imm5_p2
   \<and> parse_line_tokens (ex_mnemonic_tok_p2 # ex_ops_commas_p2) =
       parse_line_tokens (ex_mnemonic_tok_p2 # ex_ops_plain_p2)
   \<and> parse_line_tokens (ex_mnemonic_tok_p2 # ex_ops_plain_p2) =
       Inr \<lparr>label_p2 = [], op_p2 = ''ADD'', is_directive = False,
            operands_p2 = ex_add_r0_imm5_p2\<rparr>
   \<and> parse_line_tokens (ex_label_toks_p2 @ ex_mnemonic_tok_p2 # ex_ops_commas_p2) =
       parse_line_tokens (ex_label_toks_p2 @ ex_mnemonic_tok_p2 # ex_ops_plain_p2)
   \<and> parse_line_tokens (ex_label_toks_p2 @ ex_mnemonic_tok_p2 # ex_ops_plain_p2) =
       Inr \<lparr>label_p2 = ''L'', op_p2 = ''ADD'', is_directive = False,
            operands_p2 = ex_add_r0_imm5_p2\<rparr>"
proof -
  note T = commas_skippable
  have t1: "tokenize_line ''ADD ,R0,, #5,'' 1 = Inr (ex_mnemonic_tok # ex_ops_commas)"
    and t2: "tokenize_line ''ADD R0 #5'' 1 = Inr (ex_mnemonic_tok # ex_ops_plain)"
    and t3: "tokenize_line_p2 ''ADD ,R0,, #5,'' = Inr (ex_mnemonic_tok_p2 # ex_ops_commas_p2)"
    and t4: "tokenize_line_p2 ''ADD R0 #5'' = Inr (ex_mnemonic_tok_p2 # ex_ops_plain_p2)"
    by code_simp+
  have h1: "hash_comma_free ex_ops_commas" and h2: "hash_comma_free ex_ops_plain"
    and h3: "map tok_shape (drop_commas ex_ops_commas) = map tok_shape (drop_commas ex_ops_plain)"
    and h4: "ttype ex_mnemonic_tok = Identifier"
    and h5: "ex_ops_commas \<noteq> [] \<longrightarrow> ttype (hd ex_ops_commas) \<noteq> Colon"
    and h6: "ex_ops_plain \<noteq> [] \<longrightarrow> ttype (hd ex_ops_plain) \<noteq> Colon"
    and h7: "ttype (ex_label_toks ! 0) = Identifier" and h8: "ttype (ex_label_toks ! 1) = Colon"
    and h9: "ex_label_toks = [ex_label_toks ! 0, ex_label_toks ! 1]"
    by code_simp+
  have v1: "parse_operands ex_ops_plain = Inr ex_add_r0_imm5"
    and v2: "parse_tokens (ex_mnemonic_tok # ex_ops_plain) =
       Inr \<lparr>line_no = 1, label = [], lkind = Instruction, op = ''ADD'',
            operands = ex_add_r0_imm5\<rparr>"
    and v3: "parse_tokens (ex_label_toks @ ex_mnemonic_tok # ex_ops_plain) =
       Inr \<lparr>line_no = 1, label = ''L'', lkind = Instruction, op = ''ADD'',
            operands = ex_add_r0_imm5\<rparr>"
    by code_simp+
  from T [THEN conjunct1, rule_format, OF h1]
  have r1: "parse_operands (drop_commas ex_ops_commas) = parse_operands ex_ops_commas" .
  note A = T [THEN conjunct2, THEN conjunct1, rule_format, OF h1 h2 h3]
  from A [THEN conjunct1]
  have r2: "parse_operands ex_ops_commas = parse_operands ex_ops_plain" .
  from A [THEN conjunct2, THEN conjunct1, rule_format, OF h4 h5 [rule_format] h6 [rule_format]]
  have r3: "parse_tokens (ex_mnemonic_tok # ex_ops_commas) =
      parse_tokens (ex_mnemonic_tok # ex_ops_plain)" .
  from A [THEN conjunct2, THEN conjunct2, rule_format, OF h7 h8 h4]
  have "parse_tokens ([ex_label_toks ! 0, ex_label_toks ! 1] @ ex_mnemonic_tok # ex_ops_commas) =
      parse_tokens ([ex_label_toks ! 0, ex_label_toks ! 1] @ ex_mnemonic_tok # ex_ops_plain)"
    by simp
  then have r4: "parse_tokens (ex_label_toks @ ex_mnemonic_tok # ex_ops_commas) =
      parse_tokens (ex_label_toks @ ex_mnemonic_tok # ex_ops_plain)"
    unfolding h9 [symmetric] .
  have k1: "hash_comma_free_p2 ex_ops_commas_p2" and k2: "hash_comma_free_p2 ex_ops_plain_p2"
    and k3: "drop_commas_p2 ex_ops_commas_p2 = drop_commas_p2 ex_ops_plain_p2"
    and k4: "ttype_p2 ex_mnemonic_tok_p2 = TIdentifier"
    and k5: "ex_ops_commas_p2 \<noteq> [] \<longrightarrow> ttype_p2 (hd ex_ops_commas_p2) \<noteq> TColon"
    and k6: "ex_ops_plain_p2 \<noteq> [] \<longrightarrow> ttype_p2 (hd ex_ops_plain_p2) \<noteq> TColon"
    and k7: "ttype_p2 (ex_label_toks_p2 ! 0) = TIdentifier"
    and k8: "ttype_p2 (ex_label_toks_p2 ! 1) = TColon"
    and k9: "ex_label_toks_p2 = [ex_label_toks_p2 ! 0, ex_label_toks_p2 ! 1]"
    by code_simp+
  have w1: "parse_operands_p2 ex_ops_plain_p2 = Inr ex_add_r0_imm5_p2"
    and w2: "parse_line_tokens (ex_mnemonic_tok_p2 # ex_ops_plain_p2) =
       Inr \<lparr>label_p2 = [], op_p2 = ''ADD'', is_directive = False,
            operands_p2 = ex_add_r0_imm5_p2\<rparr>"
    and w3: "parse_line_tokens (ex_label_toks_p2 @ ex_mnemonic_tok_p2 # ex_ops_plain_p2) =
       Inr \<lparr>label_p2 = ''L'', op_p2 = ''ADD'', is_directive = False,
            operands_p2 = ex_add_r0_imm5_p2\<rparr>"
    by code_simp+
  note T2 = T [THEN conjunct2, THEN conjunct2]
  from T2 [THEN conjunct1, rule_format, OF k1]
  have s1: "parse_operands_p2 (drop_commas_p2 ex_ops_commas_p2) =
      parse_operands_p2 ex_ops_commas_p2" .
  note B = T2 [THEN conjunct2, THEN conjunct1, rule_format, OF k1 k2 k3]
  from B [THEN conjunct1]
  have s2: "parse_operands_p2 ex_ops_commas_p2 = parse_operands_p2 ex_ops_plain_p2" .
  from B [THEN conjunct2, THEN conjunct1, rule_format, OF k4 k5 [rule_format] k6 [rule_format]]
  have s3: "parse_line_tokens (ex_mnemonic_tok_p2 # ex_ops_commas_p2) =
      parse_line_tokens (ex_mnemonic_tok_p2 # ex_ops_plain_p2)" .
  from B [THEN conjunct2, THEN conjunct2, rule_format, OF k7 k8 k4]
  have "parse_line_tokens
          ([ex_label_toks_p2 ! 0, ex_label_toks_p2 ! 1] @ ex_mnemonic_tok_p2 # ex_ops_commas_p2) =
        parse_line_tokens
          ([ex_label_toks_p2 ! 0, ex_label_toks_p2 ! 1] @ ex_mnemonic_tok_p2 # ex_ops_plain_p2)"
    by simp
  then have s4: "parse_line_tokens (ex_label_toks_p2 @ ex_mnemonic_tok_p2 # ex_ops_commas_p2) =
      parse_line_tokens (ex_label_toks_p2 @ ex_mnemonic_tok_p2 # ex_ops_plain_p2)"
    unfolding k9 [symmetric] .
  from t1 t2 r1 r2 v1 r3 v2 r4 v3 t3 t4 s1 s2 w1 s3 w2 s4 w3 show ?thesis
    by (intro conjI)
qed

section \<open>Lexical errors\<close>

lemma in_set_dropWhile: "x \<in> set xs \<Longrightarrow> \<not> P x \<Longrightarrow> x \<in> set (dropWhile P xs)"
  by (induction xs) auto

lemma lexable_cases:
  "lexable c \<longleftrightarrow>
     is_blank c \<or> c \<in> set '',:#[]+'' \<or> isdigit c \<or> isalpha c \<or> c = CHR ''_''"
  by (simp add: lexable_def)

lemma not_lexable_number_char:
  "\<not> lexable c \<Longrightarrow> \<not> (isalnum c \<or> c = CHR ''x'' \<or> c = CHR ''X'')"
proof -
  have "isalpha CHR ''x''" "isalpha CHR ''X''" by code_simp+
  then show "\<not> lexable c \<Longrightarrow> \<not> (isalnum c \<or> c = CHR ''x'' \<or> c = CHR ''X'')"
    unfolding lexable_def isalnum_def by blast
qed

lemma not_lexable_ident_char: "\<not> lexable c \<Longrightarrow> \<not> (isalnum c \<or> c = CHR ''_'')"
  unfolding lexable_def isalnum_def by blast

lemma tokenize_from_lexable:
  "\<forall>c\<in>set s. lexable c \<Longrightarrow> \<exists>toks. tokenize_from n i s = Inr toks"
proof (induction s arbitrary: i rule: length_induct)
  case (1 s)
  note IH = "1.IH" [rule_format]
  show ?case
  proof (cases s)
    case Nil
    then show ?thesis by simp
  next
    case (Cons c cs)
    let ?num = "\<lambda>d. isalnum d \<or> d = CHR ''x'' \<or> d = CHR ''X''"
    let ?idc = "\<lambda>d. isalnum d \<or> d = CHR ''_''"
    have short: "length cs < length s" "length (dropWhile ?num cs) < length s"
      "length (dropWhile ?idc cs) < length s"
      using Cons length_dropWhile_le [of ?num cs] length_dropWhile_le [of ?idc cs]
      by simp_all
    from "1.prems" Cons have lc: "lexable c" and lcs: "\<forall>c\<in>set cs. lexable c" by simp_all
    from lcs have l1: "\<forall>c\<in>set (dropWhile ?num cs). lexable c"
      and l2: "\<forall>c\<in>set (dropWhile ?idc cs). lexable c"
      by (blast dest: set_dropWhileD)+
    consider (blank) "is_blank c"
      | (punct) "\<not> is_blank c" "c \<in> set '',:#[]+''"
      | (num) "\<not> is_blank c" "c \<notin> set '',:#[]+''" "isdigit c"
      | (ident) "\<not> is_blank c" "c \<notin> set '',:#[]+''" "\<not> isdigit c" "isalpha c \<or> c = CHR ''_''"
      | (bad) "\<not> is_blank c" "c \<notin> set '',:#[]+''" "\<not> isdigit c" "\<not> (isalpha c \<or> c = CHR ''_'')"
      by blast
    then show ?thesis
    proof cases
      case blank
      from IH [OF short(1) lcs [rule_format], of "i + 1"] show ?thesis
        unfolding Cons tokenize_from_blank [OF blank] .
    next
      case punct
      from IH [OF short(1) lcs [rule_format], of "i + 1"] obtain r where
        "tokenize_from n (i + 1) cs = Inr r" by blast
      then show ?thesis
        unfolding Cons tokenize_from_punct [OF punct] by simp
    next
      case num
      from IH [OF short(2) l1 [rule_format], of "i + 1 + int (length (takeWhile ?num cs))"] obtain r where
        "tokenize_from n (i + 1 + int (length (takeWhile ?num cs))) (dropWhile ?num cs) = Inr r"
        by blast
      then show ?thesis
        unfolding Cons tokenize_from_number [OF num] by simp
    next
      case ident
      from IH [OF short(3) l2 [rule_format], of "i + 1 + int (length (takeWhile ?idc cs))"] obtain r where
        "tokenize_from n (i + 1 + int (length (takeWhile ?idc cs))) (dropWhile ?idc cs) = Inr r"
        by blast
      then show ?thesis
        unfolding Cons tokenize_from_word [OF ident] by simp
    next
      case bad
      with lc show ?thesis unfolding lexable_cases by blast
    qed
  qed
qed

lemma tokenize_from_not_lexable:
  "\<exists>c\<in>set s. \<not> lexable c \<Longrightarrow>
   tokenize_from n i s = Inl (runtime_error ''Unexpected character in source'')"
proof (induction s arbitrary: i rule: length_induct)
  case (1 s)
  note IH = "1.IH" [rule_format]
  show ?case
  proof (cases s)
    case Nil
    with "1.prems" show ?thesis by simp
  next
    case (Cons c cs)
    let ?num = "\<lambda>d. isalnum d \<or> d = CHR ''x'' \<or> d = CHR ''X''"
    let ?idc = "\<lambda>d. isalnum d \<or> d = CHR ''_''"
    have short: "length cs < length s" "length (dropWhile ?num cs) < length s"
      "length (dropWhile ?idc cs) < length s"
      using Cons length_dropWhile_le [of ?num cs] length_dropWhile_le [of ?idc cs]
      by simp_all
    have rest: "\<exists>b\<in>set cs. \<not> lexable b" if "lexable c"
      using that "1.prems" Cons by auto
    have r1: "\<exists>b\<in>set (dropWhile ?num cs). \<not> lexable b" if "lexable c"
      using rest [OF that] in_set_dropWhile [of _ cs ?num] not_lexable_number_char by blast
    have r2: "\<exists>b\<in>set (dropWhile ?idc cs). \<not> lexable b" if "lexable c"
      using rest [OF that] in_set_dropWhile [of _ cs ?idc] not_lexable_ident_char by blast
    consider (blank) "is_blank c"
      | (punct) "\<not> is_blank c" "c \<in> set '',:#[]+''"
      | (num) "\<not> is_blank c" "c \<notin> set '',:#[]+''" "isdigit c"
      | (ident) "\<not> is_blank c" "c \<notin> set '',:#[]+''" "\<not> isdigit c" "isalpha c \<or> c = CHR ''_''"
      | (bad) "\<not> is_blank c" "c \<notin> set '',:#[]+''" "\<not> isdigit c" "\<not> (isalpha c \<or> c = CHR ''_'')"
      by blast
    then show ?thesis
    proof cases
      case blank
      then have "lexable c" unfolding lexable_cases by blast
      from IH [OF short(1) rest [OF this], of "i + 1"] show ?thesis
        unfolding Cons tokenize_from_blank [OF blank] .
    next
      case punct
      then have "lexable c" unfolding lexable_cases by blast
      from IH [OF short(1) rest [OF this], of "i + 1"] show ?thesis
        unfolding Cons tokenize_from_punct [OF punct] by simp
    next
      case num
      then have "lexable c" unfolding lexable_cases by blast
      from IH [OF short(2) r1 [OF this], of "i + 1 + int (length (takeWhile ?num cs))"]
      show ?thesis
        unfolding Cons tokenize_from_number [OF num] by simp
    next
      case ident
      then have "lexable c" unfolding lexable_cases by blast
      from IH [OF short(3) r2 [OF this], of "i + 1 + int (length (takeWhile ?idc cs))"]
      show ?thesis
        unfolding Cons tokenize_from_word [OF ident] by simp
    next
      case bad
      show ?thesis unfolding Cons by (rule tokenize_from_bad [OF bad])
    qed
  qed
qed

lemma tokenize_from_p2_blank:
  "is_blank c \<Longrightarrow> tokenize_from_p2 (c # cs) = tokenize_from_p2 cs"
  by simp

lemma tokenize_from_p2_punct:
  assumes "\<not> is_blank c" and "c \<in> set '',:#''"
  shows "tokenize_from_p2 (c # cs) =
     push_front \<lparr>ttype_p2 = (if c = CHR '','' then TComma else if c = CHR '':'' then TColon
                              else THash),
                  ttext_p2 = [c]\<rparr>
       (tokenize_from_p2 cs)"
  using assms by auto

lemma tokenize_from_p2_number:
  assumes "\<not> is_blank c" and "c \<notin> set '',:#''" and "isdigit c"
  shows "tokenize_from_p2 (c # cs) =
     push_front
       \<lparr>ttype_p2 = TNumber,
        ttext_p2 = c # takeWhile (\<lambda>d. isalnum d \<or> d = CHR ''x'' \<or> d = CHR ''X'') cs\<rparr>
       (tokenize_from_p2 (dropWhile (\<lambda>d. isalnum d \<or> d = CHR ''x'' \<or> d = CHR ''X'') cs))"
  using assms by (simp add: Let_def)

lemma tokenize_from_p2_word:
  assumes "\<not> is_blank c" and "c \<notin> set '',:#''" and "\<not> isdigit c"
    and "isalpha c \<or> c = CHR ''_'' \<or> c = CHR ''.''"
  shows "tokenize_from_p2 (c # cs) =
     push_front
       (if is_register_name
             (upper_str (c # takeWhile (\<lambda>d. isalnum d \<or> d = CHR ''_'' \<or> d = CHR ''.'') cs))
        then \<lparr>ttype_p2 = TRegister,
              ttext_p2 = upper_str
                (c # takeWhile (\<lambda>d. isalnum d \<or> d = CHR ''_'' \<or> d = CHR ''.'') cs)\<rparr>
        else \<lparr>ttype_p2 = TIdentifier,
              ttext_p2 = upper_str
                (c # takeWhile (\<lambda>d. isalnum d \<or> d = CHR ''_'' \<or> d = CHR ''.'') cs)\<rparr>)
       (tokenize_from_p2 (dropWhile (\<lambda>d. isalnum d \<or> d = CHR ''_'' \<or> d = CHR ''.'') cs))"
  using assms by (simp add: Let_def)

lemma tokenize_from_p2_bad:
  assumes "\<not> is_blank c" and "c \<notin> set '',:#''" and "\<not> isdigit c"
    and "\<not> (isalpha c \<or> c = CHR ''_'' \<or> c = CHR ''.'')"
  shows "tokenize_from_p2 (c # cs) = Inl (runtime_error ''Unexpected character in source line'')"
  using assms by simp

lemma lexable_p2_cases:
  "lexable_p2 c \<longleftrightarrow>
     is_blank c \<or> c \<in> set '',:#'' \<or> isdigit c \<or> isalpha c \<or> c = CHR ''_'' \<or> c = CHR ''.''"
  by (simp add: lexable_p2_def)

lemma not_lexable_p2_number_char:
  "\<not> lexable_p2 c \<Longrightarrow> \<not> (isalnum c \<or> c = CHR ''x'' \<or> c = CHR ''X'')"
proof -
  have "isalpha CHR ''x''" "isalpha CHR ''X''" by code_simp+
  then show "\<not> lexable_p2 c \<Longrightarrow> \<not> (isalnum c \<or> c = CHR ''x'' \<or> c = CHR ''X'')"
    unfolding lexable_p2_def isalnum_def by blast
qed

lemma not_lexable_p2_ident_char:
  "\<not> lexable_p2 c \<Longrightarrow> \<not> (isalnum c \<or> c = CHR ''_'' \<or> c = CHR ''.'')"
  unfolding lexable_p2_def isalnum_def by blast

lemma tokenize_from_p2_lexable:
  "\<forall>c\<in>set s. lexable_p2 c \<Longrightarrow> \<exists>toks. tokenize_from_p2 s = Inr toks"
proof (induction s rule: length_induct)
  case (1 s)
  note IH = "1.IH" [rule_format]
  show ?case
  proof (cases s)
    case Nil
    then show ?thesis by simp
  next
    case (Cons c cs)
    let ?num = "\<lambda>d. isalnum d \<or> d = CHR ''x'' \<or> d = CHR ''X''"
    let ?idc = "\<lambda>d. isalnum d \<or> d = CHR ''_'' \<or> d = CHR ''.''"
    have short: "length cs < length s" "length (dropWhile ?num cs) < length s"
      "length (dropWhile ?idc cs) < length s"
      using Cons length_dropWhile_le [of ?num cs] length_dropWhile_le [of ?idc cs]
      by simp_all
    from "1.prems" Cons have lc: "lexable_p2 c" and lcs: "\<forall>c\<in>set cs. lexable_p2 c"
      by simp_all
    from lcs have l1: "\<forall>c\<in>set (dropWhile ?num cs). lexable_p2 c"
      and l2: "\<forall>c\<in>set (dropWhile ?idc cs). lexable_p2 c"
      by (blast dest: set_dropWhileD)+
    consider (blank) "is_blank c"
      | (punct) "\<not> is_blank c" "c \<in> set '',:#''"
      | (num) "\<not> is_blank c" "c \<notin> set '',:#''" "isdigit c"
      | (ident) "\<not> is_blank c" "c \<notin> set '',:#''" "\<not> isdigit c"
          "isalpha c \<or> c = CHR ''_'' \<or> c = CHR ''.''"
      | (bad) "\<not> is_blank c" "c \<notin> set '',:#''" "\<not> isdigit c"
          "\<not> (isalpha c \<or> c = CHR ''_'' \<or> c = CHR ''.'')"
      by blast
    then show ?thesis
    proof cases
      case blank
      from IH [OF short(1) lcs [rule_format]] show ?thesis
        unfolding Cons tokenize_from_p2_blank [OF blank] .
    next
      case punct
      from IH [OF short(1) lcs [rule_format]] obtain r where "tokenize_from_p2 cs = Inr r" by blast
      then show ?thesis
        unfolding Cons tokenize_from_p2_punct [OF punct] by simp
    next
      case num
      from IH [OF short(2) l1 [rule_format]] obtain r where
        "tokenize_from_p2 (dropWhile ?num cs) = Inr r" by blast
      then show ?thesis
        unfolding Cons tokenize_from_p2_number [OF num] by simp
    next
      case ident
      from IH [OF short(3) l2 [rule_format]] obtain r where
        "tokenize_from_p2 (dropWhile ?idc cs) = Inr r" by blast
      then show ?thesis
        unfolding Cons tokenize_from_p2_word [OF ident] by simp
    next
      case bad
      with lc show ?thesis unfolding lexable_p2_cases by blast
    qed
  qed
qed

lemma tokenize_from_p2_not_lexable:
  "\<exists>c\<in>set s. \<not> lexable_p2 c \<Longrightarrow>
   tokenize_from_p2 s = Inl (runtime_error ''Unexpected character in source line'')"
proof (induction s rule: length_induct)
  case (1 s)
  note IH = "1.IH" [rule_format]
  show ?case
  proof (cases s)
    case Nil
    with "1.prems" show ?thesis by simp
  next
    case (Cons c cs)
    let ?num = "\<lambda>d. isalnum d \<or> d = CHR ''x'' \<or> d = CHR ''X''"
    let ?idc = "\<lambda>d. isalnum d \<or> d = CHR ''_'' \<or> d = CHR ''.''"
    have short: "length cs < length s" "length (dropWhile ?num cs) < length s"
      "length (dropWhile ?idc cs) < length s"
      using Cons length_dropWhile_le [of ?num cs] length_dropWhile_le [of ?idc cs]
      by simp_all
    have rest: "\<exists>b\<in>set cs. \<not> lexable_p2 b" if "lexable_p2 c"
      using that "1.prems" Cons by auto
    have r1: "\<exists>b\<in>set (dropWhile ?num cs). \<not> lexable_p2 b" if "lexable_p2 c"
      using rest [OF that] in_set_dropWhile [of _ cs ?num] not_lexable_p2_number_char by blast
    have r2: "\<exists>b\<in>set (dropWhile ?idc cs). \<not> lexable_p2 b" if "lexable_p2 c"
      using rest [OF that] in_set_dropWhile [of _ cs ?idc] not_lexable_p2_ident_char by blast
    consider (blank) "is_blank c"
      | (punct) "\<not> is_blank c" "c \<in> set '',:#''"
      | (num) "\<not> is_blank c" "c \<notin> set '',:#''" "isdigit c"
      | (ident) "\<not> is_blank c" "c \<notin> set '',:#''" "\<not> isdigit c"
          "isalpha c \<or> c = CHR ''_'' \<or> c = CHR ''.''"
      | (bad) "\<not> is_blank c" "c \<notin> set '',:#''" "\<not> isdigit c"
          "\<not> (isalpha c \<or> c = CHR ''_'' \<or> c = CHR ''.'')"
      by blast
    then show ?thesis
    proof cases
      case blank
      then have "lexable_p2 c" unfolding lexable_p2_cases by blast
      from IH [OF short(1) rest [OF this]] show ?thesis
        unfolding Cons tokenize_from_p2_blank [OF blank] .
    next
      case punct
      then have "lexable_p2 c" unfolding lexable_p2_cases by blast
      from IH [OF short(1) rest [OF this]] show ?thesis
        unfolding Cons tokenize_from_p2_punct [OF punct] by simp
    next
      case num
      then have "lexable_p2 c" unfolding lexable_p2_cases by blast
      from IH [OF short(2) r1 [OF this]] show ?thesis
        unfolding Cons tokenize_from_p2_number [OF num] by simp
    next
      case ident
      then have "lexable_p2 c" unfolding lexable_p2_cases by blast
      from IH [OF short(3) r2 [OF this]] show ?thesis
        unfolding Cons tokenize_from_p2_word [OF ident] by simp
    next
      case bad
      show ?thesis unfolding Cons by (rule tokenize_from_p2_bad [OF bad])
    qed
  qed
qed

lemma trim_eq_Nil: "trim s = [] \<longleftrightarrow> (\<forall>c\<in>set s. is_blank c)"
proof -
  have "trim s = [] \<longleftrightarrow> (\<forall>c\<in>set (dropWhile is_blank s). is_blank c)"
    by (simp add: trim_def dropWhile_eq_Nil_conv)
  also have "\<dots> \<longleftrightarrow> dropWhile is_blank s = []"
  proof
    assume a: "\<forall>c\<in>set (dropWhile is_blank s). is_blank c"
    show "dropWhile is_blank s = []"
    proof (rule ccontr)
      assume n: "dropWhile is_blank s \<noteq> []"
      then have "\<not> is_blank (hd (dropWhile is_blank s))" by (rule hd_dropWhile)
      with a n show False by (simp add: hd_in_set)
    qed
  next
    assume e: "dropWhile is_blank s = []"
    show "\<forall>c\<in>set (dropWhile is_blank s). is_blank c" unfolding e by simp
  qed
  also have "\<dots> \<longleftrightarrow> (\<forall>c\<in>set s. is_blank c)" by (simp add: dropWhile_eq_Nil_conv)
  finally show ?thesis .
qed

lemma parse_lines_append:
  "parse_lines n (pre @ rest) =
     bind (parse_lines n pre) (\<lambda>a.
       bind (parse_lines (n + int (length pre)) rest) (\<lambda>b. Inr (a @ b)))"
proof (induction pre arbitrary: n)
  case Nil
  show ?case by (cases "parse_lines n rest") simp_all
next
  case (Cons ln pre)
  have s: "n + 1 + int (length pre) = n + int (length (ln # pre))" by simp
  show ?case
  proof (cases "trim ln = []")
    case True
    then show ?thesis using Cons [of "n + 1"] by (simp add: add.assoc)
  next
    case False
    show ?thesis
    proof (cases "tokenize_line ln n")
      case (Inl e)
      with False show ?thesis by simp
    next
      case (Inr toks)
      show ?thesis
      proof (cases "parse_tokens toks")
        case (Inl e)
        with False Inr show ?thesis by simp
      next
        case pt: (Inr pl)
        show ?thesis
        proof (cases "parse_lines (n + 1) pre")
          case (Inl e)
          with False Inr pt Cons [of "n + 1"] show ?thesis by (simp add: add.assoc)
        next
          case pp: (Inr a)
          show ?thesis
          proof (cases "parse_lines (n + 1 + int (length pre)) rest")
            case (Inl e)
            with False Inr pt pp Cons [of "n + 1"] show ?thesis by (simp add: add.assoc)
          next
            case (Inr b)
            with False \<open>tokenize_line ln n = Inr toks\<close> pt pp Cons [of "n + 1"]
            show ?thesis by (simp add: add.assoc)
          qed
        qed
      qed
    qed
  qed
qed

lemma parse_lines_p2_append:
  "parse_lines_p2 (pre @ rest) =
     bind (parse_lines_p2 pre) (\<lambda>a. bind (parse_lines_p2 rest) (\<lambda>b. Inr (a @ b)))"
proof (induction pre)
  case Nil
  show ?case by (cases "parse_lines_p2 rest") simp_all
next
  case (Cons ln pre)
  show ?case
  proof (cases "trim ln = []")
    case True
    then show ?thesis using Cons by (simp add: Let_def)
  next
    case False
    show ?thesis
    proof (cases "tokenize_line_p2 (trim ln)")
      case (Inl e)
      with False show ?thesis by (simp add: Let_def)
    next
      case (Inr toks)
      show ?thesis
      proof (cases "parse_line_tokens toks")
        case (Inl e)
        with False Inr show ?thesis by (simp add: Let_def)
      next
        case pt: (Inr pl)
        show ?thesis
        proof (cases "parse_lines_p2 pre")
          case (Inl e)
          with False Inr pt Cons show ?thesis by (simp add: Let_def)
        next
          case pp: (Inr a)
          show ?thesis
          proof (cases "parse_lines_p2 rest")
            case (Inl e)
            with False Inr pt pp Cons show ?thesis by (simp add: Let_def)
          next
            case (Inr b)
            with False \<open>tokenize_line_p2 (trim ln) = Inr toks\<close> pt pp Cons
            show ?thesis by (simp add: Let_def)
          qed
        qed
      qed
    qed
  qed
qed

text \<open>
  Claim C8, as stated, fails. The error both tokenizers raise is a \<^verbatim>\<open>runtime_error\<close> with
  a fixed message: it is the same value for \<^verbatim>\<open>@\<close> in column 0 of line 1 and for \<^verbatim>\<open>$\<close> in
  column 2 of line 7, so it names neither the character nor the position. And a line that
  contains such a character only behind a \<^verbatim>\<open>;\<close> tokenizes and assembles.
\<close>

theorem lex_error_counterexample:
  "tokenize_line ''@'' 1 = Inl (runtime_error ''Unexpected character in source'')
   \<and> tokenize_line ''  $'' 7 = Inl (runtime_error ''Unexpected character in source'')
   \<and> tokenize_line ''NOP ; @'' 1 =
       Inr [\<lparr>ttype = Identifier, ttext = ''NOP'', tline = 1, tcolumn = 0\<rparr>]
   \<and> assemble ''NOP ; @'' = Inr [0, 0]
   \<and> tokenize_line_p2 ''@'' = Inl (runtime_error ''Unexpected character in source line'')
   \<and> tokenize_line_p2 ''  $'' = Inl (runtime_error ''Unexpected character in source line'')
   \<and> tokenize_line_p2 ''NOP ; @'' = Inr [\<lparr>ttype_p2 = TIdentifier, ttext_p2 = ''NOP''\<rparr>]
   \<and> assemble_p2 ''NOP ; @'' = Inr [0, 0]"
  by code_simp

text \<open>
  Claim C8, amended. A line fails to tokenize exactly when, before its first \<^verbatim>\<open>;\<close>, it
  holds a character that is neither blank, a digit, a letter, an underscore nor one of
  the punctuation marks of that source (\<^verbatim>\<open>, : #\<close> and, in the first source, \<^verbatim>\<open>[ ] +\<close>; in
  the second source the dot counts as a letter). The failure is then the
  \<^verbatim>\<open>runtime_error\<close> with the fixed message \<^verbatim>\<open>Unexpected character in source\<close> (second
  source: \<^verbatim>\<open>Unexpected character in source line\<close>); otherwise the tokenizer returns a
  token list. \<^verbatim>\<open>assemble\<close> fails with this error when the lines before such a line
  tokenize and parse.
\<close>

theorem lex_error:
  "(tokenize_line ln n = Inl e \<longleftrightarrow>
      e = runtime_error ''Unexpected character in source'' \<and>
      (\<exists>c\<in>set (strip_comment ln). \<not> lexable c))
   \<and> ((\<exists>toks. tokenize_line ln n = Inr toks) \<longleftrightarrow> (\<forall>c\<in>set (strip_comment ln). lexable c))
   \<and> (tokenize_line_p2 ln = Inl e \<longleftrightarrow>
      e = runtime_error ''Unexpected character in source line'' \<and>
      (\<exists>c\<in>set (strip_comment ln). \<not> lexable_p2 c))
   \<and> ((\<exists>toks. tokenize_line_p2 ln = Inr toks) \<longleftrightarrow>
      (\<forall>c\<in>set (strip_comment ln). lexable_p2 c))
   \<and> (getlines source = pre @ ln # post \<longrightarrow> parse_lines 1 pre = Inr pls \<longrightarrow>
      (\<exists>c\<in>set (strip_comment ln). \<not> lexable c) \<longrightarrow>
      assemble source = Inl (runtime_error ''Unexpected character in source''))
   \<and> (getlines source = pre @ ln # post \<longrightarrow> parse_lines_p2 pre = Inr pls' \<longrightarrow>
      (\<exists>c\<in>set (strip_comment (trim ln)). \<not> lexable_p2 c) \<longrightarrow>
      assemble_p2 source = Inl (runtime_error ''Unexpected character in source line''))"
proof (intro conjI impI)
  have ok: "\<exists>toks. tokenize_line ln n = Inr toks" if "\<forall>c\<in>set (strip_comment ln). lexable c"
    using tokenize_from_lexable [OF that] by (simp add: tokenize_line_def)
  have bad: "tokenize_line ln n = Inl (runtime_error ''Unexpected character in source'')"
    if "\<exists>c\<in>set (strip_comment ln). \<not> lexable c"
    using tokenize_from_not_lexable [OF that] by (simp add: tokenize_line_def)
  show "tokenize_line ln n = Inl e \<longleftrightarrow>
      e = runtime_error ''Unexpected character in source'' \<and>
      (\<exists>c\<in>set (strip_comment ln). \<not> lexable c)"
    using ok bad by (cases "\<forall>c\<in>set (strip_comment ln). lexable c") auto
  show "(\<exists>toks. tokenize_line ln n = Inr toks) \<longleftrightarrow> (\<forall>c\<in>set (strip_comment ln). lexable c)"
    using ok bad by (cases "\<forall>c\<in>set (strip_comment ln). lexable c") auto
next
  have ok: "\<exists>toks. tokenize_line_p2 ln = Inr toks"
    if "\<forall>c\<in>set (strip_comment ln). lexable_p2 c"
    using tokenize_from_p2_lexable [OF that] by (simp add: tokenize_line_p2_def)
  have bad: "tokenize_line_p2 ln = Inl (runtime_error ''Unexpected character in source line'')"
    if "\<exists>c\<in>set (strip_comment ln). \<not> lexable_p2 c"
    using tokenize_from_p2_not_lexable [OF that] by (simp add: tokenize_line_p2_def)
  show "tokenize_line_p2 ln = Inl e \<longleftrightarrow>
      e = runtime_error ''Unexpected character in source line'' \<and>
      (\<exists>c\<in>set (strip_comment ln). \<not> lexable_p2 c)"
    using ok bad by (cases "\<forall>c\<in>set (strip_comment ln). lexable_p2 c") auto
  show "(\<exists>toks. tokenize_line_p2 ln = Inr toks) \<longleftrightarrow>
      (\<forall>c\<in>set (strip_comment ln). lexable_p2 c)"
    using ok bad by (cases "\<forall>c\<in>set (strip_comment ln). lexable_p2 c") auto
next
  assume g: "getlines source = pre @ ln # post" and p: "parse_lines 1 pre = Inr pls"
    and b: "\<exists>c\<in>set (strip_comment ln). \<not> lexable c"
  from b obtain c where c: "c \<in> set (strip_comment ln)" "\<not> lexable c" by blast
  from c(1) have "c \<in> set ln" unfolding strip_comment_def by (rule set_takeWhileD [THEN conjunct1])
  moreover from c(2) have "\<not> is_blank c" by (simp add: lexable_def)
  ultimately have t: "trim ln \<noteq> []" unfolding trim_eq_Nil by blast
  have "tokenize_line ln (1 + int (length pre)) =
      Inl (runtime_error ''Unexpected character in source'')"
    using tokenize_from_not_lexable [OF b] by (simp add: tokenize_line_def)
  with t have "parse_lines (1 + int (length pre)) (ln # post) =
      Inl (runtime_error ''Unexpected character in source'')"
    by simp
  with p have "parse_lines 1 (pre @ ln # post) =
      Inl (runtime_error ''Unexpected character in source'')"
    unfolding parse_lines_append by simp
  with g show "assemble source = Inl (runtime_error ''Unexpected character in source'')"
    by (simp add: assemble_def assemble_words_def)
next
  assume g: "getlines source = pre @ ln # post" and p: "parse_lines_p2 pre = Inr pls'"
    and b: "\<exists>c\<in>set (strip_comment (trim ln)). \<not> lexable_p2 c"
  from b have t: "trim ln \<noteq> []" by (auto simp add: strip_comment_def)
  have "tokenize_line_p2 (trim ln) =
      Inl (runtime_error ''Unexpected character in source line'')"
    using tokenize_from_p2_not_lexable [OF b] by (simp add: tokenize_line_p2_def)
  with t have "parse_lines_p2 (ln # post) =
      Inl (runtime_error ''Unexpected character in source line'')"
    by (simp add: Let_def)
  with p have "parse_lines_p2 (pre @ ln # post) =
      Inl (runtime_error ''Unexpected character in source line'')"
    unfolding parse_lines_p2_append by simp
  with g show "assemble_p2 source = Inl (runtime_error ''Unexpected character in source line'')"
    by (simp add: assemble_p2_def assemble_words_p2_def)
qed

theorem lex_error_witness:
  "tokenize_line ''ADD R1, @5'' 3 = Inl (runtime_error ''Unexpected character in source'')
   \<and> tokenize_line ''.org 5'' 1 = Inl (runtime_error ''Unexpected character in source'')
   \<and> (\<exists>toks. tokenize_line ''ADD [R1+2] ; @'' 1 = Inr toks)
   \<and> tokenize_line_p2 ''ADD [R1]'' = Inl (runtime_error ''Unexpected character in source line'')
   \<and> (\<exists>toks. tokenize_line_p2 ''.org 5 ; [@]'' = Inr toks)
   \<and> assemble (''NOP'' @ nl @ ''ADD R1, @5'' @ nl @ ''HALT'')
        = Inl (runtime_error ''Unexpected character in source'')
   \<and> assemble_p2 (''NOP'' @ nl @ ''  ADD R1, @5 '' @ nl @ ''HALT'')
        = Inl (runtime_error ''Unexpected character in source line'')"
proof -
  note T = lex_error
  have a1: "\<exists>c\<in>set (strip_comment ''ADD R1, @5''). \<not> lexable c"
    and a2: "\<exists>c\<in>set (strip_comment ''.org 5''). \<not> lexable c"
    and a3: "\<forall>c\<in>set (strip_comment ''ADD [R1+2] ; @''). lexable c"
    and a4: "\<exists>c\<in>set (strip_comment ''ADD [R1]''). \<not> lexable_p2 c"
    and a5: "\<forall>c\<in>set (strip_comment ''.org 5 ; [@]''). lexable_p2 c"
    and a6: "\<exists>c\<in>set (strip_comment (trim ''  ADD R1, @5 '')). \<not> lexable_p2 c"
    by code_simp+
  have g1: "getlines (''NOP'' @ nl @ ''ADD R1, @5'' @ nl @ ''HALT'')
      = [''NOP''] @ ''ADD R1, @5'' # [''HALT'']"
    and g2: "getlines (''NOP'' @ nl @ ''  ADD R1, @5 '' @ nl @ ''HALT'')
      = [''NOP''] @ ''  ADD R1, @5 '' # [''HALT'']"
    and p1: "parse_lines 1 [''NOP''] =
      Inr [\<lparr>line_no = 1, label = [], lkind = Instruction, op = ''NOP'', operands = []\<rparr>]"
    and p2: "parse_lines_p2 [''NOP''] =
      Inr [\<lparr>label_p2 = [], op_p2 = ''NOP'', is_directive = False, operands_p2 = []\<rparr>]"
    by code_simp+
  from T [THEN conjunct1, THEN iffD2, OF conjI, OF refl a1]
  have r1: "tokenize_line ''ADD R1, @5'' 3 = Inl (runtime_error ''Unexpected character in source'')" .
  from T [THEN conjunct1, THEN iffD2, OF conjI, OF refl a2]
  have r2: "tokenize_line ''.org 5'' 1 = Inl (runtime_error ''Unexpected character in source'')" .
  from T [THEN conjunct2, THEN conjunct1, THEN iffD2, OF a3]
  have r3: "\<exists>toks. tokenize_line ''ADD [R1+2] ; @'' 1 = Inr toks" .
  note T3 = T [THEN conjunct2, THEN conjunct2]
  from T3 [THEN conjunct1, THEN iffD2, OF conjI, OF refl a4]
  have r4: "tokenize_line_p2 ''ADD [R1]'' =
      Inl (runtime_error ''Unexpected character in source line'')" .
  from T3 [THEN conjunct2, THEN conjunct1, THEN iffD2, OF a5]
  have r5: "\<exists>toks. tokenize_line_p2 ''.org 5 ; [@]'' = Inr toks" .
  note T5 = T3 [THEN conjunct2, THEN conjunct2]
  from T5 [THEN conjunct1, rule_format, OF g1 p1 a1]
  have r6: "assemble (''NOP'' @ nl @ ''ADD R1, @5'' @ nl @ ''HALT'')
        = Inl (runtime_error ''Unexpected character in source'')" .
  from T5 [THEN conjunct2, rule_format, OF g2 p2 a6]
  have r7: "assemble_p2 (''NOP'' @ nl @ ''  ADD R1, @5 '' @ nl @ ''HALT'')
        = Inl (runtime_error ''Unexpected character in source line'')" .
  from r1 r2 r3 r4 r5 r6 r7 show ?thesis by (intro conjI)
qed

section \<open>The origin directive\<close>






end
